(* ===== verification/Ws_Prelude.thy ===== *)
theory Ws_Prelude
  imports Main "HOL-Library.Word" "HOL-Library.Char_ord" "HOL-Library.List_Lexorder"
begin

text \<open>
  Shared vocabulary of the development: the machine types of the C++ code, the parts of the
  C and C++ standard libraries the sources lean on (character classes, string search, line and
  token extraction, decimal conversion), big-endian integers, and the list and word lemmas
  the components have in common.  Facts meant for the simplifier are collected in
  \<open>net_simps\<close>.
\<close>

unbundle bit_operations_syntax

named_theorems net_simps \<open>equations the component proofs rewrite with\<close>

section \<open>Machine types\<close>

type_synonym byte = "8 word"
type_synonym u16 = "16 word"
type_synonym u32 = "32 word"
type_synonym u64 = "64 word"
type_synonym bytes = "byte list"

text \<open>
  A \<^verbatim>\<open>std::string\<close> holds bytes.  Where the code treats it as text (HTTP, configuration) it is a
  \<^typ>\<open>string\<close>, whose characters are 8 bits wide; where the code treats it as data (WebSocket
  payloads) it is a list of bytes.  The two views are exchanged by the casts below
  (\<^verbatim>\<open>static_cast<uint8_t>\<close> and \<^verbatim>\<open>static_cast<char>\<close>).
\<close>

definition byte_of_char :: "char \<Rightarrow> byte" where
  "byte_of_char c = of_nat (of_char c)"

definition char_of_byte :: "byte \<Rightarrow> char" where
  "char_of_byte b = char_of (unat b)"

definition str_bytes :: "string \<Rightarrow> bytes" where
  "str_bytes s = map byte_of_char s"

definition bytes_str :: "bytes \<Rightarrow> string" where
  "bytes_str bs = map char_of_byte bs"

lemma char_code_less [simp]: "(of_char c :: nat) < 256"
  by (metis of_char_mod_256 mod_less_divisor zero_less_numeral)

lemma char_of_byte_of_char [simp]: "char_of_byte (byte_of_char c) = c"
  by (simp add: char_of_byte_def byte_of_char_def unat_of_nat)

lemma byte_of_char_of_byte [simp]: "byte_of_char (char_of_byte b) = b"
proof -
  have "unat b mod 256 = unat b"
    using unsigned_less [of b, where 'a = nat] by simp
  then show ?thesis
    by (simp add: char_of_byte_def byte_of_char_def)
qed

lemma bytes_str_of_str_bytes [simp]: "bytes_str (str_bytes s) = s"
  by (simp add: bytes_str_def str_bytes_def comp_def)

lemma str_bytes_of_bytes_str [simp]: "str_bytes (bytes_str bs) = bs"
  by (simp add: bytes_str_def str_bytes_def comp_def)

lemma length_str_bytes [simp]: "length (str_bytes s) = length s"
  by (simp add: str_bytes_def)

section \<open>Character classes (\<^verbatim>\<open>std::isspace\<close>, \<^verbatim>\<open>std::tolower\<close>, C locale)\<close>

definition is_space :: "char \<Rightarrow> bool" where
  "is_space c = (let n = (of_char c :: nat) in n = 32 \<or> (9 \<le> n \<and> n \<le> 13))"

definition is_digit :: "char \<Rightarrow> bool" where
  "is_digit c = (let n = (of_char c :: nat) in 48 \<le> n \<and> n \<le> 57)"

definition to_lower :: "char \<Rightarrow> char" where
  "to_lower c = (let n = (of_char c :: nat) in
     if 65 \<le> n \<and> n \<le> 90 then char_of (n + 32) else c)"

definition newline :: char where "newline = CHR 0x0A"
definition carriage :: char where "carriage = CHR 0x0D"
definition crlf :: string where "crlf = [carriage, newline]"

lemma is_space_newline [simp]: "is_space newline"
  by (simp add: is_space_def newline_def)

lemma is_space_carriage [simp]: "is_space carriage"
  by (simp add: is_space_def carriage_def)

lemma carriage_newline [simp]: "carriage \<noteq> newline" "newline \<noteq> carriage"
  by (simp_all add: carriage_def newline_def)

lemma to_lower_code:
  "(of_char (to_lower c) :: nat) =
     (if 65 \<le> (of_char c :: nat) \<and> (of_char c :: nat) \<le> 90 then of_char c + 32 else of_char c)"
  by (simp add: to_lower_def Let_def)

lemma to_lower_idem [simp]: "to_lower (to_lower c) = to_lower c"
  unfolding to_lower_def Let_def by (auto simp: to_lower_code)

lemma digit_not_space [simp]: "is_digit c \<Longrightarrow> \<not> is_space c"
  by (auto simp: is_digit_def is_space_def Let_def)

section \<open>String search and splitting\<close>

text \<open>\<^verbatim>\<open>s.find(c)\<close>: the index of the first occurrence, \<^verbatim>\<open>npos\<close> being \<^const>\<open>None\<close>.\<close>

fun find_char :: "char \<Rightarrow> string \<Rightarrow> nat option" where
  "find_char c [] = None"
| "find_char c (x # xs) = (if x = c then Some 0 else map_option Suc (find_char c xs))"

lemma find_char_None_iff: "find_char c s = None \<longleftrightarrow> c \<notin> set s"
  by (induction s) auto

lemma find_char_Some:
  "find_char c s = Some n \<Longrightarrow> s = take n s @ c # drop (Suc n) s \<and> c \<notin> set (take n s)"
  by (induction s arbitrary: n) (auto split: if_splits)

lemma find_char_append [simp]: "c \<notin> set xs \<Longrightarrow> find_char c (xs @ c # ys) = Some (length xs)"
  by (induction xs) auto

text \<open>\<^verbatim>\<open>s.find(t)\<close> for a string, used as a membership test.\<close>

fun is_prefix :: "string \<Rightarrow> string \<Rightarrow> bool" where
  "is_prefix [] s = True"
| "is_prefix (x # xs) [] = False"
| "is_prefix (x # xs) (y # ys) = (x = y \<and> is_prefix xs ys)"

fun has_substring :: "string \<Rightarrow> string \<Rightarrow> bool" where
  "has_substring t [] = (t = [])"
| "has_substring t (x # xs) = (is_prefix t (x # xs) \<or> has_substring t xs)"

lemma is_prefix_append [simp]: "is_prefix p (p @ s)"
  by (induction p) auto

lemma is_prefix_iff: "is_prefix p s \<longleftrightarrow> take (length p) s = p"
  by (induction p s rule: is_prefix.induct) auto

lemma is_prefix_ex: "is_prefix p s \<longleftrightarrow> (\<exists>t. s = p @ t)"
  by (metis append_take_drop_id is_prefix_append is_prefix_iff)

lemma is_prefix_length: "is_prefix p s \<Longrightarrow> length p \<le> length s"
  by (auto simp: is_prefix_ex)

lemma is_prefix_append_iff:
  "length p \<le> length s \<Longrightarrow> is_prefix p (s @ t) \<longleftrightarrow> is_prefix p s"
  by (simp add: is_prefix_iff)

lemma has_substring_infix: "has_substring t (xs @ t @ ys)"
proof (induction xs)
  case Nil
  then show ?case by (cases "t @ ys") (simp, metis append_Nil has_substring.simps(2) is_prefix_append)
next
  case (Cons x xs)
  then show ?case by simp
qed

text \<open>
  \<^verbatim>\<open>std::getline\<close>: the characters up to the next newline, which is dropped.  \<^const>\<open>None\<close> is
  the stream failing because nothing is left.
\<close>

definition getline :: "string \<Rightarrow> (string \<times> string) option" where
  "getline s = (if s = [] then None
     else Some (takeWhile (\<lambda>c. c \<noteq> newline) s, tl (dropWhile (\<lambda>c. c \<noteq> newline) s)))"

lemma getline_Nil [simp]: "getline [] = None"
  by (simp add: getline_def)

lemma getline_line [simp]:
  "newline \<notin> set l \<Longrightarrow> getline (l @ newline # s) = Some (l, s)"
  by (auto simp: getline_def takeWhile_append dropWhile_append)

lemma getline_shorter: "getline s = Some (l, r) \<Longrightarrow> length r < length s"
  using length_dropWhile_le [of "\<lambda>c. c \<noteq> newline" s]
  by (cases s) (auto simp: getline_def split: if_splits)

text \<open>
  \<^verbatim>\<open>stream >> word\<close>: skip white space, then take characters up to the next white space;
  \<^const>\<open>None\<close> when there is no word left.
\<close>

definition extract_word :: "string \<Rightarrow> (string \<times> string) option" where
  "extract_word s = (let t = dropWhile is_space s in
     if t = [] then None
     else Some (takeWhile (\<lambda>c. \<not> is_space c) t, dropWhile (\<lambda>c. \<not> is_space c) t))"

abbreviation no_space :: "string \<Rightarrow> bool" where
  "no_space w \<equiv> list_all (\<lambda>c. \<not> is_space c) w"

lemma extract_word_Nil [simp]: "extract_word [] = None"
  by (simp add: extract_word_def)

lemma extract_word_space [simp]: "is_space c \<Longrightarrow> extract_word (c # s) = extract_word s"
  by (simp add: extract_word_def)

lemma extract_word_word:
  "w \<noteq> [] \<Longrightarrow> no_space w \<Longrightarrow> is_space c \<Longrightarrow> extract_word (w @ c # s) = Some (w, c # s)"
  by (cases w) (auto simp: extract_word_def list_all_iff takeWhile_append dropWhile_append)

lemma extract_word_last:
  "w \<noteq> [] \<Longrightarrow> no_space w \<Longrightarrow> extract_word w = Some (w, [])"
  by (cases w) (auto simp: extract_word_def list_all_iff takeWhile_eq_all_conv)

section \<open>Decimal numbers\<close>

text \<open>\<^verbatim>\<open>std::to_string\<close> of an unsigned value.\<close>

definition digit_char :: "nat \<Rightarrow> char" where
  "digit_char d = char_of (48 + d)"

fun dec :: "nat \<Rightarrow> string" where
  "dec n = (if n < 10 then [digit_char n] else dec (n div 10) @ [digit_char (n mod 10)])"

declare dec.simps [simp del]

definition digit_val :: "char \<Rightarrow> nat" where
  "digit_val c = of_char c - 48"

definition digits_val :: "string \<Rightarrow> nat" where
  "digits_val ds = foldl (\<lambda>v c. v * 10 + digit_val c) 0 ds"

lemma digit_char_code: "d < 10 \<Longrightarrow> (of_char (digit_char d) :: nat) = 48 + d"
  by (simp add: digit_char_def)

lemma is_digit_char [simp]: "d < 10 \<Longrightarrow> is_digit (digit_char d)"
  by (simp add: is_digit_def Let_def digit_char_code)

lemma digit_val_char [simp]: "d < 10 \<Longrightarrow> digit_val (digit_char d) = d"
  by (simp add: digit_val_def digit_char_code)

lemma dec_digits: "list_all is_digit (dec n)"
proof (induction n rule: dec.induct)
  case (1 n)
  then show ?case by (subst dec.simps) auto
qed

lemma dec_nonempty [simp]: "dec n \<noteq> []"
  by (subst dec.simps) simp

lemma digits_val_snoc: "digits_val (ds @ [c]) = digits_val ds * 10 + digit_val c"
  by (simp add: digits_val_def)

lemma digits_val_dec [simp]: "digits_val (dec n) = n"
proof (induction n rule: dec.induct)
  case (1 n)
  show ?case
  proof (cases "n < 10")
    case True
    then show ?thesis by (subst dec.simps) (simp add: digits_val_def)
  next
    case False
    with 1 show ?thesis by (subst dec.simps) (simp add: digits_val_snoc)
  qed
qed

text \<open>
  \<^verbatim>\<open>std::stoull\<close> and, where \<^verbatim>\<open>unsigned long\<close> has 64 bits, \<^verbatim>\<open>std::stoul\<close>, in base ten:
  skip white space, read an optional sign and the longest run of digits.  The result is the value
  and the number of characters used; \<^const>\<open>None\<close> stands for the exceptions
  \<^verbatim>\<open>invalid_argument\<close> (no digit) and \<^verbatim>\<open>out_of_range\<close> (value above $2^{64}-1$).  A minus
  sign negates modulo $2^{64}$, as \<^verbatim>\<open>strtoull\<close> does.
\<close>

definition sign_split :: "string \<Rightarrow> bool \<times> string" where
  "sign_split t = (case t of
     [] \<Rightarrow> (False, [])
   | c # cs \<Rightarrow> if c = CHR ''-'' then (True, cs) else if c = CHR ''+'' then (False, cs) else (False, t))"

definition stoull :: "string \<Rightarrow> (nat \<times> nat) option" where
  "stoull s = (let (neg, u) = sign_split (dropWhile is_space s);
                   ds = takeWhile is_digit u;
                   v = digits_val ds in
     if ds = [] \<or> 2 ^ 64 \<le> v then None
     else Some (if neg then (2 ^ 64 - v) mod 2 ^ 64 else v, length s - length u + length ds))"

lemma sign_split_digit: "is_digit c \<Longrightarrow> sign_split (c # cs) = (False, c # cs)"
  by (auto simp: sign_split_def is_digit_def Let_def)

lemma takeWhile_digits [simp]: "list_all is_digit ds \<Longrightarrow> takeWhile is_digit ds = ds"
  by (simp add: list_all_iff takeWhile_eq_all_conv)

lemma stoull_digits:
  assumes "list_all is_digit ds" "ds \<noteq> []" "digits_val ds < 2 ^ 64"
  shows "stoull ds = Some (digits_val ds, length ds)"
proof -
  obtain c cs where ds: "ds = c # cs" using assms(2) by (cases ds) auto
  with assms(1) have c: "is_digit c" by simp
  then have "dropWhile is_space ds = ds" by (simp add: ds)
  moreover have "sign_split ds = (False, ds)" using c by (simp add: ds sign_split_digit)
  ultimately show ?thesis using assms by (simp add: stoull_def)
qed

lemma stoull_dec [simp]: "n < 2 ^ 64 \<Longrightarrow> stoull (dec n) = Some (n, length (dec n))"
  using stoull_digits [OF dec_digits dec_nonempty] by simp

lemma stoull_bound: "stoull s = Some (v, i) \<Longrightarrow> v < 2 ^ 64"
  by (auto simp: stoull_def Let_def split: prod.splits if_splits)

section \<open>Big-endian integers and word casts\<close>

definition byte_at :: "nat \<Rightarrow> u64 \<Rightarrow> byte" where
  "byte_at i w = ucast (drop_bit (8 * i) w AND 0xFF)"

definition be_read :: "u64 \<Rightarrow> bytes \<Rightarrow> u64" where
  "be_read acc bs = foldl (\<lambda>a b. push_bit 8 a OR ucast b) acc bs"

lemma and_0xFF: "(x :: 'a::len word) AND 0xFF = take_bit 8 x"
  by (simp add: take_bit_eq_mask mask_numeral)

lemma take_bit_small: "unat (w :: 'a::len word) < 2 ^ k \<Longrightarrow> take_bit k w = w"
  by (simp add: word_unat_eq_iff unsigned_take_bit_eq take_bit_nat_eq_self)

lemma bit_small: "unat (w :: 'a::len word) < 2 ^ k \<Longrightarrow> bit w i \<Longrightarrow> i < k"
  by (metis bit_take_bit_iff take_bit_small)

lemma bit_byte_at [simp]: "bit (byte_at i w) n \<longleftrightarrow> n < 8 \<and> bit w (8 * i + n)"
  unfolding byte_at_def and_0xFF by (auto simp: bit_simps dest: bit_imp_le_length)

lemma be_read_prefix:
  "be_read acc (map (\<lambda>i. byte_at i w) (rev [0..<k])) = push_bit (8 * k) acc OR take_bit (8 * k) w"
proof (induction k arbitrary: acc)
  case 0
  then show ?case by (simp add: be_read_def)
next
  case (Suc k)
  have "be_read acc (map (\<lambda>i. byte_at i w) (rev [0..<Suc k])) =
        push_bit (8 * k) (push_bit 8 acc OR ucast (byte_at k w)) OR take_bit (8 * k) w"
    using Suc.IH [of "push_bit 8 acc OR ucast (byte_at k w)"] by (simp add: be_read_def)
  also have "\<dots> = push_bit (8 * Suc k) acc OR take_bit (8 * Suc k) w"
    by (rule bit_word_eqI) (auto simp: bit_simps algebra_simps)
  finally show ?case .
qed

lemma be_read_bytes_8: "be_read 0 (map (\<lambda>i. byte_at i w) (rev [0..<8])) = w"
  by (simp only: be_read_prefix) (simp add: take_bit_word_eq_self)

end
