(* ===== verification/Ws_Frame.thy ===== *)
theory Ws_Frame
  imports Ws_Prelude
begin

text \<open>
  The WebSocket frame of \<^verbatim>\<open>include/websocket/WsFrame.h\<close> and its serialisation \<open>write_frame\<close>,
  and the helpers of \<^verbatim>\<open>include/websocket/ws_helpers.h\<close>: the opcodes, the message buffer
  \<^verbatim>\<open>FrameBody\<close> and \<open>build_close_payload\<close>.  Lemmas: shape and length of an encoded frame, the
  masking involution, the size bound the message buffer keeps.
\<close>

section \<open>Opcodes\<close>

definition WS_CONT :: byte where "WS_CONT = 0x0"
definition WS_TEXT :: byte where "WS_TEXT = 0x1"
definition WS_BINARY :: byte where "WS_BINARY = 0x2"
definition WS_CLOSE :: byte where "WS_CLOSE = 0x8"
definition WS_PING :: byte where "WS_PING = 0x9"
definition WS_PONG :: byte where "WS_PONG = 0xA"

lemmas ws_opcodes = WS_CONT_def WS_TEXT_def WS_BINARY_def WS_CLOSE_def WS_PING_def WS_PONG_def

section \<open>Frames\<close>

record ws_frame =
  fin :: bool
  rsv1 :: bool
  rsv2 :: bool
  rsv3 :: bool
  opcode :: byte
  mask_bit :: bool
  masking_key :: u32
  payload_length :: u64
  payload_data :: bytes

text \<open>\<^verbatim>\<open>WsFrame f{}\<close>: every field value-initialised.\<close>

definition empty_frame :: ws_frame where
  "empty_frame = \<lparr>fin = False, rsv1 = False, rsv2 = False, rsv3 = False, opcode = 0,
     mask_bit = False, masking_key = 0, payload_length = 0, payload_data = []\<rparr>"

text \<open>The byte of the masking key that covers payload position \<open>i\<close>.\<close>

definition mask_byte :: "u32 \<Rightarrow> nat \<Rightarrow> byte" where
  "mask_byte key i = ucast (drop_bit ((3 - i mod 4) * 8) key AND 0xFF)"

text \<open>
  The payload loop of \<open>write_frame\<close> from index \<open>i\<close> on.  The exclusive or is computed in
  32 bits and cut back to a byte, as the integer promotions of C++ have it.
\<close>

fun write_payload :: "bool \<Rightarrow> u32 \<Rightarrow> nat \<Rightarrow> bytes \<Rightarrow> bytes" where
  "write_payload m key i [] = []"
| "write_payload m key i (b # bs) =
     (if m then ucast ((ucast b :: u32) XOR (drop_bit ((3 - i mod 4) * 8) key AND 0xFF)) else b)
       # write_payload m key (Suc i) bs"

definition length_bytes :: "byte \<Rightarrow> u64 \<Rightarrow> bytes" where
  "length_bytes byte1 payload_len =
     (if payload_len \<le> 125 then [byte1 OR ucast payload_len]
      else if payload_len \<le> 0xFFFF then
        [byte1 OR 126, ucast (drop_bit 8 payload_len AND 0xFF), ucast (payload_len AND 0xFF)]
      else (byte1 OR 127) # map (\<lambda>i. ucast (drop_bit (8 * i) payload_len AND 0xFF)) (rev [0..<8]))"

definition key_bytes :: "u32 \<Rightarrow> bytes" where
  "key_bytes key = [ucast (drop_bit 24 key AND 0xFF), ucast (drop_bit 16 key AND 0xFF),
     ucast (drop_bit 8 key AND 0xFF), ucast (key AND 0xFF)]"

definition write_frame :: "ws_frame \<Rightarrow> bytes" where
  "write_frame frame =
     (let payload_len = (of_nat (length (payload_data frame)) :: u64);
          byte0 = push_bit 7 (of_bool (fin frame)) OR push_bit 6 (of_bool (rsv1 frame)) OR
                  push_bit 5 (of_bool (rsv2 frame)) OR push_bit 4 (of_bool (rsv3 frame)) OR
                  (opcode frame AND 0x0F);
          byte1 = push_bit 7 (of_bool (mask_bit frame))
      in [byte0] @ length_bytes byte1 payload_len @
         (if mask_bit frame then key_bytes (masking_key frame) else []) @
         write_payload (mask_bit frame) (masking_key frame) 0 (payload_data frame))"

subsection \<open>Masking\<close>

text \<open>The payload masked from position \<open>i\<close> on: what both loops (writing and reading) compute.\<close>

fun xor_mask :: "u32 \<Rightarrow> nat \<Rightarrow> bytes \<Rightarrow> bytes" where
  "xor_mask key i [] = []"
| "xor_mask key i (b # bs) = (b XOR mask_byte key i) # xor_mask key (Suc i) bs"

lemma ucast_xor_mask:
  "(ucast ((ucast b :: u32) XOR (drop_bit ((3 - i mod 4) * 8) key AND 0xFF)) :: byte) = b XOR mask_byte key i"
  unfolding mask_byte_def and_0xFF
  by (rule bit_word_eqI) (auto simp: bit_simps dest: bit_imp_le_length)

lemma write_payload_eq [net_simps]:
  "write_payload m key i bs = (if m then xor_mask key i bs else bs)"
  by (induction bs arbitrary: i) (simp_all add: ucast_xor_mask)

lemma length_xor_mask [simp]: "length (xor_mask key i bs) = length bs"
  by (induction bs arbitrary: i) auto

lemma xor_mask_twice [simp]: "xor_mask key i (xor_mask key i bs) = bs"
  by (induction bs arbitrary: i) (auto simp: xor.assoc)

lemma xor_mask_append: "xor_mask key i (xs @ ys) = xor_mask key i xs @ xor_mask key (i + length xs) ys"
  by (induction xs arbitrary: i) auto

lemma xor_mask_eq_Nil [simp]: "xor_mask key i bs = [] \<longleftrightarrow> bs = []"
  by (cases bs) auto

lemma length_key_bytes [simp]: "length (key_bytes key) = 4"
  by (simp add: key_bytes_def)

subsection \<open>Shape of an encoded frame\<close>

definition header_length :: "bool \<Rightarrow> nat \<Rightarrow> nat" where
  "header_length m n = 2 + (if n \<le> 125 then 0 else if n \<le> 0xFFFF then 2 else 8) + (if m then 4 else 0)"

lemma length_length_bytes:
  "length (length_bytes b n) = (if n \<le> 125 then 1 else if n \<le> 0xFFFF then 3 else 9)"
  by (simp add: length_bytes_def)

lemma of_nat_le_numeral:
  "n < 2 ^ 64 \<Longrightarrow> (of_nat n :: u64) \<le> numeral k \<longleftrightarrow> n \<le> unat (numeral k :: u64)"
  by (simp add: word_le_nat_alt unat_of_nat)

lemma length_write_frame:
  assumes "length (payload_data f) < 2 ^ 64"
  shows "length (write_frame f) = header_length (mask_bit f) (length (payload_data f)) + length (payload_data f)"
  using assms
  by (simp add: write_frame_def Let_def length_length_bytes of_nat_le_numeral header_length_def net_simps)

section \<open>The message buffer \<^verbatim>\<open>FrameBody\<close>\<close>

record frame_body =
  assembling :: bool
  fb_opcode :: byte
  msg :: bytes
  max_size :: u64

definition new_body :: "u64 \<Rightarrow> frame_body" where
  "new_body max_sz = \<lparr>assembling = False, fb_opcode = 0, msg = [], max_size = max_sz\<rparr>"

definition set_max_size :: "u64 \<Rightarrow> frame_body \<Rightarrow> frame_body" where
  "set_max_size max_sz fb = fb\<lparr>max_size := max_sz\<rparr>"

definition fb_reset :: "frame_body \<Rightarrow> frame_body" where
  "fb_reset fb = fb\<lparr>assembling := False, fb_opcode := 0, msg := []\<rparr>"

text \<open>\<^verbatim>\<open>start\<close>; its second argument only reserves memory.\<close>

definition fb_start :: "byte \<Rightarrow> frame_body \<Rightarrow> frame_body" where
  "fb_start op fb = fb\<lparr>assembling := True, fb_opcode := op, msg := []\<rparr>"

text \<open>\<^verbatim>\<open>size_t\<close> arithmetic: the sum wraps at $2^{64}$.\<close>

definition would_exceed :: "u64 \<Rightarrow> frame_body \<Rightarrow> bool" where
  "would_exceed extra fb \<longleftrightarrow>
     max_size fb \<noteq> 0 \<and> (of_nat (length (msg fb)) :: u64) + extra > max_size fb"

definition fb_append :: "bytes \<Rightarrow> frame_body \<Rightarrow> bool \<times> frame_body" where
  "fb_append bs fb =
     (if would_exceed (of_nat (length bs)) fb then (False, fb)
      else (True, fb\<lparr>msg := msg fb @ bs\<rparr>))"

definition fb_size :: "frame_body \<Rightarrow> nat" where
  "fb_size fb = length (msg fb)"

definition fb_empty :: "frame_body \<Rightarrow> bool" where
  "fb_empty fb = (msg fb = [])"

text \<open>The bound the buffer keeps when it has one.\<close>

definition fb_ok :: "frame_body \<Rightarrow> bool" where
  "fb_ok fb \<longleftrightarrow> (max_size fb = 0 \<or> length (msg fb) \<le> unat (max_size fb))"

lemma fb_ok_new [intro, simp]: "fb_ok (new_body n)"
  by (simp add: fb_ok_def new_body_def)

lemma fb_ok_reset [intro, simp]: "fb_ok (fb_reset fb)"
  by (simp add: fb_ok_def fb_reset_def)

lemma fb_ok_start [intro, simp]: "fb_ok (fb_start op fb)"
  by (simp add: fb_ok_def fb_start_def)

text \<open>Without wrap-around the test means what it says.\<close>

lemma would_exceed_iff:
  assumes "length (msg fb) + length bs < 2 ^ 64"
  shows "would_exceed (of_nat (length bs)) fb \<longleftrightarrow>
    max_size fb \<noteq> 0 \<and> unat (max_size fb) < length (msg fb) + length bs"
proof -
  have "unat ((of_nat (length (msg fb)) :: u64) + of_nat (length bs)) = length (msg fb) + length bs"
    using assms by (simp add: unat_of_nat flip: of_nat_add)
  then show ?thesis by (simp add: would_exceed_def word_less_nat_alt)
qed

lemma fb_append_ok:
  assumes "fb_ok fb" "length (msg fb) + length bs < 2 ^ 64"
  shows "fb_ok (snd (fb_append bs fb))"
  using assms would_exceed_iff [OF assms(2)] by (auto simp: fb_append_def fb_ok_def)

lemma fb_append_True:
  "fb_append bs fb = (True, fb') \<Longrightarrow> fb' = fb\<lparr>msg := msg fb @ bs\<rparr>"
  by (auto simp: fb_append_def split: if_splits)

section \<open>Close payload\<close>

definition build_close_payload :: "u16 \<Rightarrow> bytes \<Rightarrow> bytes" where
  "build_close_payload code reason =
     (let out = [ucast (drop_bit 8 code AND 0xFF), ucast (code AND 0xFF)];
          room = 125 - 2
      in if reason \<noteq> [] then out @ take (min room (length reason)) reason else out)"

lemma build_close_payload_eq:
  "build_close_payload code reason =
     [ucast (drop_bit 8 code AND 0xFF), ucast (code AND 0xFF)] @ take 123 reason"
  by (auto simp: build_close_payload_def Let_def min_def)

lemma length_build_close_payload: "length (build_close_payload code reason) = 2 + min 123 (length reason)"
  by (simp add: build_close_payload_eq)

end
