(* ===== verification/Ws_Reader.thy ===== *)
theory Ws_Reader
  imports Ws_Frame
begin

text \<open>
  The frame reader of \<^verbatim>\<open>WebSocket::do_read_loop\<close> (\<^verbatim>\<open>include/websocket/WebSocket.h\<close>): from the
  first two header bytes to the unmasked payload.  The socket is a parameter: \<open>rd n s\<close> is
  \<^verbatim>\<open>asio::async_read\<close> of an \<open>n\<close> byte buffer, which either fails or returns the bytes and the
  socket after it.  What the code relies on is the locale \<open>byte_stream\<close>: a socket stands for the
  bytes still to come, and a read takes exactly as many as it asked for.  The lemmas show that the
  reader inverts \<^const>\<open>write_frame\<close> and that it only depends on those bytes.
\<close>

datatype net_error = NetEof | AllocError

type_synonym 's socket_read = "nat \<Rightarrow> 's \<Rightarrow> net_error + (bytes \<times> 's)"

section \<open>Sockets as byte streams\<close>

locale byte_stream =
  fixes rd :: "'s socket_read" and view :: "'s \<Rightarrow> bytes"
  assumes rd_enough: "n \<le> length (view s) \<Longrightarrow>
      \<exists>s'. rd n s = Inr (take n (view s), s') \<and> view s' = drop n (view s)"
    and rd_short: "length (view s) < n \<Longrightarrow> rd n s = Inl NetEof"

text \<open>The canonical byte stream: a list.\<close>

definition list_read :: "bytes socket_read" where
  "list_read n s = (if n \<le> length s then Inr (take n s, drop n s) else Inl NetEof)"

text \<open>
  A socket whose bytes arrive in segments: a read takes segments until it has enough, which is
  the composed operation \<^verbatim>\<open>asio::async_read\<close> over single receives.
\<close>

fun seg_read :: "bytes list socket_read" where
  "seg_read n [] = (if n = 0 then Inr ([], []) else Inl NetEof)"
| "seg_read n (c # cs) =
     (if n \<le> length c then Inr (take n c, drop n c # cs)
      else case seg_read (n - length c) cs of
             Inl e \<Rightarrow> Inl e
           | Inr (bs, cs') \<Rightarrow> Inr (c @ bs, cs'))"

lemma list_read_append [simp]: "n = length xs \<Longrightarrow> list_read n (xs @ ys) = Inr (xs, ys)"
  by (simp add: list_read_def)

interpretation list_stream: byte_stream list_read id
  by unfold_locales (auto simp: list_read_def)

lemma seg_read_enough:
  "n \<le> length (concat cs) \<Longrightarrow>
   \<exists>cs'. seg_read n cs = Inr (take n (concat cs), cs') \<and> concat cs' = drop n (concat cs)"
proof (induction cs arbitrary: n)
  case Nil
  then show ?case by simp
next
  case (Cons c cs)
  show ?case
  proof (cases "n \<le> length c")
    case False
    with Cons.prems have "n - length c \<le> length (concat cs)" by simp
    then obtain cs' where "seg_read (n - length c) cs = Inr (take (n - length c) (concat cs), cs')"
      "concat cs' = drop (n - length c) (concat cs)"
      using Cons.IH by blast
    with False show ?thesis by auto
  qed simp
qed

lemma seg_read_short: "length (concat cs) < n \<Longrightarrow> seg_read n cs = Inl NetEof"
  by (induction cs arbitrary: n) auto

interpretation seg_stream: byte_stream seg_read concat
  using seg_read_enough seg_read_short by unfold_locales blast+

section \<open>The frame header\<close>

text \<open>Writing a received block into the 14 byte header array.\<close>

definition buf_write :: "nat \<Rightarrow> bytes \<Rightarrow> bytes \<Rightarrow> bytes" where
  "buf_write off bs buf = take off buf @ bs @ drop (off + length bs) buf"

lemma length_buf_write [simp]:
  "off + length bs \<le> length buf \<Longrightarrow> length (buf_write off bs buf) = length buf"
  by (simp add: buf_write_def)

definition ext_len_bytes :: "u64 \<Rightarrow> nat" where
  "ext_len_bytes len7 = (if len7 = 126 then 2 else if len7 = 127 then 8 else 0)"

text \<open>The extended length after the first two bytes, and the position \<open>p\<close> behind it.\<close>

definition decode_length :: "u64 \<Rightarrow> bytes \<Rightarrow> u64 \<times> nat" where
  "decode_length len7 header =
     (let p = 2 in
      if ext_len_bytes len7 = 0 then (len7, p)
      else if ext_len_bytes len7 = 2 then
        (push_bit 8 (ucast (header ! p)) OR ucast (header ! (p + 1)), p + 2)
      else (be_read 0 (map (\<lambda>i. header ! (p + i)) [0..<8]), p + 8))"

definition decode_key :: "bytes \<Rightarrow> nat \<Rightarrow> u32" where
  "decode_key header p =
     push_bit 24 (ucast (header ! p)) OR push_bit 16 (ucast (header ! (p + 1))) OR
     push_bit 8 (ucast (header ! (p + 2))) OR ucast (header ! (p + 3))"

text \<open>The unmasking loop from index \<open>i\<close> on.\<close>

fun unmask :: "u32 \<Rightarrow> nat \<Rightarrow> bytes \<Rightarrow> bytes" where
  "unmask key i [] = []"
| "unmask key i (b # bs) =
     (b XOR ucast (drop_bit ((3 - (i AND 3)) * 8) key AND 0xFF)) # unmask key (Suc i) bs"

text \<open>
  One turn of the loop up to the call of \<^verbatim>\<open>handle_parsed_frame\<close>, in three parts: the first two
  bytes, the rest of the header, the payload.  \<open>alloc_max\<close> is the longest \<^verbatim>\<open>std::string\<close> the
  platform can allocate; \<^verbatim>\<open>resize\<close> beyond it throws.  The header array persists from one turn
  to the next.
\<close>

definition total_header_bytes :: "byte \<Rightarrow> nat" where
  "total_header_bytes b1 =
     2 + ext_len_bytes (ucast (b1 AND 0x7F)) + (if b1 AND 0x80 \<noteq> 0 then 4 else 0)"

definition ws_read_extension ::
    "'s socket_read \<Rightarrow> byte \<Rightarrow> bytes \<Rightarrow> 's \<Rightarrow> net_error + (bytes \<times> 's)" where
  "ws_read_extension rd b1 header s =
     (if total_header_bytes b1 > 2
      then (case rd (total_header_bytes b1 - 2) s of
              Inl e \<Rightarrow> Inl e
            | Inr (x, s) \<Rightarrow> Inr (buf_write 2 x header, s))
      else Inr (header, s))"

definition ws_read_payload ::
    "'s socket_read \<Rightarrow> nat \<Rightarrow> byte \<Rightarrow> byte \<Rightarrow> bytes \<Rightarrow> 's \<Rightarrow> net_error + (ws_frame \<times> 's)" where
  "ws_read_payload rd alloc_max b0 b1 header s =
     (let masked = (b1 AND 0x80 \<noteq> 0);
          (payload_len, p) = decode_length (ucast (b1 AND 0x7F)) header;
          mask_key = (if masked then decode_key header p else 0)
      in if alloc_max < unat payload_len then Inl AllocError
         else case (if payload_len > 0 then rd (unat payload_len) s else Inr ([], s)) of
                Inl e \<Rightarrow> Inl e
              | Inr (data, s) \<Rightarrow>
                Inr (\<lparr>fin = (b0 AND 0x80 \<noteq> 0), rsv1 = False, rsv2 = False, rsv3 = False,
                      opcode = b0 AND 0x0F, mask_bit = masked, masking_key = mask_key,
                      payload_length = payload_len,
                      payload_data = (if masked \<and> payload_len > 0
                                      then unmask mask_key 0 data else data)\<rparr>, s))"

definition ws_read_frame ::
    "'s socket_read \<Rightarrow> nat \<Rightarrow> bytes \<Rightarrow> 's \<Rightarrow> net_error + (ws_frame \<times> bytes \<times> 's)" where
  "ws_read_frame rd alloc_max header s =
     (case rd 2 s of
        Inl e \<Rightarrow> Inl e
      | Inr (x, s) \<Rightarrow>
        (let header = buf_write 0 x header; b0 = header ! 0; b1 = header ! 1
         in case ws_read_extension rd b1 header s of
              Inl e \<Rightarrow> Inl e
            | Inr (header, s) \<Rightarrow>
              (case ws_read_payload rd alloc_max b0 b1 header s of
                 Inl e \<Rightarrow> Inl e
               | Inr (f, s) \<Rightarrow> Inr (f, header, s))))"

lemma nat_and_3: "(i :: nat) AND 3 = i mod 4"
proof -
  have "(3::nat) = mask 2" by (simp add: mask_eq_exp_minus_1)
  then have "i AND 3 = take_bit 2 i" by (simp only: take_bit_eq_mask)
  then show ?thesis by (simp add: take_bit_eq_mod)
qed

lemma unmask_eq [net_simps]: "unmask key i bs = xor_mask key i bs"
  by (induction bs arbitrary: i) (simp_all add: nat_and_3 mask_byte_def)

section \<open>Reading back what was written\<close>

lemma and_0x80_iff: "(w :: byte) AND 0x80 = 0 \<longleftrightarrow> \<not> bit w 7"
  using and_exp_eq_0_iff_not_bit [of w 7] by simp

lemma and_0x0F: "(w :: byte) AND 0x0F = take_bit 4 w"
  by (simp add: take_bit_eq_mask mask_numeral)

lemma and_0x7F: "(w :: byte) AND 0x7F = take_bit 7 w"
  by (simp add: take_bit_eq_mask mask_numeral)

lemma byte0_fields:
  assumes w_def: "(w :: byte) = push_bit 7 (of_bool a) OR push_bit 6 (of_bool b) OR
    push_bit 5 (of_bool c) OR push_bit 4 (of_bool d) OR (x AND 0x0F)"
  shows "w AND 0x80 = 0 \<longleftrightarrow> \<not> a" and "w AND 0x0F = x AND 0x0F"
proof -
  show "w AND 0x80 = 0 \<longleftrightarrow> \<not> a"
    unfolding w_def and_0x80_iff and_0x0F by (auto simp: bit_simps)
  show "w AND 0x0F = x AND 0x0F"
    unfolding w_def and_0x0F by (rule bit_word_eqI) (auto simp: bit_simps)
qed

lemma byte1_fields:
  assumes w_def: "(w :: byte) = push_bit 7 (of_bool m) OR y" and "take_bit 7 y = y"
  shows "w AND 0x80 = 0 \<longleftrightarrow> \<not> m" and "w AND 0x7F = y"
proof -
  have y7: "bit y n \<Longrightarrow> n < 7" for n
    using assms(2) by (metis bit_take_bit_iff)
  show "w AND 0x80 = 0 \<longleftrightarrow> \<not> m"
    unfolding w_def and_0x80_iff using y7 [of 7] by (auto simp: bit_simps)
  show "w AND 0x7F = y"
    unfolding w_def and_0x7F using y7 by (intro bit_word_eqI) (auto simp: bit_simps)
qed

lemma small_length_byte:
  assumes "(n :: u64) \<le> 125"
  shows "take_bit 7 (ucast n :: byte) = ucast n" "(ucast (ucast n :: byte) :: u64) = n"
    "ext_len_bytes n = 0"
proof -
  have n: "unat n \<le> 125" using assms by (simp add: word_le_nat_alt)
  then have b: "bit n i \<Longrightarrow> i < 7" for i
    by (intro bit_small [of n 7]) auto
  show "take_bit 7 (ucast n :: byte) = ucast n"
    by (rule bit_word_eqI) (auto simp: bit_simps dest: b)
  show "(ucast (ucast n :: byte) :: u64) = n"
    by (rule bit_word_eqI) (auto simp: bit_simps dest: b bit_imp_le_length)
  show "ext_len_bytes n = 0"
    using n by (auto simp: ext_len_bytes_def)
qed

lemma decode_length_written:
  assumes "n < 2 ^ 64" "hdr = b0 # length_bytes (push_bit 7 (of_bool m)) (of_nat n) @ r"
  defines "len7 \<equiv> ucast ((hdr ! 1) AND 0x7F) :: u64"
  shows "hdr ! 1 AND 0x80 = 0 \<longleftrightarrow> \<not> m"
    and "ext_len_bytes len7 = length (length_bytes (push_bit 7 (of_bool m)) (of_nat n :: u64)) - 1"
    and "decode_length len7 hdr = (of_nat n, 1 + length (length_bytes (push_bit 7 (of_bool m)) (of_nat n :: u64)))"
proof -
  let ?n = "of_nat n :: u64"
  consider "?n \<le> 125" | "\<not> ?n \<le> 125" "?n \<le> 0xFFFF" | "\<not> ?n \<le> 125" "\<not> ?n \<le> 0xFFFF"
    by blast
  then have "(hdr ! 1 AND 0x80 = 0 \<longleftrightarrow> \<not> m) \<and>
    ext_len_bytes len7 = length (length_bytes (push_bit 7 (of_bool m)) ?n) - 1 \<and>
    decode_length len7 hdr = (?n, 1 + length (length_bytes (push_bit 7 (of_bool m)) ?n))"
  proof cases
    case 1
    then show ?thesis
      using small_length_byte [OF 1] byte1_fields [OF refl small_length_byte(1) [OF 1], of m]
      by (simp add: assms(2) len7_def length_bytes_def decode_length_def)
  next
    case 2
    have b1: "hdr ! 1 = push_bit 7 (of_bool m) OR 126"
      using 2 by (simp add: assms(2) length_bytes_def)
    have "take_bit 7 (126 :: byte) = 126" by simp
    note f = byte1_fields [OF b1 this]
    have "(push_bit 8 (ucast (ucast (drop_bit 8 ?n AND 0xFF) :: byte)) OR ucast (ucast (?n AND 0xFF) :: byte)) = ?n"
    proof -
      have "be_read 0 (map (\<lambda>i. byte_at i ?n) (rev [0..<2])) = ?n"
        unfolding be_read_prefix using 2(2) by (simp add: take_bit_small word_le_nat_alt)
      then show ?thesis by (simp add: be_read_def byte_at_def upt_rec)
    qed
    then show ?thesis
      using f 2 by (simp add: assms(2) len7_def length_bytes_def decode_length_def ext_len_bytes_def)
  next
    case 3
    have b1: "hdr ! 1 = push_bit 7 (of_bool m) OR 127"
      using 3 by (simp add: assms(2) length_bytes_def)
    have "take_bit 7 (127 :: byte) = 127" by simp
    note f = byte1_fields [OF b1 this]
    have l: "map (\<lambda>i. hdr ! (2 + i)) [0..<8] = map (\<lambda>i. byte_at i ?n) (rev [0..<8])"
      using 3 by (simp add: assms(2) length_bytes_def byte_at_def upt_rec)
    have "decode_length len7 hdr = (?n, 10)"
      using f l be_read_bytes_8 [of ?n]
      by (simp add: len7_def decode_length_def ext_len_bytes_def)
    then show ?thesis
      using f 3 by (simp add: len7_def length_length_bytes ext_len_bytes_def)
  qed
  then show "hdr ! 1 AND 0x80 = 0 \<longleftrightarrow> \<not> m"
    and "ext_len_bytes len7 = length (length_bytes (push_bit 7 (of_bool m)) ?n) - 1"
    and "decode_length len7 hdr = (?n, 1 + length (length_bytes (push_bit 7 (of_bool m)) ?n))"
    by simp_all
qed

lemma decode_key_written:
  assumes "length a = p"
  shows "decode_key (a @ key_bytes key @ r) p = key"
proof -
  have "decode_key (a @ key_bytes key @ r) p =
      push_bit 24 (ucast (ucast (drop_bit 24 key AND 0xFF) :: byte)) OR
      push_bit 16 (ucast (ucast (drop_bit 16 key AND 0xFF) :: byte)) OR
      push_bit 8 (ucast (ucast (drop_bit 8 key AND 0xFF) :: byte)) OR
      ucast (ucast (key AND 0xFF) :: byte)"
    using assms by (simp add: decode_key_def key_bytes_def nth_append)
  also have "\<dots> = key"
  proof (rule bit_word_eqI)
    fix n
    assume "n < LENGTH(32)"
    then consider "n < 8" | "8 \<le> n" "n < 16" | "16 \<le> n" "n < 24" | "24 \<le> n" "n < 32"
      by fastforce
    then show "bit (push_bit 24 (ucast (ucast (drop_bit 24 key AND 0xFF) :: byte)) OR
      push_bit 16 (ucast (ucast (drop_bit 16 key AND 0xFF) :: byte)) OR
      push_bit 8 (ucast (ucast (drop_bit 8 key AND 0xFF) :: byte)) OR
      ucast (ucast (key AND 0xFF) :: byte) :: u32) n = bit key n"
      unfolding and_0xFF by cases (auto simp: bit_simps)
  qed
  finally show ?thesis .
qed

text \<open>
  What the reader makes of a frame: the reserved bits are not looked at, the opcode is its low
  nibble, and the length field is the length of the payload.
\<close>

definition received :: "ws_frame \<Rightarrow> ws_frame" where
  "received f = f\<lparr>rsv1 := False, rsv2 := False, rsv3 := False, opcode := opcode f AND 0x0F,
     masking_key := (if mask_bit f then masking_key f else 0),
     payload_length := of_nat (length (payload_data f))\<rparr>"

text \<open>The header of a written frame lands in the header array as it was written.\<close>

lemma header_arrives:
  assumes L: "length_bytes b1 n = l # ls"
    and t: "total_header_bytes l = 2 + length (ls @ K)"
  shows "ws_read_extension list_read l (b0 # l # drop 2 header) (ls @ K @ r) =
    Inr (b0 # length_bytes b1 n @ K @ drop (2 + length (ls @ K)) header, r)"
proof (cases "ls @ K = []")
  case True
  then show ?thesis using t by (simp add: ws_read_extension_def L numeral_2_eq_2)
next
  case False
  have "list_read (total_header_bytes l - 2) (ls @ K @ r) = Inr (ls @ K, r)"
    using list_read_append [of "total_header_bytes l - 2" "ls @ K" r] t by simp
  moreover have "total_header_bytes l > 2" using t False by (metis add_gr_0 length_greater_0_conv less_add_same_cancel1)
  moreover have "buf_write 2 (ls @ K) (b0 # l # drop 2 header) =
      b0 # length_bytes b1 n @ K @ drop (2 + length (ls @ K)) header"
    by (simp add: buf_write_def L add.commute)
  ultimately show ?thesis by (simp add: ws_read_extension_def)
qed

text \<open>The payload of a written frame, given its header.\<close>

lemma payload_arrives:
  assumes n: "length (payload_data f) < 2 ^ 64" and am: "length (payload_data f) \<le> alloc_max"
    and b0: "b0 AND 0x80 = 0 \<longleftrightarrow> \<not> fin f" "b0 AND 0x0F = opcode f AND 0x0F"
    and b1: "b1 AND 0x80 = 0 \<longleftrightarrow> \<not> mask_bit f"
    and d: "decode_length (ucast (b1 AND 0x7F)) header = (of_nat (length (payload_data f)), p)"
    and key: "mask_bit f \<Longrightarrow> decode_key header p = masking_key f"
  shows "ws_read_payload list_read alloc_max b0 b1 header
      (write_payload (mask_bit f) (masking_key f) 0 (payload_data f) @ r) = Inr (received f, r)"
proof -
  let ?n = "of_nat (length (payload_data f)) :: u64"
  let ?P = "write_payload (mask_bit f) (masking_key f) 0 (payload_data f)"
  have unat_n: "unat ?n = length (payload_data f)"
    using n by (simp add: unat_of_nat)
  have n0: "(?n > 0) = (payload_data f \<noteq> [])"
    using unat_n by (auto simp: word_less_nat_alt)
  have k: "(if mask_bit f then decode_key header p else 0) = (if mask_bit f then masking_key f else 0)"
    using key by simp
  have body: "(if ?n > 0 then list_read (unat ?n) (?P @ r) else Inr ([], ?P @ r)) = Inr (?P, r)"
    by (auto simp: unat_n n0 net_simps)
  have data: "(if mask_bit f \<and> ?n > 0 then unmask (if mask_bit f then masking_key f else 0) 0 ?P else ?P) =
      payload_data f"
    by (simp add: n0 net_simps)
  have fits: "(alloc_max < unat ?n) = False" using am by (simp add: unat_n)
  show ?thesis
    unfolding ws_read_payload_def d Let_def prod.case k b1 not_not b0 fits if_False body sum.case data
    by (cases f) (simp add: received_def)
qed

lemma ws_read_write:
  assumes h: "length header = 14" and n: "length (payload_data f) < 2 ^ 64"
    and am: "length (payload_data f) \<le> alloc_max"
  shows "\<exists>header'. length header' = 14 \<and>
    ws_read_frame list_read alloc_max header (write_frame f @ rest) = Inr (received f, header', rest)"
proof -
  let ?n = "of_nat (length (payload_data f)) :: u64"
  let ?b1 = "push_bit 7 (of_bool (mask_bit f)) :: byte"
  define K where "K = (if mask_bit f then key_bytes (masking_key f) else [])"
  define P where "P = write_payload (mask_bit f) (masking_key f) 0 (payload_data f)"
  define b0 :: byte where "b0 = push_bit 7 (of_bool (fin f)) OR push_bit 6 (of_bool (rsv1 f)) OR
    push_bit 5 (of_bool (rsv2 f)) OR push_bit 4 (of_bool (rsv3 f)) OR (opcode f AND 0x0F)"
  obtain l ls where L: "length_bytes ?b1 ?n = l # ls"
    by (cases "length_bytes ?b1 ?n") (auto simp: length_bytes_def split: if_splits)
  define H where "H = b0 # length_bytes ?b1 ?n @ K @ drop (2 + length (ls @ K)) header"
  have nth: "H ! 1 = l" by (simp add: H_def L)
  note dec = decode_length_written [OF n H_def, unfolded nth]
  have t: "total_header_bytes l = 2 + length (ls @ K)"
    using dec(1,2) by (simp add: total_header_bytes_def L K_def)
  have key: "decode_key H (1 + length (length_bytes ?b1 ?n)) = masking_key f" if "mask_bit f"
    using decode_key_written [of "b0 # length_bytes ?b1 ?n" _ "masking_key f" "drop (2 + length (ls @ K)) header"] that
    by (simp add: H_def K_def)
  have r1: "list_read 2 (write_frame f @ rest) = Inr ([b0, l], ls @ K @ P @ rest)"
    by (simp add: write_frame_def Let_def L K_def P_def b0_def list_read_def)
  have h1: "buf_write 0 [b0, l] header = b0 # l # drop 2 header"
    by (simp add: buf_write_def numeral_2_eq_2)
  have "ws_read_frame list_read alloc_max header (write_frame f @ rest) = Inr (received f, H, rest)"
    using header_arrives [OF L t, of b0 header "P @ rest", folded H_def]
      payload_arrives [OF n am byte0_fields [OF b0_def] dec(1,3) key, folded P_def]
    by (simp add: ws_read_frame_def r1 h1)
  moreover have "length H = 14"
    using h length_length_bytes [of ?b1 ?n] by (simp add: H_def L K_def split: if_splits)
  ultimately show ?thesis by blast
qed

section \<open>What a successful read consumed\<close>

lemma list_read_Inr: "list_read n s = Inr (bs, s') \<Longrightarrow> length bs = n \<and> s = bs @ s'"
  by (auto simp: list_read_def split: if_splits)

lemma total_header_bytes_le: "2 \<le> total_header_bytes b1" "total_header_bytes b1 \<le> 14"
  by (simp_all add: total_header_bytes_def ext_len_bytes_def)

lemma ws_read_extension_Inr:
  assumes "ws_read_extension list_read b1 header s = Inr (header', s')" "length header = 14"
  shows "length header' = 14" "length s' \<le> length s"
  using assms total_header_bytes_le [of b1] list_read_Inr [of "total_header_bytes b1 - 2" s]
  by (fastforce simp: ws_read_extension_def split: if_splits sum.splits)+

lemma ws_read_payload_Inr:
  assumes "ws_read_payload list_read alloc_max b0 b1 header s = Inr (f, s')"
  shows "length s' \<le> length s" "length (payload_data f) = unat (payload_length f)"
    "unat (payload_length f) \<le> alloc_max" "payload_length f = fst (decode_length (ucast (b1 AND 0x7F)) header)"
  using assms
  by (auto simp: ws_read_payload_def Let_def net_simps word_gt_0 dest!: list_read_Inr
      split: prod.splits if_splits sum.splits)

lemma ws_read_frame_Inr:
  assumes "ws_read_frame list_read alloc_max header s = Inr (f, header', s')" and "length header = 14"
  shows "length header' = 14" "length s' + 2 \<le> length s"
    "length (payload_data f) = unat (payload_length f)" "unat (payload_length f) \<le> alloc_max"
proof -
  obtain x s1 s2 b0 b1 where r: "list_read 2 s = Inr (x, s1)"
    and e: "ws_read_extension list_read b1 (buf_write 0 x header) s1 = Inr (header', s2)"
    and p: "ws_read_payload list_read alloc_max b0 b1 header' s2 = Inr (f, s')"
    using assms(1) by (auto simp: ws_read_frame_def Let_def split: sum.splits)
  have x: "length x = 2" "length s = 2 + length s1" using list_read_Inr [OF r] by auto
  then have "length (buf_write 0 x header) = 14" using assms(2) by simp
  note e = ws_read_extension_Inr [OF e this] and p = ws_read_payload_Inr [OF p]
  show "length header' = 14" "length s' + 2 \<le> length s"
    "length (payload_data f) = unat (payload_length f)" "unat (payload_length f) \<le> alloc_max"
    using e p x by auto
qed

section \<open>The reader depends on the bytes only\<close>

context byte_stream
begin

lemma rd_cases:
  obtains (eof) "rd n s = Inl NetEof" "list_read n (view s) = Inl NetEof"
  | (ok) bs s' where "rd n s = Inr (bs, s')" "list_read n (view s) = Inr (bs, view s')"
  using rd_enough [of n s] rd_short [of s n]
  by (cases "n \<le> length (view s)") (auto simp: list_read_def)

lemma ws_read_extension_sim:
  "ws_read_extension list_read b1 header (view s) =
   map_sum id (map_prod id view) (ws_read_extension rd b1 header s)"
  by (rule rd_cases [of "total_header_bytes b1 - 2" s]) (simp_all add: ws_read_extension_def)

lemma ws_read_payload_sim:
  "ws_read_payload list_read alloc_max b0 b1 header (view s) =
   map_sum id (map_prod id view) (ws_read_payload rd alloc_max b0 b1 header s)"
proof -
  obtain n p where d: "decode_length (ucast (b1 AND 0x7F)) header = (n, p)"
    by fastforce
  show ?thesis
    unfolding ws_read_payload_def d Let_def prod.case
    by (rule rd_cases [of "unat n" s]) simp_all
qed

text \<open>Reading from the socket is reading from the bytes it stands for.\<close>

lemma ws_read_frame_sim:
  "ws_read_frame list_read alloc_max header (view s) =
   map_sum id (map_prod id (map_prod id view)) (ws_read_frame rd alloc_max header s)"
proof (cases rule: rd_cases [of 2 s, case_names eof ok])
  case eof
  then show ?thesis by (simp add: ws_read_frame_def)
next
  case (ok bs s')
  then show ?thesis
    by (simp add: ws_read_frame_def Let_def ws_read_extension_sim ws_read_payload_sim map_sum_def
        split: sum.splits prod.splits)
qed

lemma ws_read_write_stream:
  assumes "view s = write_frame f @ rest" "length header = 14"
    "length (payload_data f) < 2 ^ 64" "length (payload_data f) \<le> alloc_max"
  shows "\<exists>header' s'. ws_read_frame rd alloc_max header s = Inr (received f, header', s') \<and>
    length header' = 14 \<and> view s' = rest"
  using ws_read_write [OF assms(2-4), of rest] ws_read_frame_sim [of alloc_max header s] assms(1)
  by (cases "ws_read_frame rd alloc_max header s") auto

end

end
