(* ===== verification/Ws_Conn.thy ===== *)
theory Ws_Conn
  imports Ws_Reader
begin

text \<open>
  One server-side WebSocket connection: the class \<^verbatim>\<open>WebSocket\<close> of
  \<^verbatim>\<open>include/websocket/WebSocket.h\<close>.  Its data members are the record \<open>websocket\<close>; the sends, the
  write queue, \<open>close\<close>, the frame handler and the read loop are functions on it.  Effects on the
  outside are part of the state: completed writes go to \<open>wire\<close>, callbacks and the release of the
  connection to \<open>events\<close>, coroutines spawned on the write strand to \<open>strand\<close>.

  Handlers are functions from their arguments to the asynchronous calls they make on their own
  connection; an empty \<^verbatim>\<open>std::function\<close> is \<^const>\<open>None\<close>.  A coroutine of the code that throws
  is the outcome \<open>Threw\<close>.
\<close>

section \<open>State\<close>

definition WS_OPEN :: byte where "WS_OPEN = 0x0"
definition WS_CLOSED :: byte where "WS_CLOSED = 0x1"

lemma ws_states_distinct [simp]: "WS_OPEN \<noteq> WS_CLOSED" "WS_CLOSED \<noteq> WS_OPEN"
  by (simp_all add: WS_OPEN_def WS_CLOSED_def)

datatype ws_call =
    SendTextAsync bytes
  | SendBinaryAsync bytes
  | CloseAsync u16 bytes

record ws_handlers =
  on_open :: "ws_call list option"
  on_message :: "(bytes \<Rightarrow> ws_call list) option"
  on_close :: "(u16 \<Rightarrow> bytes \<Rightarrow> ws_call list) option"

datatype strand_task =
    TaskText bytes
  | TaskBinary bytes
  | TaskClose u16 bytes

datatype ws_event =
    EvOpen
  | EvMessage bytes
  | EvClose u16 bytes
  | EvCleanup u64

text \<open>
  \<open>sock_ok\<close> says that the socket still accepts writes: \<open>close\<close> ends that, and so does a peer
  that goes away.
\<close>

record websocket =
  ws_state :: byte
  ws_id :: u64
  handlers :: ws_handlers
  server_cleanup :: bool
  write_queue :: "bytes list"
  is_writing :: bool
  strand :: "strand_task list"
  sock_ok :: bool
  wire :: bytes
  events :: "ws_event list"

definition no_handlers :: ws_handlers where
  "no_handlers = \<lparr>on_open = None, on_message = None, on_close = None\<rparr>"

text \<open>The constructor; handlers are copied when there are any.\<close>

definition new_websocket :: "ws_handlers option \<Rightarrow> u64 \<Rightarrow> websocket" where
  "new_websocket hs client_id =
     \<lparr>ws_state = WS_OPEN, ws_id = client_id,
      handlers = (case hs of Some h \<Rightarrow> h | None \<Rightarrow> no_handlers),
      server_cleanup = False, write_queue = [], is_writing = False, strand = [],
      sock_ok = True, wire = [], events = []\<rparr>"

definition set_server_cleanup :: "websocket \<Rightarrow> websocket" where
  "set_server_cleanup w = w\<lparr>server_cleanup := True\<rparr>"

definition is_open :: "websocket \<Rightarrow> bool" where
  "is_open w = (ws_state w = WS_OPEN)"

section \<open>Asynchronous calls and callbacks\<close>

definition send_text_async :: "bytes \<Rightarrow> websocket \<Rightarrow> websocket" where
  "send_text_async payload w =
     (if ws_state w \<noteq> WS_OPEN then w else w\<lparr>strand := strand w @ [TaskText payload]\<rparr>)"

definition send_binary_async :: "bytes \<Rightarrow> websocket \<Rightarrow> websocket" where
  "send_binary_async payload w =
     (if ws_state w \<noteq> WS_OPEN then w else w\<lparr>strand := strand w @ [TaskBinary payload]\<rparr>)"

definition close_async :: "u16 \<Rightarrow> bytes \<Rightarrow> websocket \<Rightarrow> websocket" where
  "close_async code reason w = w\<lparr>strand := strand w @ [TaskClose code reason]\<rparr>"

fun run_call :: "ws_call \<Rightarrow> websocket \<Rightarrow> websocket" where
  "run_call (SendTextAsync p) w = send_text_async p w"
| "run_call (SendBinaryAsync p) w = send_binary_async p w"
| "run_call (CloseAsync c r) w = close_async c r w"

definition run_calls :: "ws_call list \<Rightarrow> websocket \<Rightarrow> websocket" where
  "run_calls cs w = fold run_call cs w"

definition log_event :: "ws_event \<Rightarrow> websocket \<Rightarrow> websocket" where
  "log_event e w = w\<lparr>events := events w @ [e]\<rparr>"

definition fire_open :: "websocket \<Rightarrow> websocket" where
  "fire_open w = (case on_open (handlers w) of
      None \<Rightarrow> w | Some cs \<Rightarrow> run_calls cs (log_event EvOpen w))"

definition fire_message :: "bytes \<Rightarrow> websocket \<Rightarrow> websocket" where
  "fire_message m w = (case on_message (handlers w) of
      None \<Rightarrow> w | Some h \<Rightarrow> run_calls (h m) (log_event (EvMessage m) w))"

definition fire_close :: "u16 \<Rightarrow> bytes \<Rightarrow> websocket \<Rightarrow> websocket" where
  "fire_close code reason w = (case on_close (handlers w) of
      None \<Rightarrow> w | Some h \<Rightarrow> run_calls (h code reason) (log_event (EvClose code reason) w))"

section \<open>Writing\<close>

datatype outcome = Done | Threw

type_synonym ws_result = "outcome \<times> websocket"

definition and_then :: "ws_result \<Rightarrow> (websocket \<Rightarrow> ws_result) \<Rightarrow> ws_result" where
  "and_then r f = (case r of (Done, w) \<Rightarrow> f w | (Threw, w) \<Rightarrow> (Threw, w))"

text \<open>
  The loop of \<^verbatim>\<open>do_write\<close>, run without interruption: every write completes, so the queue drains
  into the wire.
\<close>

fun write_loop :: "bytes list \<Rightarrow> bytes \<Rightarrow> bytes" where
  "write_loop [] out = out"
| "write_loop (m # q) out = write_loop q (out @ m)"

text \<open>
  \<^verbatim>\<open>do_write\<close>: queue the frame; when a writer is already at work it will be sent by that one,
  otherwise write until the queue is empty.  A write on a dead socket throws before the frame is
  popped and before \<^verbatim>\<open>is_writing_\<close> is reset.
\<close>

definition do_write :: "bytes \<Rightarrow> websocket \<Rightarrow> ws_result" where
  "do_write bs w =
     (let w = w\<lparr>write_queue := write_queue w @ [bs]\<rparr>
      in if is_writing w then (Done, w)
         else let w = w\<lparr>is_writing := True\<rparr>
              in if \<not> sock_ok w then (Threw, w)
                 else (Done, w\<lparr>wire := write_loop (write_queue w) (wire w),
                               write_queue := [], is_writing := False\<rparr>))"

definition data_frame :: "byte \<Rightarrow> bytes \<Rightarrow> ws_frame" where
  "data_frame op payload = empty_frame\<lparr>fin := True, opcode := op, mask_bit := False,
     payload_data := payload, payload_length := of_nat (length payload)\<rparr>"

definition send_text :: "bytes \<Rightarrow> websocket \<Rightarrow> ws_result" where
  "send_text payload w =
     (if ws_state w \<noteq> WS_OPEN then (Done, w)
      else do_write (write_frame (data_frame WS_TEXT payload)) w)"

definition send_binary :: "bytes \<Rightarrow> websocket \<Rightarrow> ws_result" where
  "send_binary payload w =
     (if ws_state w \<noteq> WS_OPEN then (Done, w)
      else do_write (write_frame (data_frame WS_BINARY payload)) w)"

definition send_pong :: "bytes \<Rightarrow> websocket \<Rightarrow> ws_result" where
  "send_pong payload w = do_write (write_frame (data_frame WS_PONG payload)) w"

definition send_close_with_reason :: "u16 \<Rightarrow> bytes \<Rightarrow> websocket \<Rightarrow> ws_result" where
  "send_close_with_reason code reason w =
     do_write (write_frame (data_frame WS_CLOSE (build_close_payload code reason))) w"

section \<open>Closing\<close>

text \<open>
  \<^verbatim>\<open>close\<close>: the compare-and-exchange lets one caller through, which shuts the socket, runs the
  close handler and releases the connection on the server.
\<close>

definition close :: "u16 \<Rightarrow> bytes \<Rightarrow> websocket \<Rightarrow> websocket" where
  "close code reason w =
     (if ws_state w \<noteq> WS_OPEN then w
      else let w = w\<lparr>ws_state := WS_CLOSED, sock_ok := False\<rparr>;
               w = fire_close code reason w
           in if server_cleanup w then log_event (EvCleanup (ws_id w)) w else w)"

text \<open>The coroutines on the write strand.\<close>

fun run_task :: "strand_task \<Rightarrow> websocket \<Rightarrow> ws_result" where
  "run_task (TaskText p) w = send_text p w"
| "run_task (TaskBinary p) w = send_binary p w"
| "run_task (TaskClose c r) w =
     and_then (send_close_with_reason c r w) (\<lambda>w. (Done, close c r w))"

section \<open>Handling a frame\<close>

definition handle_ping_frame :: "bytes \<Rightarrow> websocket \<Rightarrow> ws_result" where
  "handle_ping_frame payload w = send_pong payload w"

text \<open>The status code and the reason in a close payload.\<close>

definition close_payload_fields :: "bytes \<Rightarrow> u16 \<times> bytes" where
  "close_payload_fields payload =
     (if 2 \<le> length payload
      then (push_bit 8 (ucast (payload ! 0)) OR ucast (payload ! 1), drop 2 payload)
      else (1000, []))"

definition handle_close_frame :: "bytes \<Rightarrow> websocket \<Rightarrow> ws_result" where
  "handle_close_frame payload w =
     (let (code, reason) = close_payload_fields payload
      in and_then (send_close_with_reason code reason w) (\<lambda>w. (Done, close code reason w)))"

text \<open>
  The reaction to a violation of the protocol: a close frame with code 1002 and the close handler.
  The connection itself stays open.
\<close>

definition protocol_error :: "bytes \<Rightarrow> websocket \<Rightarrow> ws_result" where
  "protocol_error reason w =
     and_then (send_close_with_reason 1002 reason w) (\<lambda>w. (Done, fire_close 1002 reason w))"

definition too_big :: "frame_body \<Rightarrow> websocket \<Rightarrow> outcome \<times> frame_body \<times> websocket" where
  "too_big fb w =
     (case send_close_with_reason 1009 (str_bytes ''Message too big'') w of
        (Threw, w) \<Rightarrow> (Threw, fb, w)
      | (Done, w) \<Rightarrow> (Done, fb_reset fb, fire_close 1009 (str_bytes ''Message too big'') w))"

text \<open>Appending a data frame to the message, and delivering the message when it is complete.\<close>

definition append_and_deliver ::
    "ws_frame \<Rightarrow> frame_body \<Rightarrow> websocket \<Rightarrow> outcome \<times> frame_body \<times> websocket" where
  "append_and_deliver f fb w =
     (case fb_append (payload_data f) fb of
        (False, fb) \<Rightarrow> too_big fb w
      | (True, fb) \<Rightarrow>
          if fin f then (Done, fb_reset fb, fire_message (msg fb) w) else (Done, fb, w))"

definition with_body :: "frame_body \<Rightarrow> ws_result \<Rightarrow> outcome \<times> frame_body \<times> websocket" where
  "with_body fb r = (fst r, fb, snd r)"

definition handle_parsed_frame ::
    "ws_frame \<Rightarrow> frame_body \<Rightarrow> websocket \<Rightarrow> outcome \<times> frame_body \<times> websocket" where
  "handle_parsed_frame f fb w =
     (if opcode f = WS_PING then
        (if \<not> fin f then with_body fb (protocol_error (str_bytes ''Fragmented control'') w)
         else with_body fb (handle_ping_frame (payload_data f) w))
      else if opcode f = WS_PONG then
        (if \<not> fin f then with_body fb (protocol_error (str_bytes ''Fragmented control'') w)
         else (Done, fb, w))
      else if opcode f = WS_CLOSE then
        (if \<not> fin f then with_body fb (protocol_error (str_bytes ''Fragmented control'') w)
         else with_body fb (handle_close_frame (payload_data f) w))
      else if opcode f = WS_TEXT \<or> opcode f = WS_BINARY then
        (if assembling fb then
           with_body fb (protocol_error (str_bytes ''New data while assembling'') w)
         else append_and_deliver f (fb_start (opcode f) fb) w)
      else if opcode f = WS_CONT then
        (if \<not> assembling fb then
           (case protocol_error (str_bytes ''Continuation without initial frame'') w of
              (Threw, w) \<Rightarrow> (Threw, fb, w)
            | (Done, w) \<Rightarrow> append_and_deliver f fb w)
         else append_and_deliver f fb w)
      else (Done, fb, w))"

section \<open>The read loop\<close>

datatype loop_end = LoopClosed | LoopError net_error | LoopThrew

definition maxMsgSize :: u64 where
  "maxMsgSize = 10 * 1024 * 1024"

text \<open>
  \<^verbatim>\<open>do_read_loop\<close> with at most \<open>fuel\<close> tests of the loop condition; \<^const>\<open>None\<close> is running out.
  The result is how the loop ended, the message buffer, the socket and the connection.
\<close>

fun read_loop :: "'s socket_read \<Rightarrow> nat \<Rightarrow> nat \<Rightarrow> bytes \<Rightarrow> frame_body \<Rightarrow> 's \<Rightarrow> websocket \<Rightarrow>
    (loop_end \<times> frame_body \<times> 's \<times> websocket) option" where
  "read_loop rd alloc_max 0 header fb s w = None"
| "read_loop rd alloc_max (Suc fuel) header fb s w =
     (if ws_state w \<noteq> WS_OPEN then Some (LoopClosed, fb, s, w)
      else case ws_read_frame rd alloc_max header s of
        Inl e \<Rightarrow> Some (LoopError e, fb, s, w)
      | Inr (f, header, s) \<Rightarrow>
          (case handle_parsed_frame f fb w of
             (Threw, fb, w) \<Rightarrow> Some (LoopThrew, fb, s, w)
           | (Done, fb, w) \<Rightarrow> read_loop rd alloc_max fuel header fb s w))"

declare read_loop.simps [simp del]

lemma read_loop_0 [simp]: "read_loop rd alloc_max 0 header fb s w = None"
  by (simp add: read_loop.simps)

definition do_read_loop :: "'s socket_read \<Rightarrow> nat \<Rightarrow> nat \<Rightarrow> 's \<Rightarrow> websocket \<Rightarrow>
    (loop_end \<times> frame_body \<times> 's \<times> websocket) option" where
  "do_read_loop rd alloc_max fuel s w =
     read_loop rd alloc_max fuel (replicate 14 0) (new_body maxMsgSize) s w"

definition ws_start :: "'s socket_read \<Rightarrow> nat \<Rightarrow> nat \<Rightarrow> 's \<Rightarrow> websocket \<Rightarrow>
    (loop_end \<times> frame_body \<times> 's \<times> websocket) option" where
  "ws_start rd alloc_max fuel s w = do_read_loop rd alloc_max fuel s (fire_open w)"

section \<open>What callbacks and writes change\<close>

text \<open>The tasks a call leaves on the strand; sends on a closed connection leave none.\<close>

fun call_tasks :: "bool \<Rightarrow> ws_call \<Rightarrow> strand_task list" where
  "call_tasks opn (SendTextAsync p) = (if opn then [TaskText p] else [])"
| "call_tasks opn (SendBinaryAsync p) = (if opn then [TaskBinary p] else [])"
| "call_tasks opn (CloseAsync c r) = [TaskClose c r]"

lemma run_call_eq: "run_call c w = w\<lparr>strand := strand w @ call_tasks (is_open w) c\<rparr>"
  by (cases c) (simp_all add: send_text_async_def send_binary_async_def close_async_def is_open_def)

lemma run_calls_eq:
  "run_calls cs w = w\<lparr>strand := strand w @ concat (map (call_tasks (is_open w)) cs)\<rparr>"
  unfolding run_calls_def
  by (induction cs arbitrary: w) (simp_all add: run_call_eq is_open_def)

definition open_tasks :: "websocket \<Rightarrow> strand_task list" where
  "open_tasks w = (case on_open (handlers w) of None \<Rightarrow> []
     | Some cs \<Rightarrow> concat (map (call_tasks (is_open w)) cs))"

definition message_tasks :: "ws_handlers \<Rightarrow> bool \<Rightarrow> bytes \<Rightarrow> strand_task list" where
  "message_tasks hs opn m = (case on_message hs of None \<Rightarrow> []
     | Some h \<Rightarrow> concat (map (call_tasks opn) (h m)))"

definition close_tasks :: "ws_handlers \<Rightarrow> bool \<Rightarrow> u16 \<Rightarrow> bytes \<Rightarrow> strand_task list" where
  "close_tasks hs opn c r = (case on_close hs of None \<Rightarrow> []
     | Some h \<Rightarrow> concat (map (call_tasks opn) (h c r)))"

definition message_events :: "ws_handlers \<Rightarrow> bytes \<Rightarrow> ws_event list" where
  "message_events hs m = (if on_message hs = None then [] else [EvMessage m])"

definition close_events :: "ws_handlers \<Rightarrow> u16 \<Rightarrow> bytes \<Rightarrow> ws_event list" where
  "close_events hs c r = (if on_close hs = None then [] else [EvClose c r])"

lemma fire_message_eq:
  "fire_message m w = w\<lparr>events := events w @ message_events (handlers w) m,
     strand := strand w @ message_tasks (handlers w) (is_open w) m\<rparr>"
  by (cases "on_message (handlers w)")
    (simp_all add: fire_message_def message_events_def message_tasks_def run_calls_eq log_event_def is_open_def)

lemma fire_close_eq:
  "fire_close c r w = w\<lparr>events := events w @ close_events (handlers w) c r,
     strand := strand w @ close_tasks (handlers w) (is_open w) c r\<rparr>"
  by (cases "on_close (handlers w)")
    (simp_all add: fire_close_def close_events_def close_tasks_def run_calls_eq log_event_def is_open_def)

lemma fire_open_eq:
  "fire_open w = w\<lparr>events := events w @ (if on_open (handlers w) = None then [] else [EvOpen]),
     strand := strand w @ open_tasks w\<rparr>"
  by (cases "on_open (handlers w)")
    (simp_all add: fire_open_def open_tasks_def run_calls_eq log_event_def is_open_def)

lemmas fire_eqs = fire_message_eq fire_close_eq fire_open_eq

text \<open>Every frame handed to the writer, sent or still queued, in order.\<close>

definition out_log :: "websocket \<Rightarrow> bytes" where
  "out_log w = wire w @ concat (write_queue w)"

definition writer_idle :: "websocket \<Rightarrow> bool" where
  "writer_idle w \<longleftrightarrow> \<not> is_writing w \<and> write_queue w = [] \<and> sock_ok w"

lemma write_loop_eq [net_simps]: "write_loop q out = out @ concat q"
  by (induction q arbitrary: out) auto

lemma do_write_out_log: "out_log (snd (do_write bs w)) = out_log w @ bs"
  by (simp add: do_write_def out_log_def Let_def net_simps)

lemma do_write_idle: "writer_idle w \<Longrightarrow> do_write bs w = (Done, w\<lparr>wire := wire w @ bs\<rparr>)"
  by (cases w) (simp add: do_write_def writer_idle_def net_simps)

lemma do_write_frame [simp]:
  "ws_state (snd (do_write bs w)) = ws_state w" "ws_id (snd (do_write bs w)) = ws_id w"
  "handlers (snd (do_write bs w)) = handlers w" "server_cleanup (snd (do_write bs w)) = server_cleanup w"
  "strand (snd (do_write bs w)) = strand w" "sock_ok (snd (do_write bs w)) = sock_ok w"
  "events (snd (do_write bs w)) = events w"
  by (simp_all add: do_write_def Let_def)

lemma and_then_Done [simp]: "and_then (Done, w) f = f w"
  and and_then_Threw [simp]: "and_then (Threw, w) f = (Threw, w)"
  by (simp_all add: and_then_def)

lemma and_then_cases:
  obtains (ok) w where "r = (Done, w)" "and_then r f = f w"
  | (threw) w where "r = (Threw, w)" "and_then r f = (Threw, w)"
  by (cases r; cases "fst r") (auto simp: and_then_def)

lemma writer_idle_update [simp]:
  "writer_idle (w\<lparr>wire := x\<rparr>) = writer_idle w" "writer_idle (w\<lparr>events := e\<rparr>) = writer_idle w"
  "writer_idle (w\<lparr>strand := t\<rparr>) = writer_idle w"
  by (simp_all add: writer_idle_def)

lemma is_open_update [simp]:
  "is_open (w\<lparr>wire := x\<rparr>) = is_open w" "is_open (w\<lparr>events := e\<rparr>) = is_open w"
  "is_open (w\<lparr>strand := t\<rparr>) = is_open w"
  by (simp_all add: is_open_def)

lemma out_log_update [simp]:
  "out_log (w\<lparr>events := e\<rparr>) = out_log w" "out_log (w\<lparr>strand := t\<rparr>) = out_log w"
  by (simp_all add: out_log_def)

section \<open>Opcodes of received frames\<close>

lemma opcode_nibble [simp]:
  "WS_CONT AND 0x0F = WS_CONT" "WS_TEXT AND 0x0F = WS_TEXT" "WS_BINARY AND 0x0F = WS_BINARY"
  "WS_CLOSE AND 0x0F = WS_CLOSE" "WS_PING AND 0x0F = WS_PING" "WS_PONG AND 0x0F = WS_PONG"
  by (simp_all add: ws_opcodes)

lemma opcodes_distinct [simp]:
  "WS_CONT \<noteq> WS_TEXT" "WS_CONT \<noteq> WS_BINARY" "WS_CONT \<noteq> WS_CLOSE" "WS_CONT \<noteq> WS_PING" "WS_CONT \<noteq> WS_PONG"
  "WS_TEXT \<noteq> WS_BINARY" "WS_TEXT \<noteq> WS_CLOSE" "WS_TEXT \<noteq> WS_PING" "WS_TEXT \<noteq> WS_PONG"
  "WS_BINARY \<noteq> WS_CLOSE" "WS_BINARY \<noteq> WS_PING" "WS_BINARY \<noteq> WS_PONG"
  "WS_CLOSE \<noteq> WS_PING" "WS_CLOSE \<noteq> WS_PONG" "WS_PING \<noteq> WS_PONG"
  by (simp_all add: ws_opcodes)

lemmas opcodes_distinct_sym [simp] = opcodes_distinct [symmetric]

lemma received_simps [simp]:
  "fin (received f) = fin f" "payload_data (received f) = payload_data f"
  "opcode (received f) = opcode f AND 0x0F" "mask_bit (received f) = mask_bit f"
  by (simp_all add: received_def)

end
