(* ===== verification/Ws_Traffic.thy ===== *)
theory Ws_Traffic
  imports Ws_Conn
begin

text \<open>
  What the read loop of a connection does with the traffic of a peer.  The specification is the
  relation \<open>conforming\<close>: which messages and which pings a sequence of frames carries, by the
  fragmentation rules of RFC 6455.  The lemmas show that the loop delivers exactly those messages
  and answers exactly those pings, that it always ends on a finite stream, and what it does with a
  close frame, with the end of the stream and with frames that break the rules.
\<close>

section \<open>Conforming traffic\<close>

text \<open>
  \<open>conforming L p fs ms ps\<close>: starting in the middle of a message whose fragments so far are
  \<open>p\<close> (or between messages, \<open>p = None\<close>), the frames \<open>fs\<close> complete the messages \<open>ms\<close> and carry
  the pings \<open>ps\<close>, no message being longer than \<open>L\<close>.
\<close>

inductive conforming :: "nat \<Rightarrow> bytes option \<Rightarrow> ws_frame list \<Rightarrow> bytes list \<Rightarrow> bytes list \<Rightarrow> bool" where
  conf_end: "conforming L p [] [] []"
| conf_ping: "opcode f = WS_PING \<Longrightarrow> fin f \<Longrightarrow> length (payload_data f) \<le> 125 \<Longrightarrow>
    conforming L p fs ms ps \<Longrightarrow> conforming L p (f # fs) ms (payload_data f # ps)"
| conf_pong: "opcode f = WS_PONG \<Longrightarrow> fin f \<Longrightarrow> length (payload_data f) \<le> 125 \<Longrightarrow>
    conforming L p fs ms ps \<Longrightarrow> conforming L p (f # fs) ms ps"
| conf_whole: "opcode f = WS_TEXT \<or> opcode f = WS_BINARY \<Longrightarrow> fin f \<Longrightarrow>
    length (payload_data f) \<le> L \<Longrightarrow>
    conforming L None fs ms ps \<Longrightarrow> conforming L None (f # fs) (payload_data f # ms) ps"
| conf_first: "opcode f = WS_TEXT \<or> opcode f = WS_BINARY \<Longrightarrow> \<not> fin f \<Longrightarrow>
    length (payload_data f) \<le> L \<Longrightarrow>
    conforming L (Some (payload_data f)) fs ms ps \<Longrightarrow> conforming L None (f # fs) ms ps"
| conf_middle: "opcode f = WS_CONT \<Longrightarrow> \<not> fin f \<Longrightarrow> length (p @ payload_data f) \<le> L \<Longrightarrow>
    conforming L (Some (p @ payload_data f)) fs ms ps \<Longrightarrow> conforming L (Some p) (f # fs) ms ps"
| conf_last: "opcode f = WS_CONT \<Longrightarrow> fin f \<Longrightarrow> length (p @ payload_data f) \<le> L \<Longrightarrow>
    conforming L None fs ms ps \<Longrightarrow>
    conforming L (Some p) (f # fs) ((p @ payload_data f) # ms) ps"

inductive_cases conforming_ConsE: "conforming L p (f # fs) ms ps"

text \<open>The buffer that stands for a partial message.\<close>

definition body_at :: "bytes option \<Rightarrow> frame_body \<Rightarrow> bool" where
  "body_at p fb \<longleftrightarrow> max_size fb = maxMsgSize \<and> assembling fb = (p \<noteq> None) \<and>
     (\<forall>m. p = Some m \<longrightarrow> msg fb = m)"

lemma body_at_new: "body_at None (new_body maxMsgSize)"
  by (simp add: body_at_def new_body_def)

lemma body_at_reset: "body_at p fb \<Longrightarrow> body_at None (fb_reset fb)"
  by (simp add: body_at_def fb_reset_def)

lemma body_at_start: "body_at None fb \<Longrightarrow> msg (fb_start op fb) = [] \<and> max_size (fb_start op fb) = maxMsgSize"
  by (simp add: body_at_def fb_start_def)

definition maxMsg :: nat where "maxMsg = 10485760"

lemma maxMsgSize_nat: "unat maxMsgSize = maxMsg" "maxMsgSize \<noteq> 0"
  by (simp_all add: maxMsgSize_def maxMsg_def)

text \<open>Appending a fragment that still fits.\<close>

lemma fb_append_fits:
  assumes "max_size fb = maxMsgSize" "length (msg fb) + length bs \<le> maxMsg"
  shows "fb_append bs fb = (True, fb\<lparr>msg := msg fb @ bs\<rparr>)"
proof -
  have "\<not> would_exceed (of_nat (length bs)) fb"
    using assms would_exceed_iff [of fb bs] maxMsgSize_nat by (simp add: maxMsg_def)
  then show ?thesis by (simp add: fb_append_def)
qed

section \<open>One frame of conforming traffic\<close>

text \<open>The connection after a delivery and after an answered ping.\<close>

definition delivered :: "bytes \<Rightarrow> websocket \<Rightarrow> websocket" where
  "delivered m w = w\<lparr>events := events w @ message_events (handlers w) m,
     strand := strand w @ message_tasks (handlers w) True m\<rparr>"

definition ponged :: "bytes \<Rightarrow> websocket \<Rightarrow> websocket" where
  "ponged p w = w\<lparr>wire := wire w @ write_frame (data_frame WS_PONG p)\<rparr>"

definition live :: "websocket \<Rightarrow> bool" where
  "live w \<longleftrightarrow> is_open w \<and> writer_idle w"

lemma live_delivered [simp]: "live (delivered m w) = live w"
  and live_ponged [simp]: "live (ponged m w) = live w"
  by (simp_all add: live_def delivered_def ponged_def)

lemma live_open: "live w \<Longrightarrow> is_open w"
  by (simp add: live_def)

lemma fire_message_live: "is_open w \<Longrightarrow> fire_message m w = delivered m w"
  by (simp add: fire_message_eq delivered_def)

lemma append_and_deliver_fits:
  assumes "max_size fb = maxMsgSize" "length (msg fb) + length (payload_data f) \<le> maxMsg" "is_open w"
  shows "append_and_deliver f fb w =
    (if fin f then (Done, fb_reset (fb\<lparr>msg := msg fb @ payload_data f\<rparr>), delivered (msg fb @ payload_data f) w)
     else (Done, fb\<lparr>msg := msg fb @ payload_data f\<rparr>, w))"
  using assms by (simp add: append_and_deliver_def fb_append_fits fire_message_live)

lemma handle_ping:
  assumes "opcode f = WS_PING" "fin f" "live w"
  shows "handle_parsed_frame f fb w = (Done, fb, ponged (payload_data f) w)"
  using assms by (simp add: handle_parsed_frame_def handle_ping_frame_def send_pong_def with_body_def
      live_def do_write_idle ponged_def)

lemma handle_pong:
  assumes "opcode f = WS_PONG" "fin f"
  shows "handle_parsed_frame f fb w = (Done, fb, w)"
  using assms by (simp add: handle_parsed_frame_def)

lemma handle_first:
  assumes "opcode f = WS_TEXT \<or> opcode f = WS_BINARY" "body_at None fb" "live w"
    "length (payload_data f) \<le> maxMsg"
  shows "\<exists>fb'. handle_parsed_frame f fb w =
      (Done, fb', if fin f then delivered (payload_data f) w else w) \<and>
    body_at (if fin f then None else Some (payload_data f)) fb'"
proof -
  have "handle_parsed_frame f fb w = append_and_deliver f (fb_start (opcode f) fb) w"
    using assms(1,2) by (auto simp: handle_parsed_frame_def body_at_def)
  moreover have "max_size (fb_start (opcode f) fb) = maxMsgSize" "msg (fb_start (opcode f) fb) = []"
    "assembling (fb_start (opcode f) fb)"
    using assms(2) by (simp_all add: body_at_def fb_start_def)
  ultimately show ?thesis
    using assms(3,4) by (simp add: append_and_deliver_fits live_def body_at_def fb_reset_def)
qed

lemma handle_cont:
  assumes "opcode f = WS_CONT" "body_at (Some p) fb" "live w" "length (p @ payload_data f) \<le> maxMsg"
  shows "\<exists>fb'. handle_parsed_frame f fb w =
      (Done, fb', if fin f then delivered (p @ payload_data f) w else w) \<and>
    body_at (if fin f then None else Some (p @ payload_data f)) fb'"
proof -
  have "handle_parsed_frame f fb w = append_and_deliver f fb w"
    using assms(1,2) by (auto simp: handle_parsed_frame_def body_at_def)
  then show ?thesis
    using assms(2,3,4) by (simp add: append_and_deliver_fits live_def body_at_def fb_reset_def)
qed

section \<open>The loop on conforming traffic\<close>

text \<open>One turn of the loop on a written frame.\<close>

lemma read_loop_turn:
  assumes "is_open w" "length header = 14" "length (payload_data f) < 2 ^ 64"
    "length (payload_data f) \<le> alloc_max"
    and "handle_parsed_frame (received f) fb w = (Done, fb', w')"
  shows "\<exists>header'. length header' = 14 \<and>
    read_loop list_read alloc_max (Suc k) header fb (write_frame f @ rest) w =
    read_loop list_read alloc_max k header' fb' rest w'"
proof -
  obtain header' where "length header' = 14"
    "ws_read_frame list_read alloc_max header (write_frame f @ rest) = Inr (received f, header', rest)"
    using ws_read_write [OF assms(2-4)] by blast
  with assms(1,5) show ?thesis by (auto simp: is_open_def read_loop.simps)
qed

definition traffic :: "bytes list \<Rightarrow> bytes list \<Rightarrow> websocket \<Rightarrow> websocket" where
  "traffic ms ps w = fold ponged ps (fold delivered ms w)"

lemma delivered_ponged: "delivered m (ponged p w) = ponged p (delivered m w)"
  by (simp add: delivered_def ponged_def)

lemma fold_delivered_ponged: "fold delivered ms (ponged p w) = ponged p (fold delivered ms w)"
  by (induction ms arbitrary: w) (simp_all add: delivered_ponged)

lemma traffic_delivered: "traffic ms ps (delivered m w) = traffic (m # ms) ps w"
  by (simp add: traffic_def)

lemma traffic_ponged: "traffic ms ps (ponged p w) = traffic ms (p # ps) w"
  by (simp add: traffic_def fold_delivered_ponged)

lemma fold_delivered_eq:
  "fold delivered ms w = w\<lparr>events := events w @ concat (map (message_events (handlers w)) ms),
     strand := strand w @ concat (map (message_tasks (handlers w) True) ms)\<rparr>"
  by (induction ms arbitrary: w) (simp_all add: delivered_def)

lemma fold_ponged_eq:
  "fold ponged ps w = w\<lparr>wire := wire w @ concat (map (\<lambda>p. write_frame (data_frame WS_PONG p)) ps)\<rparr>"
  by (induction ps arbitrary: w) (simp_all add: ponged_def)

lemma traffic_eq:
  "traffic ms ps w = w\<lparr>events := events w @ concat (map (message_events (handlers w)) ms),
     strand := strand w @ concat (map (message_tasks (handlers w) True) ms),
     wire := wire w @ concat (map (\<lambda>p. write_frame (data_frame WS_PONG p)) ps)\<rparr>"
  by (simp add: traffic_def fold_delivered_eq fold_ponged_eq)

text \<open>
  Reading conforming frames, whatever comes after them.  The step is the same for every kind of
  frame: a turn of the loop, then the rest of the frames.
\<close>

definition reads_to :: "nat \<Rightarrow> nat \<Rightarrow> bytes \<Rightarrow> frame_body \<Rightarrow> websocket \<Rightarrow> ws_frame list \<Rightarrow> bytes \<Rightarrow>
    websocket \<Rightarrow> bool" where
  "reads_to alloc_max k header fb w fs rest w' \<longleftrightarrow>
     (\<exists>header' fb'. length header' = 14 \<and> max_size fb' = maxMsgSize \<and>
       read_loop list_read alloc_max (length fs + k) header fb (concat (map write_frame fs) @ rest) w =
       read_loop list_read alloc_max k header' fb' rest w')"

lemma reads_to_Cons:
  assumes "is_open w" "length header = 14" "length (payload_data f) \<le> alloc_max"
    "length (payload_data f) \<le> maxMsg"
    and "handle_parsed_frame (received f) fb w = (Done, fb', w')"
    and "\<And>header. length header = 14 \<Longrightarrow> reads_to alloc_max k header fb' w' fs rest w''"
  shows "reads_to alloc_max k header fb w (f # fs) rest w''"
proof -
  have "length (payload_data f) < 2 ^ 64" using assms(4) by (simp add: maxMsg_def)
  from read_loop_turn [OF assms(1,2) this assms(3,5), of "length fs + k" "concat (map write_frame fs) @ rest"]
  show ?thesis using assms(6) unfolding reads_to_def by fastforce
qed

lemma read_loop_conforming:
  assumes "conforming L p fs ms ps" "L = maxMsg" "maxMsg \<le> alloc_max"
    and "body_at p fb" "live w" "length header = 14"
  shows "reads_to alloc_max k header fb w fs rest (traffic ms ps w)"
  using assms
proof (induction arbitrary: header fb w rule: conforming.induct)
  case (conf_end L p)
  then show ?case by (auto simp: reads_to_def traffic_def body_at_def)
next
  case (conf_ping f L p fs ms ps)
  have "handle_parsed_frame (received f) fb w = (Done, fb, ponged (payload_data f) w)"
    using conf_ping by (simp add: handle_ping)
  then show ?case
    using conf_ping reads_to_Cons [of w header f alloc_max fb fb "ponged (payload_data f) w"]
    by (simp add: live_open traffic_ponged [symmetric] maxMsg_def)
next
  case (conf_pong f L p fs ms ps)
  have "handle_parsed_frame (received f) fb w = (Done, fb, w)"
    using conf_pong by (simp add: handle_pong)
  then show ?case
    using conf_pong reads_to_Cons [of w header f alloc_max fb fb w]
    by (simp add: live_open maxMsg_def)
next
  case (conf_whole f L fs ms ps)
  obtain fb' where "handle_parsed_frame (received f) fb w = (Done, fb', delivered (payload_data f) w)"
    "body_at None fb'"
    using handle_first [of "received f" fb w] conf_whole by auto
  then show ?case
    using conf_whole reads_to_Cons [of w header f alloc_max fb fb' "delivered (payload_data f) w"]
    by (simp add: live_open traffic_delivered [symmetric])
next
  case (conf_first f L fs ms ps)
  obtain fb' where "handle_parsed_frame (received f) fb w = (Done, fb', w)"
    "body_at (Some (payload_data f)) fb'"
    using handle_first [of "received f" fb w] conf_first by auto
  then show ?case
    using conf_first reads_to_Cons [of w header f alloc_max fb fb' w]
    by (simp add: live_open)
next
  case (conf_middle f p L fs ms ps)
  obtain fb' where "handle_parsed_frame (received f) fb w = (Done, fb', w)"
    "body_at (Some (p @ payload_data f)) fb'"
    using handle_cont [of "received f" p fb w] conf_middle by auto
  then show ?case
    using conf_middle reads_to_Cons [of w header f alloc_max fb fb' w]
    by (simp add: live_open)
next
  case (conf_last f p L fs ms ps)
  obtain fb' where "handle_parsed_frame (received f) fb w = (Done, fb', delivered (p @ payload_data f) w)"
    "body_at None fb'"
    using handle_cont [of "received f" p fb w] conf_last by auto
  then show ?case
    using conf_last reads_to_Cons [of w header f alloc_max fb fb' "delivered (p @ payload_data f) w"]
    by (simp add: live_open traffic_delivered [symmetric])
qed

section \<open>How the loop ends\<close>

text \<open>Every turn uses at least two bytes, so half the length of the stream bounds the turns.\<close>

lemma read_loop_total:
  "length header = 14 \<Longrightarrow> length s < 2 * fuel \<Longrightarrow>
   \<exists>r. read_loop list_read alloc_max fuel header fb s w = Some r"
proof (induction fuel arbitrary: header fb s w)
  case 0
  then show ?case by simp
next
  case (Suc fuel)
  show ?case
  proof (cases "ws_read_frame list_read alloc_max header s")
    case (Inl e)
    then show ?thesis by (simp add: read_loop.simps)
  next
    case (Inr r)
    then obtain f h s' where r: "ws_read_frame list_read alloc_max header s = Inr (f, h, s')"
      by (cases r) auto
    have "length h = 14" "length s' < 2 * fuel"
      using ws_read_frame_Inr [OF r Suc.prems(1)] Suc.prems(2) by simp_all
    with r Suc.IH show ?thesis
      by (auto simp: read_loop.simps split: prod.splits outcome.splits)
  qed
qed

lemma read_loop_eof:
  "is_open w \<Longrightarrow> read_loop list_read alloc_max (Suc k) header fb [] w = Some (LoopError NetEof, fb, [], w)"
  by (simp add: read_loop.simps is_open_def ws_read_frame_def list_read_def)

lemma read_loop_closed:
  "\<not> is_open w \<Longrightarrow> read_loop rd alloc_max (Suc k) header fb s w = Some (LoopClosed, fb, s, w)"
  by (simp add: read_loop.simps is_open_def)

text \<open>The loop sees the bytes of its socket and nothing else.\<close>

context byte_stream
begin

lemma read_loop_sim:
  "read_loop list_read alloc_max fuel header fb (view s) w =
   map_option (map_prod id (map_prod id (map_prod view id))) (read_loop rd alloc_max fuel header fb s w)"
proof (induction fuel arbitrary: header fb s w)
  case (Suc fuel)
  show ?case
  proof (cases "ws_read_frame rd alloc_max header s")
    case (Inl e)
    then show ?thesis using ws_read_frame_sim [of alloc_max header s] by (simp add: read_loop.simps)
  next
    case (Inr r)
    then show ?thesis using ws_read_frame_sim [of alloc_max header s] Suc
      by (auto simp: read_loop.simps split: prod.splits outcome.splits)
  qed
qed simp

lemma read_loop_list:
  assumes "read_loop list_read alloc_max fuel header fb (view s) w = Some (e, fb', r, w')"
  shows "\<exists>s'. read_loop rd alloc_max fuel header fb s w = Some (e, fb', s', w') \<and> view s' = r"
  using assms by (auto simp: read_loop_sim)

lemma do_read_loop_total:
  assumes "length (view s) < 2 * fuel"
  shows "\<exists>r. do_read_loop rd alloc_max fuel s w = Some r"
  using read_loop_total [of "replicate 14 0" "view s" fuel alloc_max "new_body maxMsgSize" w] assms
  by (auto simp: do_read_loop_def read_loop_sim)

text \<open>Conforming traffic up to the end of the stream.\<close>

lemma do_read_loop_eof:
  assumes "conforming maxMsg None fs ms ps" "maxMsg \<le> alloc_max" "live w"
    "view s = concat (map write_frame fs)" "length fs < fuel"
  shows "\<exists>fb' s'. do_read_loop rd alloc_max fuel s w = Some (LoopError NetEof, fb', s', traffic ms ps w)"
proof -
  obtain k where k: "fuel = length fs + Suc k"
    using assms(5) less_iff_Suc_add by auto
  have "reads_to alloc_max (Suc k) (replicate 14 0) (new_body maxMsgSize) w fs [] (traffic ms ps w)"
    using read_loop_conforming [OF assms(1) refl assms(2) body_at_new assms(3)] by simp
  moreover have "is_open (traffic ms ps w)"
    using assms(3) by (simp add: traffic_eq live_def)
  ultimately obtain fb' where
    "read_loop list_read alloc_max fuel (replicate 14 0) (new_body maxMsgSize) (view s) w =
      Some (LoopError NetEof, fb', [], traffic ms ps w)"
    by (auto simp: reads_to_def k assms(4) read_loop_eof)
  then show ?thesis
    unfolding do_read_loop_def using read_loop_list by blast
qed

end

section \<open>The close handshake\<close>

lemma live_traffic [simp]: "live (traffic ms ps w) = live w"
  by (simp add: traffic_eq live_def)

definition close_sent :: "u16 \<Rightarrow> bytes \<Rightarrow> websocket \<Rightarrow> websocket" where
  "close_sent code reason w =
     w\<lparr>wire := wire w @ write_frame (data_frame WS_CLOSE (build_close_payload code reason))\<rparr>"

lemma send_close_idle: "writer_idle w \<Longrightarrow> send_close_with_reason c r w = (Done, close_sent c r w)"
  by (simp add: send_close_with_reason_def do_write_idle close_sent_def)

lemma handle_close:
  assumes "opcode f = WS_CLOSE" "fin f" "live w"
  shows "handle_parsed_frame f fb w =
    (case close_payload_fields (payload_data f) of (c, r) \<Rightarrow> (Done, fb, close c r (close_sent c r w)))"
  using assms by (simp add: handle_parsed_frame_def handle_close_frame_def with_body_def live_def
      send_close_idle split: prod.splits)

lemma close_open:
  assumes "is_open w"
  shows "close c r w = w\<lparr>ws_state := WS_CLOSED, sock_ok := False,
     events := events w @ close_events (handlers w) c r @
       (if server_cleanup w then [EvCleanup (ws_id w)] else []),
     strand := strand w @ close_tasks (handlers w) False c r\<rparr>"
  using assms by (simp add: close_def is_open_def fire_close_eq log_event_def Let_def)

lemma close_closed: "\<not> is_open w \<Longrightarrow> close c r w = w"
  by (simp add: close_def is_open_def)

lemma is_open_close [simp]: "\<not> is_open (close c r w)"
  by (cases "is_open w") (simp_all add: close_open close_closed, simp add: is_open_def)

lemma close_payload_round_trip:
  "close_payload_fields (build_close_payload c r) = (c, take 123 r)"
proof -
  have "(push_bit 8 (ucast (ucast (drop_bit 8 c AND 0xFF) :: byte)) OR ucast (ucast (c AND 0xFF) :: byte) :: u16) = c"
    unfolding and_0xFF
  proof (rule bit_word_eqI)
    fix n
    assume "n < LENGTH(16)"
    then consider "n < 8" | "8 \<le> n" "n < 16" by fastforce
    then show "bit (push_bit 8 (ucast (ucast (take_bit 8 (drop_bit 8 c)) :: byte)) OR
        ucast (ucast (take_bit 8 c) :: byte) :: u16) n = bit c n"
      by cases (auto simp: bit_simps)
  qed
  then show ?thesis
    by (simp add: close_payload_fields_def build_close_payload_eq)
qed

text \<open>Conforming traffic and then a close frame: the loop answers it and stops.\<close>

context byte_stream
begin

lemma do_read_loop_close:
  assumes "conforming maxMsg None fs ms ps" "maxMsg \<le> alloc_max" "live w"
    and f: "opcode f = WS_CLOSE" "fin f" "length (payload_data f) \<le> 125"
    and "view s = concat (map write_frame fs) @ write_frame f @ rest" "length fs + 1 < fuel"
    and cr: "close_payload_fields (payload_data f) = (c, r)"
  shows "\<exists>fb' s'. do_read_loop rd alloc_max fuel s w =
      Some (LoopClosed, fb', s', close c r (close_sent c r (traffic ms ps w))) \<and> view s' = rest"
proof -
  obtain k where k: "fuel = length fs + Suc (Suc k)"
    using assms(8) less_iff_Suc_add by (auto simp: less_iff_Suc_add)
  let ?w = "traffic ms ps w"
  obtain h fb where h: "length h = 14"
    and fs: "read_loop list_read alloc_max fuel (replicate 14 0) (new_body maxMsgSize) (view s) w =
      read_loop list_read alloc_max (Suc (Suc k)) h fb (write_frame f @ rest) ?w"
    using read_loop_conforming [OF assms(1) refl assms(2) body_at_new assms(3),
        of "replicate 14 0" "Suc (Suc k)" "write_frame f @ rest"]
    by (auto simp: reads_to_def k assms(7))
  have w: "live ?w" "is_open ?w" using assms(3) by (simp_all add: live_open)
  have "handle_parsed_frame (received f) fb ?w = (Done, fb, close c r (close_sent c r ?w))"
    using handle_close [of "received f" ?w fb] f w cr by simp
  then obtain h' where "read_loop list_read alloc_max (Suc (Suc k)) h fb (write_frame f @ rest) ?w =
      read_loop list_read alloc_max (Suc k) h' fb rest (close c r (close_sent c r ?w))"
    using read_loop_turn [OF w(2) h, of f alloc_max fb fb _ "Suc k" rest] f(3) assms(2)
    by (auto simp: maxMsg_def)
  then have "read_loop list_read alloc_max fuel (replicate 14 0) (new_body maxMsgSize) (view s) w =
      Some (LoopClosed, fb, rest, close c r (close_sent c r ?w))"
    using fs by (simp add: read_loop_closed)
  then show ?thesis
    unfolding do_read_loop_def using read_loop_list by blast
qed

end

section \<open>Cutting a message into frames\<close>

text \<open>A message sent in several frames: the first with its opcode, the others continuations.\<close>

definition part_frame :: "byte \<Rightarrow> bool \<Rightarrow> bytes \<Rightarrow> ws_frame" where
  "part_frame op final p = (data_frame op p)\<lparr>fin := final\<rparr>"

fun cont_frames :: "bytes list \<Rightarrow> ws_frame list" where
  "cont_frames [] = []"
| "cont_frames (p # parts) = part_frame WS_CONT (parts = []) p # cont_frames parts"

fun split_frames :: "byte \<Rightarrow> bytes list \<Rightarrow> ws_frame list" where
  "split_frames op [] = []"
| "split_frames op (p # parts) = part_frame op (parts = []) p # cont_frames parts"

lemma part_frame_simps [simp]:
  "opcode (part_frame op l p) = op" "fin (part_frame op l p) = l" "payload_data (part_frame op l p) = p"
  by (simp_all add: part_frame_def data_frame_def)

lemma conforming_cont:
  "parts \<noteq> [] \<Longrightarrow> length (p @ concat parts) \<le> L \<Longrightarrow> conforming L None fs ms ps \<Longrightarrow>
   conforming L (Some p) (cont_frames parts @ fs) ((p @ concat parts) # ms) ps"
proof (induction parts arbitrary: p)
  case (Cons q parts)
  show ?case
  proof (cases "parts = []")
    case True
    with Cons.prems show ?thesis
      using conf_last [of "part_frame WS_CONT True q" p L fs ms ps] by simp
  next
    case False
    with Cons.prems Cons.IH [of "p @ q"] show ?thesis
      using conf_middle [of "part_frame WS_CONT False q" p L "cont_frames parts @ fs"] by simp
  qed
qed simp

lemma conforming_split:
  assumes "op = WS_TEXT \<or> op = WS_BINARY" "parts \<noteq> []" "length (concat parts) \<le> L"
    and "conforming L None fs ms ps"
  shows "conforming L None (split_frames op parts @ fs) (concat parts # ms) ps"
proof (cases parts)
  case Nil
  with assms(2) show ?thesis by simp
next
  case (Cons p rest)
  show ?thesis
  proof (cases "rest = []")
    case True
    with Cons assms show ?thesis
      using conf_whole [of "part_frame op True p" L fs ms ps] by simp
  next
    case False
    with Cons assms show ?thesis
      using conf_first [of "part_frame op False p" L "cont_frames rest @ fs"] conforming_cont [of rest p L fs ms ps]
      by simp
  qed
qed

section \<open>Violations of the protocol\<close>

text \<open>A fragmented control frame, or a new data frame inside a fragmented message.\<close>

definition violates :: "ws_frame \<Rightarrow> frame_body \<Rightarrow> bool" where
  "violates f fb \<longleftrightarrow>
     (opcode f = WS_PING \<or> opcode f = WS_PONG \<or> opcode f = WS_CLOSE) \<and> \<not> fin f \<or>
     (opcode f = WS_TEXT \<or> opcode f = WS_BINARY) \<and> assembling fb"

lemma protocol_error_idle:
  "writer_idle w \<Longrightarrow> protocol_error r w = (Done, fire_close 1002 r (close_sent 1002 r w))"
  by (simp add: protocol_error_def send_close_idle)

lemma handle_violation:
  assumes "violates f fb" "live w"
  shows "\<exists>r. handle_parsed_frame f fb w = (Done, fb, fire_close 1002 r (close_sent 1002 r w))"
  using assms
  by (auto simp: violates_def handle_parsed_frame_def with_body_def live_def protocol_error_idle)

lemma live_close_sent [simp]: "live (close_sent c r w) = live w"
  and live_fire_close [simp]: "live (fire_close c r w) = live w"
  by (simp_all add: live_def close_sent_def fire_close_eq)

text \<open>A continuation frame outside a message is refused and then treated as a message part.\<close>

lemma handle_orphan:
  assumes "opcode f = WS_CONT" "\<not> assembling fb" "live w"
  shows "handle_parsed_frame f fb w = append_and_deliver f fb
    (let r = str_bytes ''Continuation without initial frame'' in fire_close 1002 r (close_sent 1002 r w))"
  using assms by (simp add: handle_parsed_frame_def live_def protocol_error_idle Let_def)

lemma handle_too_big:
  assumes "opcode f = WS_TEXT \<or> opcode f = WS_BINARY" "body_at None fb" "live w"
    "maxMsg < length (payload_data f)" "length (payload_data f) < 2 ^ 64"
  shows "handle_parsed_frame f fb w = (Done, fb_reset (fb_start (opcode f) fb),
    (let r = str_bytes ''Message too big'' in fire_close 1009 r (close_sent 1009 r w)))"
proof -
  let ?fb = "fb_start (opcode f) fb"
  have "max_size ?fb = maxMsgSize" "msg ?fb = []"
    using assms(2) by (simp_all add: body_at_def fb_start_def)
  then have "would_exceed (of_nat (length (payload_data f))) ?fb"
    using would_exceed_iff [of ?fb "payload_data f"] assms(4,5) maxMsgSize_nat by simp
  then show ?thesis
    using assms(1,2,3)
    by (auto simp: handle_parsed_frame_def body_at_def append_and_deliver_def fb_append_def too_big_def
        live_def send_close_idle Let_def)
qed

text \<open>The loop tests the state before it reads: an error it ends with finds the connection open.\<close>

lemma read_loop_error_open:
  "read_loop rd alloc_max fuel header fb s w = Some (LoopError e, fb', s', w') \<Longrightarrow> is_open w'"
proof (induction fuel arbitrary: header fb s w)
  case (Suc fuel)
  then show ?case
    by (auto simp: read_loop.simps is_open_def split: if_splits sum.splits prod.splits outcome.splits)
qed simp

section \<open>Echoing\<close>

text \<open>The strand runs the spawned coroutines in the order they were spawned.\<close>

definition run_tasks :: "strand_task list \<Rightarrow> websocket \<Rightarrow> websocket" where
  "run_tasks ts w = fold (\<lambda>t w. snd (run_task t w)) ts w"

lemma run_tasks_text:
  "live w \<Longrightarrow> run_tasks (map TaskText ms) w =
    w\<lparr>wire := wire w @ concat (map (\<lambda>m. write_frame (data_frame WS_TEXT m)) ms)\<rparr>"
  by (induction ms arbitrary: w)
    (simp_all add: run_tasks_def send_text_def live_def is_open_def do_write_idle)

text \<open>The handler of an echo server: every message is sent back.\<close>

definition echo_handlers :: ws_handlers where
  "echo_handlers = \<lparr>on_open = None, on_message = Some (\<lambda>m. [SendTextAsync m]),
     on_close = Some (\<lambda>c r. [])\<rparr>"

lemma run_tasks_echo:
  assumes "live w" "handlers w = echo_handlers" "strand w = []"
  shows "run_tasks (strand (traffic ms ps w)) (traffic ms ps w) =
    (traffic ms ps w)\<lparr>wire := wire (traffic ms ps w) @ concat (map (\<lambda>m. write_frame (data_frame WS_TEXT m)) ms)\<rparr>"
proof -
  have t: "concat (map (message_tasks echo_handlers True) ms) = map TaskText ms"
    by (induction ms) (simp_all add: message_tasks_def echo_handlers_def)
  have "strand (traffic ms ps w) = map TaskText ms"
    using assms(2,3) t by (simp add: traffic_eq)
  then show ?thesis
    using assms(1) by (simp add: run_tasks_text)
qed

lemma concat_message_events:
  "concat (map (message_events hs) ms) = (if on_message hs = None then [] else map EvMessage ms)"
  by (induction ms) (simp_all add: message_events_def)

end
