(* ===== verification/Ws_Session.thy ===== *)
theory Ws_Session
  imports Ws_Traffic
begin

text \<open>
  A WebSocket connection among the other activities of the server.  The read loop, the coroutines
  on the write strand, threads that use the public interface and \<^verbatim>\<open>Server::close_websockets\<close>
  touch the same connection; each step of \<open>session_step\<close> is one of them moving.  The lemmas are
  the invariants of every reachable state: the release of the connection happens once and exactly
  on closing, a closed connection stays silent, and no message is longer than the limit.
\<close>

record 's ws_session =
  running :: bool
  hdr :: bytes
  body :: frame_body
  sock :: 's
  conn :: websocket

inductive session_step :: "'s socket_read \<Rightarrow> nat \<Rightarrow> 's ws_session \<Rightarrow> 's ws_session \<Rightarrow> bool"
  for rd alloc_max where
  frame: "running S \<Longrightarrow> ws_state (conn S) = WS_OPEN \<Longrightarrow>
    ws_read_frame rd alloc_max (hdr S) (sock S) = Inr (f, h, s) \<Longrightarrow>
    handle_parsed_frame f (body S) (conn S) = (r, fb, w) \<Longrightarrow>
    session_step rd alloc_max S (S\<lparr>running := (r = Done), hdr := h, body := fb, sock := s, conn := w\<rparr>)"
| read_error: "running S \<Longrightarrow> ws_state (conn S) = WS_OPEN \<Longrightarrow>
    ws_read_frame rd alloc_max (hdr S) (sock S) = Inl e \<Longrightarrow>
    session_step rd alloc_max S (S\<lparr>running := False\<rparr>)"
| loop_exit: "running S \<Longrightarrow> ws_state (conn S) \<noteq> WS_OPEN \<Longrightarrow>
    session_step rd alloc_max S (S\<lparr>running := False\<rparr>)"
| task: "strand (conn S) = t # ts \<Longrightarrow>
    session_step rd alloc_max S (S\<lparr>conn := snd (run_task t ((conn S)\<lparr>strand := ts\<rparr>))\<rparr>)"
| call: "session_step rd alloc_max S (S\<lparr>conn := run_call c (conn S)\<rparr>)"
| server_close: "session_step rd alloc_max S (S\<lparr>conn := close c r (conn S)\<rparr>)"
| peer_gone: "session_step rd alloc_max S (S\<lparr>conn := (conn S)\<lparr>sock_ok := False\<rparr>\<rparr>)"

text \<open>
  The session as \<^verbatim>\<open>process_session_ws\<close> and \<^verbatim>\<open>start\<close> set it up: the cleanup is installed, the
  open handler has run, the loop is about to read.
\<close>

definition session_init :: "ws_handlers \<Rightarrow> u64 \<Rightarrow> 's \<Rightarrow> 's ws_session" where
  "session_init hs client_id s =
     \<lparr>running = True, hdr = replicate 14 0, body = new_body maxMsgSize, sock = s,
      conn = fire_open (set_server_cleanup (new_websocket (Some hs) client_id))\<rparr>"

inductive reachable :: "'s socket_read \<Rightarrow> nat \<Rightarrow> 's ws_session \<Rightarrow> 's ws_session \<Rightarrow> bool"
  for rd alloc_max S where
  reach_refl: "reachable rd alloc_max S S"
| reach_step: "reachable rd alloc_max S T \<Longrightarrow> session_step rd alloc_max T U \<Longrightarrow> reachable rd alloc_max S U"

section \<open>The invariant of a connection\<close>

fun is_cleanup :: "ws_event \<Rightarrow> bool" where
  "is_cleanup (EvCleanup _) = True"
| "is_cleanup _ = False"

fun event_fits :: "ws_event \<Rightarrow> bool" where
  "event_fits (EvMessage m) = (length m \<le> maxMsg)"
| "event_fits _ = True"

definition cleanups :: "websocket \<Rightarrow> nat" where
  "cleanups w = length (filter is_cleanup (events w))"

definition conn_ok :: "websocket \<Rightarrow> bool" where
  "conn_ok w \<longleftrightarrow> (ws_state w = WS_OPEN \<or> ws_state w = WS_CLOSED) \<and>
     (ws_state w = WS_CLOSED \<longrightarrow> \<not> sock_ok w) \<and>
     cleanups w = (if ws_state w = WS_CLOSED \<and> server_cleanup w then 1 else 0) \<and>
     list_all event_fits (events w)"

definition body_ok :: "frame_body \<Rightarrow> bool" where
  "body_ok fb \<longleftrightarrow> max_size fb = maxMsgSize \<and> length (msg fb) \<le> maxMsg"

lemma conn_ok_do_write [simp]: "conn_ok (snd (do_write bs w)) = conn_ok w"
  by (simp add: conn_ok_def cleanups_def)

lemma conn_ok_strand [simp]: "conn_ok (w\<lparr>strand := t\<rparr>) = conn_ok w"
  by (simp add: conn_ok_def cleanups_def)

lemma conn_ok_sock: "conn_ok w \<Longrightarrow> conn_ok (w\<lparr>sock_ok := False\<rparr>)"
  by (simp add: conn_ok_def cleanups_def)

lemma conn_ok_run_call [simp]: "conn_ok (run_call c w) = conn_ok w"
  by (simp add: run_call_eq)

lemma conn_ok_log: "conn_ok w \<Longrightarrow> \<not> is_cleanup e \<Longrightarrow> event_fits e \<Longrightarrow> conn_ok (w\<lparr>events := events w @ [e]\<rparr>)"
  by (simp add: conn_ok_def cleanups_def)

lemma conn_ok_fire_close: "conn_ok w \<Longrightarrow> conn_ok (fire_close c r w)"
  by (simp add: fire_close_eq close_events_def conn_ok_log)

lemma conn_ok_fire_message: "conn_ok w \<Longrightarrow> length m \<le> maxMsg \<Longrightarrow> conn_ok (fire_message m w)"
  by (simp add: fire_message_eq message_events_def conn_ok_log)

lemma conn_ok_close: "conn_ok w \<Longrightarrow> conn_ok (close c r w)"
  by (cases "is_open w")
    (auto simp: close_open close_closed conn_ok_def cleanups_def close_events_def is_open_def)

lemma conn_ok_and_then:
  "(\<And>w. conn_ok w \<Longrightarrow> conn_ok (snd (f w))) \<Longrightarrow> conn_ok (snd r) \<Longrightarrow> conn_ok (snd (and_then r f))"
  by (cases r f rule: and_then_cases) auto

lemma conn_ok_send_close [simp]: "conn_ok (snd (send_close_with_reason c r w)) = conn_ok w"
  by (simp add: send_close_with_reason_def)

lemma conn_ok_run_task: "conn_ok w \<Longrightarrow> conn_ok (snd (run_task t w))"
  by (cases t) (auto simp: send_text_def send_binary_def intro!: conn_ok_and_then conn_ok_close)

lemma conn_ok_protocol_error: "conn_ok w \<Longrightarrow> conn_ok (snd (protocol_error r w))"
  by (auto simp: protocol_error_def intro!: conn_ok_and_then conn_ok_fire_close)

lemma conn_ok_close_frame: "conn_ok w \<Longrightarrow> conn_ok (snd (handle_close_frame p w))"
  by (auto simp: handle_close_frame_def split: prod.splits intro!: conn_ok_and_then conn_ok_close)

lemma conn_ok_ping: "conn_ok w \<Longrightarrow> conn_ok (snd (handle_ping_frame p w))"
  by (simp add: handle_ping_frame_def send_pong_def)

text \<open>Appending keeps the message within the limit; that is what makes deliveries fit.\<close>

lemma body_ok_append:
  assumes "body_ok fb" "length bs + maxMsg < 2 ^ 64" "fb_append bs fb = (b, fb')"
  shows "body_ok fb'"
  using assms would_exceed_iff [of fb bs] maxMsgSize_nat
  by (auto simp: body_ok_def fb_append_def split: if_splits)

lemma body_ok_start [simp]: "body_ok fb \<Longrightarrow> body_ok (fb_start op fb)"
  and body_ok_reset [simp]: "body_ok fb \<Longrightarrow> body_ok (fb_reset fb)"
  by (simp_all add: body_ok_def fb_start_def fb_reset_def)

lemma send_close_result:
  "send_close_with_reason c r w = (q, v) \<Longrightarrow> conn_ok v = conn_ok w"
  using conn_ok_send_close [of c r w] by simp

lemma too_big_ok:
  "too_big fb w = (r, fb', w') \<Longrightarrow> body_ok fb \<Longrightarrow> conn_ok w \<Longrightarrow> body_ok fb' \<and> conn_ok w'"
  by (auto simp: too_big_def send_close_result intro!: conn_ok_fire_close split: prod.splits outcome.splits)

lemma append_and_deliver_ok:
  assumes "append_and_deliver f fb w = (r, fb', w')" "body_ok fb" "conn_ok w"
    "length (payload_data f) + maxMsg < 2 ^ 64"
  shows "body_ok fb' \<and> conn_ok w'"
proof -
  obtain b fb1 where a: "fb_append (payload_data f) fb = (b, fb1)" by fastforce
  have fb1: "body_ok fb1" using body_ok_append [OF assms(2,4) a] .
  show ?thesis
  proof (cases b)
    case True
    with a fb1 assms show ?thesis
      by (auto simp: append_and_deliver_def body_ok_def fb_reset_def intro: conn_ok_fire_message split: if_splits)
  next
    case False
    with a fb1 assms show ?thesis
      using too_big_ok [of fb1 w r fb' w'] by (simp add: append_and_deliver_def)
  qed
qed

lemma handle_parsed_frame_ok:
  assumes "handle_parsed_frame f fb w = (r, fb', w')" "body_ok fb" "conn_ok w"
    "length (payload_data f) + maxMsg < 2 ^ 64"
  shows "body_ok fb' \<and> conn_ok w'"
proof -
  have pe: "protocol_error s w = (r', v) \<Longrightarrow> conn_ok v" for s r' v
    using conn_ok_protocol_error [OF assms(3), of s] by simp
  note simples = conn_ok_protocol_error [OF assms(3)] conn_ok_ping [OF assms(3)] conn_ok_close_frame [OF assms(3)]
  show ?thesis
    using assms(1,2,3) simples pe append_and_deliver_ok [OF _ _ _ assms(4), of fb _ r fb' w']
      append_and_deliver_ok [OF _ _ _ assms(4), of "fb_start (opcode f) fb" w r fb' w']
    by (auto simp: handle_parsed_frame_def with_body_def split: if_splits prod.splits outcome.splits)
qed

section \<open>Every reachable session\<close>

definition session_ok :: "'s ws_session \<Rightarrow> bool" where
  "session_ok S \<longleftrightarrow> conn_ok (conn S) \<and> body_ok (body S) \<and> length (hdr S) = 14"

lemma session_ok_init: "session_ok (session_init hs n s)"
  by (simp add: session_ok_def session_init_def body_ok_def new_body_def conn_ok_def cleanups_def
      fire_open_eq set_server_cleanup_def new_websocket_def)

context byte_stream
begin

lemma ws_read_frame_bounds:
  assumes "ws_read_frame rd alloc_max h s = Inr (f, h', s')" "length h = 14"
  shows "length h' = 14" "length (payload_data f) \<le> alloc_max"
  using ws_read_frame_Inr [of alloc_max h "view s" f h' "view s'"] ws_read_frame_sim [of alloc_max h s] assms
  by auto

lemma session_step_ok:
  assumes "session_step rd alloc_max S T" "session_ok S" "alloc_max + maxMsg < 2 ^ 64"
  shows "session_ok T"
  using assms(1)
proof cases
  case (frame f h s r fb w)
  have "length h = 14" "length (payload_data f) + maxMsg < 2 ^ 64"
    using ws_read_frame_bounds [OF frame(4)] assms(2,3) by (simp_all add: session_ok_def)
  then show ?thesis
    using frame handle_parsed_frame_ok [OF frame(5)] assms(2) by (simp add: session_ok_def)
next
  case (task t ts)
  then show ?thesis using assms(2) conn_ok_run_task by (simp add: session_ok_def)
qed (use assms(2) in \<open>simp_all add: session_ok_def conn_ok_close conn_ok_sock\<close>)

lemma reachable_ok:
  assumes "reachable rd alloc_max S T" "session_ok S" "alloc_max + maxMsg < 2 ^ 64"
  shows "session_ok T"
  using assms by (induction rule: reachable.induct) (auto dest: session_step_ok)

end

section \<open>A closed connection is silent\<close>

definition silent :: "websocket \<Rightarrow> bool" where
  "silent w \<longleftrightarrow> ws_state w = WS_CLOSED \<and> \<not> sock_ok w"

lemma silent_do_write:
  "silent w \<Longrightarrow> do_write bs w = (r, v) \<Longrightarrow> silent v \<and> events v = events w \<and> wire v = wire w"
  by (auto simp: do_write_def silent_def Let_def split: if_splits)

lemma silent_run_task:
  assumes "silent w"
  shows "silent (snd (run_task t w)) \<and> events (snd (run_task t w)) = events w \<and> wire (snd (run_task t w)) = wire w"
proof (cases t)
  case (TaskClose c r)
  obtain q v where v: "send_close_with_reason c r w = (q, v)" by fastforce
  then have s: "silent v" "events v = events w" "wire v = wire w"
    using silent_do_write [OF assms] by (auto simp: send_close_with_reason_def)
  then have "\<not> is_open v" by (simp add: silent_def is_open_def)
  then show ?thesis using TaskClose v s by (cases q) (simp_all add: close_closed)
qed (use assms in \<open>simp_all add: send_text_def send_binary_def silent_def\<close>)

lemma silent_step:
  assumes "session_step rd alloc_max S T" "silent (conn S)"
  shows "silent (conn T) \<and> events (conn T) = events (conn S) \<and> wire (conn T) = wire (conn S)"
  using assms(1)
proof cases
  case (task t ts)
  have "silent ((conn S)\<lparr>strand := ts\<rparr>)" using assms(2) by (simp add: silent_def)
  from silent_run_task [OF this] show ?thesis using task by simp
next
  case (server_close c r)
  then show ?thesis using assms(2) by (simp add: close_closed silent_def is_open_def)
qed (use assms(2) in \<open>simp_all add: silent_def run_call_eq\<close>)

lemma silent_reachable:
  assumes "reachable rd alloc_max S T" "silent (conn S)"
  shows "silent (conn T) \<and> events (conn T) = events (conn S) \<and> wire (conn T) = wire (conn S)"
  using assms by (induction rule: reachable.induct) (auto dest: silent_step)

lemma conn_ok_silent: "conn_ok w \<Longrightarrow> ws_state w = WS_CLOSED \<Longrightarrow> silent w"
  by (simp add: conn_ok_def silent_def)

section \<open>The whole loop keeps the invariant\<close>

context byte_stream
begin

lemma read_loop_ok:
  assumes "read_loop rd alloc_max fuel h fb s w = Some (e, fb', s', w')"
    "conn_ok w" "body_ok fb" "length h = 14" "alloc_max + maxMsg < 2 ^ 64"
  shows "conn_ok w'"
  using assms
proof (induction fuel arbitrary: h fb s w)
  case (Suc fuel)
  show ?case
  proof (cases "ws_state w = WS_OPEN")
    case False
    with Suc.prems show ?thesis by (simp add: read_loop.simps)
  next
    case True
    show ?thesis
    proof (cases "ws_read_frame rd alloc_max h s")
      case (Inl e)
      with True Suc.prems show ?thesis by (simp add: read_loop.simps)
    next
      case (Inr x)
      then obtain f h1 s1 where r: "ws_read_frame rd alloc_max h s = Inr (f, h1, s1)"
        by (cases x) auto
      note b = ws_read_frame_bounds [OF r Suc.prems(4)]
      obtain q fb1 w1 where q: "handle_parsed_frame f fb w = (q, fb1, w1)"
        by (cases "handle_parsed_frame f fb w") auto
      have "body_ok fb1 \<and> conn_ok w1"
        using handle_parsed_frame_ok [OF q Suc.prems(3,2)] b(2) Suc.prems(5) by simp
      then show ?thesis
        using Suc.IH [of h1 fb1 s1 w1] Suc.prems b(1) True r q
        by (cases q) (simp_all add: read_loop.simps)
    qed
  qed
qed simp

end

end
