(* ===== verification/Ws_Writer.thy ===== *)
theory Ws_Writer
  imports Ws_Conn
begin

text \<open>
  The write queue of a connection with its coroutines taken apart.  \<^verbatim>\<open>do_write\<close> suspends while a
  frame is on its way, and other senders run in between: they find \<^verbatim>\<open>is_writing_\<close> set and only
  queue their frame.  A step of \<open>write_step\<close> is what happens between two suspensions.  The abstract
  specification is an ordered channel: frames go out once each, in the order of the calls.
\<close>

record writer =
  wr_queue :: "bytes list"
  wr_writing :: bool
  wr_inflight :: "bytes option"
  wr_sent :: "bytes list"
  wr_log :: "bytes list"

text \<open>\<open>wr_log\<close> is history: every frame ever given to \<^verbatim>\<open>do_write\<close>.\<close>

definition new_writer :: writer where
  "new_writer = \<lparr>wr_queue = [], wr_writing = False, wr_inflight = None, wr_sent = [], wr_log = []\<rparr>"

text \<open>From the call to the first suspension or the return.\<close>

definition wr_enter :: "bytes \<Rightarrow> writer \<Rightarrow> writer" where
  "wr_enter bs s =
     (let s = s\<lparr>wr_queue := wr_queue s @ [bs], wr_log := wr_log s @ [bs]\<rparr>
      in if wr_writing s then s
         else s\<lparr>wr_writing := True, wr_inflight := Some (hd (wr_queue s))\<rparr>)"

text \<open>From the completion of a write to the next suspension or the end of the loop.\<close>

definition wr_complete :: "bytes \<Rightarrow> writer \<Rightarrow> writer" where
  "wr_complete m s =
     (let s = s\<lparr>wr_sent := wr_sent s @ [m], wr_queue := tl (wr_queue s)\<rparr>
      in if wr_queue s = [] then s\<lparr>wr_writing := False, wr_inflight := None\<rparr>
         else s\<lparr>wr_inflight := Some (hd (wr_queue s))\<rparr>)"

text \<open>A write that fails: the coroutine ends with the exception, nothing is reset.\<close>

definition wr_fail :: "writer \<Rightarrow> writer" where
  "wr_fail s = s\<lparr>wr_inflight := None\<rparr>"

inductive write_step :: "writer \<Rightarrow> writer \<Rightarrow> bool" where
  enter: "write_step s (wr_enter bs s)"
| complete: "wr_inflight s = Some m \<Longrightarrow> write_step s (wr_complete m s)"
| failed: "wr_inflight s = Some m \<Longrightarrow> write_step s (wr_fail s)"

inductive writes :: "writer \<Rightarrow> writer \<Rightarrow> bool" where
  writes_refl: "writes s s"
| writes_step: "writes s t \<Longrightarrow> write_step t u \<Longrightarrow> writes s u"

inductive_cases write_stepE: "write_step s t"

section \<open>The queue discipline\<close>

definition wr_ok :: "writer \<Rightarrow> bool" where
  "wr_ok s \<longleftrightarrow> wr_sent s @ wr_queue s = wr_log s \<and>
     (wr_queue s \<noteq> [] \<longrightarrow> wr_writing s) \<and>
     (\<forall>m. wr_inflight s = Some m \<longrightarrow> wr_writing s \<and> (\<exists>q. wr_queue s = m # q)) \<and>
     (\<not> wr_writing s \<longrightarrow> wr_inflight s = None)"

lemma wr_ok_new: "wr_ok new_writer"
  by (simp add: wr_ok_def new_writer_def)

lemma wr_ok_enter: "wr_ok s \<Longrightarrow> wr_ok (wr_enter bs s)"
  by (cases "wr_queue s") (auto simp: wr_ok_def wr_enter_def Let_def simp flip: append_assoc)

lemma wr_ok_complete:
  assumes "wr_ok s" "wr_inflight s = Some m"
  shows "wr_ok (wr_complete m s)"
proof -
  obtain q where q: "wr_queue s = m # q" using assms by (auto simp: wr_ok_def)
  with assms show ?thesis by (cases q) (auto simp: wr_ok_def wr_complete_def)
qed

lemma wr_ok_fail: "wr_ok s \<Longrightarrow> wr_ok (wr_fail s)"
  by (simp add: wr_ok_def wr_fail_def)

lemma write_step_ok: "write_step s t \<Longrightarrow> wr_ok s \<Longrightarrow> wr_ok t"
  by (auto elim!: write_stepE intro: wr_ok_enter wr_ok_complete wr_ok_fail)

lemma writes_ok: "writes s t \<Longrightarrow> wr_ok s \<Longrightarrow> wr_ok t"
  by (induction rule: writes.induct) (auto intro: write_step_ok)

text \<open>Steps extend the log and what was sent; neither is ever taken back.\<close>

lemma write_step_mono: "write_step s t \<Longrightarrow> \<exists>x y. wr_log t = wr_log s @ x \<and> wr_sent t = wr_sent s @ y"
  by (auto elim!: write_stepE simp: wr_enter_def wr_complete_def wr_fail_def Let_def)

section \<open>A failed writer never recovers\<close>

definition wr_stuck :: "writer \<Rightarrow> bool" where
  "wr_stuck s \<longleftrightarrow> wr_writing s \<and> wr_inflight s = None"

lemma wr_stuck_fail: "wr_ok s \<Longrightarrow> wr_inflight s = Some m \<Longrightarrow> wr_stuck (wr_fail s)"
  by (auto simp: wr_stuck_def wr_fail_def wr_ok_def)

lemma wr_stuck_step: "write_step s t \<Longrightarrow> wr_stuck s \<Longrightarrow> wr_stuck t \<and> wr_sent t = wr_sent s"
  by (auto elim!: write_stepE simp: wr_stuck_def wr_enter_def Let_def)

lemma wr_stuck_writes: "writes s t \<Longrightarrow> wr_stuck s \<Longrightarrow> wr_stuck t \<and> wr_sent t = wr_sent s"
  by (induction rule: writes.induct) (auto dest: wr_stuck_step)

section \<open>Running a writer to the end\<close>

text \<open>Let every pending write complete.\<close>

fun wr_drain :: "nat \<Rightarrow> writer \<Rightarrow> writer" where
  "wr_drain 0 s = s"
| "wr_drain (Suc n) s = (case wr_inflight s of None \<Rightarrow> s | Some m \<Rightarrow> wr_drain n (wr_complete m s))"

lemma writes_trans: "writes t u \<Longrightarrow> writes s t \<Longrightarrow> writes s u"
  by (induction rule: writes.induct) (auto intro: writes.intros)

lemma wr_drain_writes: "writes s (wr_drain n s)"
proof (induction n arbitrary: s)
  case (Suc n)
  show ?case
  proof (cases "wr_inflight s")
    case (Some m)
    then have "writes s (wr_complete m s)" by (blast intro: writes.intros write_step.complete)
    with Some Suc.IH [of "wr_complete m s"] show ?thesis by (simp add: writes_trans)
  qed (simp add: writes_refl)
qed (simp add: writes_refl)

lemma wr_drain_all:
  assumes "wr_ok s" "\<not> wr_stuck s" "length (wr_queue s) \<le> n"
  shows "wr_queue (wr_drain n s) = [] \<and> \<not> wr_writing (wr_drain n s) \<and>
    wr_sent (wr_drain n s) = wr_sent s @ wr_queue s"
  using assms
proof (induction n arbitrary: s)
  case 0
  then have "\<not> wr_writing s" by (auto simp: wr_ok_def wr_stuck_def)
  with 0 show ?case by simp
next
  case (Suc n)
  show ?case
  proof (cases "wr_inflight s")
    case None
    with Suc.prems show ?thesis by (auto simp: wr_stuck_def wr_ok_def)
  next
    case (Some m)
    then obtain q where q: "wr_queue s = m # q" using Suc.prems(1) by (auto simp: wr_ok_def)
    then have c: "wr_queue (wr_complete m s) = q" "wr_sent (wr_complete m s) = wr_sent s @ [m]"
      by (simp_all add: wr_complete_def Let_def)
    have "\<not> wr_stuck (wr_complete m s)"
      by (simp add: wr_stuck_def wr_complete_def Let_def)
    with Suc.IH [of "wr_complete m s"] wr_ok_complete [OF Suc.prems(1) Some] Suc.prems(3) q c Some
    show ?thesis by simp
  qed
qed

section \<open>An ordered channel\<close>

text \<open>
  The contract senders rely on: what is put last comes out last.  It is kept by the write queue
  (entries in the log) and by \<^const>\<open>do_write\<close> on a connection (bytes handed to the writer).
\<close>

locale ordered_channel =
  fixes put :: "'m \<Rightarrow> 's \<Rightarrow> 's" and out :: "'s \<Rightarrow> 'x list" and image :: "'m \<Rightarrow> 'x list"
  assumes out_put: "out (put m s) = out s @ image m"
begin

lemma out_fold: "out (fold put ms s) = out s @ concat (map image ms)"
  by (induction ms arbitrary: s) (simp_all add: out_put)

end

interpretation queue_channel: ordered_channel wr_enter wr_log "\<lambda>bs. [bs]"
  by unfold_locales (simp add: wr_enter_def Let_def)

interpretation conn_channel: ordered_channel "\<lambda>bs w. snd (do_write bs w)" out_log "\<lambda>bs. bs"
  by unfold_locales (rule do_write_out_log)

section \<open>The uninterrupted \<open>do_write\<close> is a run of the stepwise one\<close>

definition writer_of :: "websocket \<Rightarrow> writer" where
  "writer_of w = \<lparr>wr_queue = write_queue w, wr_writing = is_writing w, wr_inflight = None,
     wr_sent = [], wr_log = write_queue w\<rparr>"

lemma do_write_drain:
  assumes "writer_idle w"
  shows "wire (snd (do_write bs w)) = wire w @ concat (wr_sent (wr_drain 1 (wr_enter bs (writer_of w))))"
    and "write_queue (snd (do_write bs w)) = wr_queue (wr_drain 1 (wr_enter bs (writer_of w)))"
    and "is_writing (snd (do_write bs w)) = wr_writing (wr_drain 1 (wr_enter bs (writer_of w)))"
  using assms by (simp_all add: writer_idle_def do_write_idle writer_of_def wr_enter_def wr_complete_def)

end
