(* ===== verification/Ws_Properties.thy ===== *)
theory Ws_Properties
  imports Ws_Session Ws_Writer
begin

text \<open>
  The properties of the WebSocket side of the server, stated over the definitions of the frame,
  reader, connection, session and writer theories, each with a concrete instance where it has
  hypotheses.
\<close>

section \<open>Frames\<close>

text \<open>
  C1: Round trip of the wire format.  Whatever frame the code serialises, masked or not and with
  any of the three length encodings, the server's reader gets back the same final bit, opcode,
  masking bit and payload, and leaves the rest of the stream untouched, however the network cuts
  the bytes into segments.
\<close>

theorem frame_round_trip:
  assumes "byte_stream rd view" "view s = write_frame f @ rest" "length header = 14"
    "length (payload_data f) < 2 ^ 64" "length (payload_data f) \<le> alloc_max"
  shows "\<exists>g header' s'. ws_read_frame rd alloc_max header s = Inr (g, header', s') \<and>
    fin g = fin f \<and> opcode g = opcode f AND 0x0F \<and> mask_bit g = mask_bit f \<and>
    payload_data g = payload_data f \<and> payload_length g = of_nat (length (payload_data f)) \<and>
    length header' = 14 \<and> view s' = rest"
proof -
  have "payload_length (received f) = of_nat (length (payload_data f))"
    by (simp add: received_def)
  with byte_stream.ws_read_write_stream [OF assms] show ?thesis
    by (metis received_simps)
qed

theorem frame_round_trip_witness:
  "\<exists>g header' s'. ws_read_frame seg_read 100 (replicate 14 0) [[0x81, 0x82, 1], [2, 3, 4, 0x69], [0x6B, 7]] =
      Inr (g, header', s') \<and> fin g \<and> opcode g = 1 \<and> mask_bit g \<and> payload_data g = [0x68, 0x69] \<and>
      payload_length g = 2 \<and> length header' = 14 \<and> concat s' = [7]"
  using frame_round_trip [OF seg_stream.byte_stream_axioms, of "[[0x81, 0x82, 1], [2, 3, 4, 0x69], [0x6B, 7]]"
      "empty_frame\<lparr>fin := True, opcode := 1, mask_bit := True, masking_key := 0x01020304,
         payload_data := [0x68, 0x69]\<rparr>" "[7]" "replicate 14 0" 100]
  by (simp add: empty_frame_def write_frame_def length_bytes_def key_bytes_def)

section \<open>Messages\<close>

text \<open>
  C2: Reassembly refines the specification.  For every conforming sequence of frames, whole or
  fragmented messages with control frames between the fragments, the read loop calls the message
  handler with exactly the messages of the specification, in order, answers every ping with a pong
  that carries the same payload, and is still open when the stream ends.
\<close>

theorem server_delivers_messages:
  assumes "byte_stream rd view" "conforming maxMsg None fs ms ps" "maxMsg \<le> alloc_max" "live w"
    "view s = concat (map write_frame fs)" "length fs < fuel"
  shows "\<exists>fb' s' w'. do_read_loop rd alloc_max fuel s w = Some (LoopError NetEof, fb', s', w') \<and>
    events w' = events w @ (if on_message (handlers w) = None then [] else map EvMessage ms) \<and>
    wire w' = wire w @ concat (map (\<lambda>p. write_frame (data_frame WS_PONG p)) ps) \<and>
    is_open w'"
  using byte_stream.do_read_loop_eof [OF assms] live_open [OF assms(4)]
  by (fastforce simp: traffic_eq concat_message_events)

definition echo_socket :: websocket where
  "echo_socket = set_server_cleanup (new_websocket (Some echo_handlers) 7)"

lemma live_echo_socket [simp]: "live echo_socket"
  by (simp add: live_def is_open_def writer_idle_def echo_socket_def new_websocket_def set_server_cleanup_def)

definition sample_frames :: "ws_frame list" where
  "sample_frames = [part_frame WS_TEXT False [0x61, 0x62], data_frame WS_PING [0x78],
     part_frame WS_CONT True [0x63]]"

lemma sample_conforming: "conforming maxMsg None sample_frames [[0x61, 0x62, 0x63]] [[0x78]]"
proof -
  have "conforming maxMsg (Some [0x61, 0x62]) [part_frame WS_CONT True [0x63]] [[0x61, 0x62, 0x63]] []"
    using conf_last [of "part_frame WS_CONT True [0x63]" "[0x61, 0x62]" maxMsg "[]" "[]" "[]"]
    by (simp add: maxMsg_def conf_end)
  then have "conforming maxMsg (Some [0x61, 0x62])
      [data_frame WS_PING [0x78], part_frame WS_CONT True [0x63]] [[0x61, 0x62, 0x63]] [[0x78]]"
    using conf_ping [of "data_frame WS_PING [0x78]"] by (simp add: data_frame_def)
  then show ?thesis
    unfolding sample_frames_def by (intro conf_first) (simp_all add: maxMsg_def)
qed

theorem server_delivers_messages_witness:
  "\<exists>fb' s' w'. do_read_loop list_read maxMsg 4 (concat (map write_frame sample_frames)) echo_socket =
      Some (LoopError NetEof, fb', s', w') \<and>
    events w' = [EvMessage [0x61, 0x62, 0x63]] \<and>
    wire w' = write_frame (data_frame WS_PONG [0x78]) \<and> is_open w'"
proof -
  have "length sample_frames < 4" by (simp add: sample_frames_def)
  from server_delivers_messages [OF list_stream.byte_stream_axioms sample_conforming order_refl
      live_echo_socket id_apply this]
  show ?thesis
    by (simp add: echo_socket_def new_websocket_def set_server_cleanup_def echo_handlers_def)
qed

text \<open>
  Fragmentation is invisible.  However a message is cut into a first frame and
  continuations, the connection ends up in the same state: the one after a single delivery of the
  whole message.
\<close>

theorem fragmentation_invisible:
  assumes "op = WS_TEXT \<or> op = WS_BINARY" "parts \<noteq> []" "length (concat parts) \<le> maxMsg" "live w"
    "length parts < fuel"
  shows "\<exists>fb' s'. do_read_loop list_read maxMsg fuel (concat (map write_frame (split_frames op parts))) w =
    Some (LoopError NetEof, fb', s', fire_message (concat parts) w)"
proof -
  have c: "conforming maxMsg None (split_frames op parts) [concat parts] []"
    using conforming_split [OF assms(1-3) conf_end] by simp
  have "length (cont_frames ps) = length ps" for ps by (induction ps) simp_all
  then have "length (split_frames op parts) = length parts"
    by (cases parts) simp_all
  with list_stream.do_read_loop_eof [OF c order_refl assms(4), of "concat (map write_frame (split_frames op parts))" fuel]
    assms(4,5)
  show ?thesis by (simp add: traffic_def fire_message_live live_open)
qed

theorem fragmentation_invisible_witness:
  "\<exists>fb' s'. do_read_loop list_read maxMsg 3
      (concat (map write_frame (split_frames WS_BINARY [[1, 2], [3]]))) echo_socket =
    Some (LoopError NetEof, fb', s', fire_message [1, 2, 3] echo_socket)"
  using fragmentation_invisible [of WS_BINARY "[[1, 2], [3]]" echo_socket 3] by (simp add: maxMsg_def)

text \<open>
  An echo handler echoes.  With the handler of the tests and examples, which sends every
  message back, the coroutines the loop leaves on the strand write one text frame per message, in
  the order the messages came in.
\<close>

theorem echo_in_order:
  assumes "conforming maxMsg None fs ms ps" "live w" "handlers w = echo_handlers" "strand w = []"
    "length fs < fuel"
  shows "\<exists>fb' s' w'. do_read_loop list_read maxMsg fuel (concat (map write_frame fs)) w =
      Some (LoopError NetEof, fb', s', w') \<and>
    wire (run_tasks (strand w') w') = wire w' @ concat (map (\<lambda>m. write_frame (data_frame WS_TEXT m)) ms)"
proof -
  have "run_tasks (strand (traffic ms ps w)) (traffic ms ps w) =
      (traffic ms ps w)\<lparr>wire := wire (traffic ms ps w) @ concat (map (\<lambda>m. write_frame (data_frame WS_TEXT m)) ms)\<rparr>"
    using run_tasks_echo [OF assms(2-4)] .
  with list_stream.do_read_loop_eof [OF assms(1) order_refl assms(2) id_apply assms(5)]
  show ?thesis by fastforce
qed

theorem echo_in_order_witness:
  "\<exists>fb' s' w'. do_read_loop list_read maxMsg 4 (concat (map write_frame sample_frames)) echo_socket =
      Some (LoopError NetEof, fb', s', w') \<and>
    wire (run_tasks (strand w') w') = wire w' @ write_frame (data_frame WS_TEXT [0x61, 0x62, 0x63])"
proof -
  have "handlers echo_socket = echo_handlers" "strand echo_socket = []" "length sample_frames < 4"
    by (simp_all add: echo_socket_def new_websocket_def set_server_cleanup_def sample_frames_def)
  from echo_in_order [OF sample_conforming live_echo_socket this] show ?thesis by simp
qed

section \<open>Closing\<close>

text \<open>
  C17: The close handshake.  A close frame after conforming traffic is answered with a close frame
  that carries the peer's code and as much of its reason as fits; then the state is closed, the
  close handler has been called with the peer's code and full reason, the server's cleanup has run
  with the identifier of the connection, the loop has ended and the rest of the stream is unread.
\<close>

theorem close_handshake:
  assumes "byte_stream rd view" "conforming maxMsg None fs ms ps" "maxMsg \<le> alloc_max" "live w"
    and "opcode f = WS_CLOSE" "fin f" "payload_data f = build_close_payload code reason" "length reason \<le> 123"
    and "view s = concat (map write_frame fs) @ write_frame f @ rest" "length fs + 1 < fuel"
    and "server_cleanup w"
  shows "\<exists>fb' s' w' evs out. do_read_loop rd alloc_max fuel s w = Some (LoopClosed, fb', s', w') \<and>
    ws_state w' = WS_CLOSED \<and> \<not> sock_ok w' \<and>
    events w' = evs @ close_events (handlers w) code reason @ [EvCleanup (ws_id w)] \<and>
    wire w' = out @ write_frame (data_frame WS_CLOSE (build_close_payload code reason)) \<and>
    view s' = rest"
proof -
  have len: "length (payload_data f) \<le> 125"
    using assms(7,8) by (simp add: length_build_close_payload)
  have cr: "close_payload_fields (payload_data f) = (code, reason)"
    using close_payload_round_trip [of code reason] assms(7,8) by simp
  have "is_open (close_sent code reason (traffic ms ps w))"
    using assms(4) by (simp add: live_open)
  with byte_stream.do_read_loop_close [OF assms(1-6) len assms(9,10) cr] assms(11)
  show ?thesis by (fastforce simp: close_open close_sent_def traffic_eq)
qed

theorem close_handshake_witness:
  "\<exists>fb' s' w' evs out. do_read_loop seg_read maxMsg 5
      [concat (map write_frame sample_frames),
       write_frame (data_frame WS_CLOSE (build_close_payload 1001 [0x62, 0x79, 0x65])) @ [9]] echo_socket =
      Some (LoopClosed, fb', s', w') \<and>
    ws_state w' = WS_CLOSED \<and> \<not> sock_ok w' \<and>
    events w' = evs @ [EvClose 1001 [0x62, 0x79, 0x65]] @ [EvCleanup 7] \<and>
    wire w' = out @ write_frame (data_frame WS_CLOSE (build_close_payload 1001 [0x62, 0x79, 0x65])) \<and>
    concat s' = [9]"
proof -
  let ?f = "data_frame WS_CLOSE (build_close_payload 1001 [0x62, 0x79, 0x65])"
  have f: "opcode ?f = WS_CLOSE" "fin ?f" "payload_data ?f = build_close_payload 1001 [0x62, 0x79, 0x65]"
    "length ([0x62, 0x79, 0x65] :: bytes) \<le> 123"
    by (simp_all add: data_frame_def)
  have v: "concat [concat (map write_frame sample_frames), write_frame ?f @ [9]] =
      concat (map write_frame sample_frames) @ write_frame ?f @ [9]" by simp
  have n: "length sample_frames + 1 < 5" "server_cleanup echo_socket"
    by (simp_all add: sample_frames_def echo_socket_def set_server_cleanup_def new_websocket_def)
  show ?thesis
    using close_handshake [OF seg_stream.byte_stream_axioms sample_conforming order_refl live_echo_socket f v n]
    by (simp add: close_events_def echo_socket_def set_server_cleanup_def new_websocket_def echo_handlers_def)
qed





text \<open>
  C15: The size limit holds.  In every reachable state, whatever frames arrived, no message longer
  than ten mebibytes has been given to the handler.
\<close>

theorem delivered_messages_bounded:
  assumes "byte_stream rd view" "reachable rd alloc_max (session_init hs n s) S"
    "alloc_max + maxMsg < 2 ^ 64" "EvMessage m \<in> set (events (conn S))"
  shows "length m \<le> 10 * 1024 * 1024"
  using byte_stream.reachable_ok [OF assms(1,2) session_ok_init assms(3)] assms(4)
  by (auto simp: session_ok_def conn_ok_def list_all_iff maxMsg_def)

theorem delivered_messages_bounded_witness:
  "\<exists>S. reachable list_read maxMsg (session_init echo_handlers 7 (write_frame (data_frame WS_TEXT [1]))) S \<and>
     EvMessage [1] \<in> set (events (conn S)) \<and> length ([1] :: bytes) \<le> 10 * 1024 * 1024"
proof -
  let ?I = "session_init echo_handlers 7 (write_frame (data_frame WS_TEXT [1]))"
  let ?f = "data_frame WS_TEXT [1]"
  have p: "payload_data ?f = [1]" by (simp add: data_frame_def)
  obtain h where h: "ws_read_frame list_read maxMsg (replicate 14 0) (write_frame ?f @ []) = Inr (received ?f, h, [])"
    using ws_read_write [of "replicate 14 0" ?f maxMsg "[]"] p by (auto simp: maxMsg_def)
  have l: "live (conn ?I)" and b: "body_at None (body ?I)"
    by (simp_all add: session_init_def fire_open_eq echo_handlers_def set_server_cleanup_def new_websocket_def
        live_def is_open_def writer_idle_def body_at_new)
  obtain fb where fb: "handle_parsed_frame (received ?f) (body ?I) (conn ?I) = (Done, fb, delivered [1] (conn ?I))"
    using handle_first [OF _ b l, of "received ?f"] by (auto simp: data_frame_def maxMsg_def)
  let ?S = "?I\<lparr>running := (Done = Done), hdr := h, body := fb, sock := [], conn := delivered [1] (conn ?I)\<rparr>"
  have "session_step list_read maxMsg ?I ?S"
    by (rule frame [OF _ _ _ fb]) (use h l in \<open>simp_all add: session_init_def live_def is_open_def\<close>)
  then have r: "reachable list_read maxMsg ?I ?S"
    by (rule reach_step [OF reach_refl])
  have m: "EvMessage [1] \<in> set (events (conn ?S))"
    by (simp add: delivered_def message_events_def session_init_def fire_open_eq echo_handlers_def
        set_server_cleanup_def new_websocket_def)
  have a: "maxMsg + maxMsg < 2 ^ 64" by (simp add: maxMsg_def)
  show ?thesis
    using delivered_messages_bounded [OF list_stream.byte_stream_axioms r a m] r m by blast
qed

section \<open>Ends and violations\<close>

text \<open>
  C23: The read loop returns on every finite stream, with a number of turns bounded by half the
  length of the stream, whatever bytes the peer sends and whatever the handlers do.
\<close>

theorem read_loop_terminates:
  assumes "byte_stream rd view" "length (view s) < 2 * fuel"
  shows "\<exists>e fb' s' w'. do_read_loop rd alloc_max fuel s w = Some (e, fb', s', w')"
  using byte_stream.do_read_loop_total [OF assms] by (metis prod.exhaust)

theorem read_loop_terminates_witness:
  "\<exists>e fb' s' w'. do_read_loop seg_read 100 4 [[0x8F, 0x85, 1], [2, 3], [4]] echo_socket = Some (e, fb', s', w')"
  using read_loop_terminates [OF seg_stream.byte_stream_axioms, of "[[0x8F, 0x85, 1], [2, 3], [4]]" 4]
  by simp

text \<open>
  C35: A peer that vanishes is never reported.  When the read loop ends with a read error the
  connection is still marked open and, if it was started in a fresh session, the server's cleanup
  has not run: neither the close handler nor the deregistration follows a lost connection.
\<close>

theorem lost_peer_keeps_connection_open:
  assumes "byte_stream rd view" "alloc_max + maxMsg < 2 ^ 64"
    "do_read_loop rd alloc_max fuel s (fire_open (set_server_cleanup (new_websocket (Some hs) n))) =
      Some (LoopError e, fb', s', w')"
  shows "ws_state w' = WS_OPEN \<and> (\<forall>k. EvCleanup k \<notin> set (events w'))"
proof -
  let ?w = "fire_open (set_server_cleanup (new_websocket (Some hs) n))"
  have "conn_ok ?w" using session_ok_init [of hs n s] by (simp add: session_ok_def session_init_def)
  then have "conn_ok w'"
    using byte_stream.read_loop_ok [OF assms(1) assms(3) [unfolded do_read_loop_def] _ _ _ assms(2)]
    by (simp add: body_ok_def new_body_def)
  moreover have o: "ws_state w' = WS_OPEN"
    using read_loop_error_open [OF assms(3) [unfolded do_read_loop_def]] by (simp add: is_open_def)
  ultimately have "filter is_cleanup (events w') = []"
    by (simp add: conn_ok_def cleanups_def)
  then have "\<forall>k. EvCleanup k \<notin> set (events w')"
    by (metis filter_empty_conv is_cleanup.simps(1))
  with o show ?thesis by simp
qed

theorem lost_peer_keeps_connection_open_witness:
  "\<exists>fb' s' w'. do_read_loop list_read maxMsg 1 [] (fire_open (set_server_cleanup (new_websocket (Some echo_handlers) 7))) =
      Some (LoopError NetEof, fb', s', w') \<and>
    ws_state w' = WS_OPEN \<and> (\<forall>k. EvCleanup k \<notin> set (events w'))"
proof -
  let ?w = "fire_open (set_server_cleanup (new_websocket (Some echo_handlers) 7))"
  have "is_open ?w"
    by (simp add: fire_open_eq is_open_def set_server_cleanup_def new_websocket_def)
  then have r: "do_read_loop list_read maxMsg 1 [] ?w = Some (LoopError NetEof, new_body maxMsgSize, [], ?w)"
    using read_loop_eof [of ?w maxMsg 0] by (simp add: do_read_loop_def)
  have a: "maxMsg + maxMsg < 2 ^ 64" by (simp add: maxMsg_def)
  show ?thesis
    using lost_peer_keeps_connection_open [OF list_stream.byte_stream_axioms a r] r by blast
qed

text \<open>
  A violation of the protocol does not end the connection.  A fragmented control frame or a
  new data frame inside a message is answered with a close frame of code 1002 and reported to the
  close handler, but the connection stays open and usable: a second violation is answered and
  reported again.
\<close>

theorem protocol_errors_repeat:
  assumes "violates f fb" "violates g fb" "live w" "on_close (handlers w) \<noteq> None"
    "handle_parsed_frame f fb w = (r, fb', w')" "handle_parsed_frame g fb' w' = (r', fb'', w'')"
  shows "r' = Done \<and> fb'' = fb \<and> live w'' \<and>
    (\<exists>a b. events w'' = events w @ [EvClose 1002 a, EvClose 1002 b] \<and>
       wire w'' = wire w @ write_frame (data_frame WS_CLOSE (build_close_payload 1002 a)) @
         write_frame (data_frame WS_CLOSE (build_close_payload 1002 b)))"
proof -
  obtain a where a: "r = Done" "fb' = fb" "w' = fire_close 1002 a (close_sent 1002 a w)"
    using handle_violation [OF assms(1,3)] assms(5) by auto
  have w': "live w'" using assms(3) a by simp
  obtain b where b: "r' = Done" "fb'' = fb" "w'' = fire_close 1002 b (close_sent 1002 b w')"
    using handle_violation [OF assms(2) w'] assms(6) a(2) by auto
  have "events w'' = events w @ [EvClose 1002 a, EvClose 1002 b]"
    "wire w'' = wire w @ write_frame (data_frame WS_CLOSE (build_close_payload 1002 a)) @
         write_frame (data_frame WS_CLOSE (build_close_payload 1002 b))"
    using assms(4) by (simp_all add: a b fire_close_eq close_sent_def close_events_def)
  then show ?thesis using b w' by auto
qed

theorem protocol_errors_repeat_witness:
  "\<exists>w''. live w'' \<and> (\<exists>a b. events w'' = [EvClose 1002 a, EvClose 1002 b])"
proof -
  let ?f = "part_frame WS_PING False []"
  have v: "violates ?f (new_body maxMsgSize)" by (simp add: violates_def)
  obtain r fb' w' where 1: "handle_parsed_frame ?f (new_body maxMsgSize) echo_socket = (r, fb', w')"
    by (cases "handle_parsed_frame ?f (new_body maxMsgSize) echo_socket") auto
  obtain r' fb'' w'' where 2: "handle_parsed_frame ?f fb' w' = (r', fb'', w'')"
    by (cases "handle_parsed_frame ?f fb' w'") auto
  have h: "on_close (handlers echo_socket) \<noteq> None" "events echo_socket = []"
    by (simp_all add: echo_socket_def set_server_cleanup_def new_websocket_def echo_handlers_def)
  show ?thesis
    using protocol_errors_repeat [OF v v live_echo_socket h(1) 1 2] h(2) by auto
qed

text \<open>
  C34: A continuation frame that continues nothing is refused and delivered.  The handler of the
  frame lacks the return of the other error branches: after the close frame and the call of the
  close handler the payload goes to the message handler as a message.
\<close>

theorem orphan_continuation_delivered:
  assumes "opcode f = WS_CONT" "fin f" "body_at None fb" "msg fb = []" "live w"
    "length (payload_data f) \<le> maxMsg" "on_close (handlers w) \<noteq> None" "on_message (handlers w) \<noteq> None"
  shows "\<exists>r fb' w'. handle_parsed_frame f fb w = (Done, fb', w') \<and>
    events w' = events w @ [EvClose 1002 r, EvMessage (payload_data f)] \<and> ws_state w' = WS_OPEN"
proof -
  let ?r = "str_bytes ''Continuation without initial frame''"
  let ?w = "fire_close 1002 ?r (close_sent 1002 ?r w)"
  have "live ?w" using assms(5) by simp
  then have o: "is_open ?w" by (rule live_open)
  have "\<not> assembling fb" "max_size fb = maxMsgSize" using assms(3) by (simp_all add: body_at_def)
  then have "handle_parsed_frame f fb w =
      (Done, fb_reset (fb\<lparr>msg := payload_data f\<rparr>), delivered (payload_data f) ?w)"
    using handle_orphan [OF assms(1) _ assms(5), of fb] append_and_deliver_fits [of fb f ?w] assms(2,4,6) o
    by (simp add: Let_def)
  moreover have "events (delivered (payload_data f) ?w) =
      events w @ [EvClose 1002 ?r, EvMessage (payload_data f)]"
    using assms(7,8) by (simp add: delivered_def fire_close_eq close_sent_def close_events_def message_events_def)
  moreover have "ws_state (delivered (payload_data f) ?w) = WS_OPEN"
    using o by (simp add: delivered_def is_open_def)
  ultimately show ?thesis by blast
qed

theorem orphan_continuation_delivered_witness:
  "\<exists>r fb' w'. handle_parsed_frame (part_frame WS_CONT True [0x68, 0x69]) (new_body maxMsgSize) echo_socket =
      (Done, fb', w') \<and>
    events w' = [EvClose 1002 r, EvMessage [0x68, 0x69]] \<and> ws_state w' = WS_OPEN"
  using orphan_continuation_delivered [of "part_frame WS_CONT True [0x68, 0x69]" "new_body maxMsgSize" echo_socket]
  by (simp add: body_at_new, simp add: new_body_def maxMsg_def echo_socket_def set_server_cleanup_def
      new_websocket_def echo_handlers_def)

text \<open>
  C33: An oversized message is refused.  A data frame above ten mebibytes is answered with a close
  frame of code 1009, reported to the close handler and dropped: no message is delivered, the
  buffer is empty again, and the connection stays open.
\<close>

theorem oversized_message_refused:
  assumes "opcode f = WS_TEXT \<or> opcode f = WS_BINARY" "body_at None fb" "live w"
    "10 * 1024 * 1024 < length (payload_data f)" "length (payload_data f) < 2 ^ 64"
  shows "\<exists>fb' w'. handle_parsed_frame f fb w = (Done, fb', w') \<and> body_at None fb' \<and> msg fb' = [] \<and>
    wire w' = wire w @ write_frame (data_frame WS_CLOSE
      (build_close_payload 1009 (str_bytes ''Message too big''))) \<and>
    events w' = events w @ close_events (handlers w) 1009 (str_bytes ''Message too big'') \<and>
    live w'"
proof -
  have "maxMsg < length (payload_data f)" using assms(4) by (simp add: maxMsg_def)
  from handle_too_big [OF assms(1-3) this assms(5)] show ?thesis
    using assms(2,3) by (simp add: Let_def fire_close_eq close_sent_def body_at_def fb_reset_def fb_start_def
        live_def writer_idle_def is_open_def)
qed

theorem oversized_message_refused_witness:
  "\<exists>fb' w'. handle_parsed_frame (data_frame WS_TEXT (replicate 10485761 0x41)) (new_body maxMsgSize) echo_socket =
      (Done, fb', w') \<and> msg fb' = [] \<and> live w' \<and>
    events w' = [EvClose 1009 (str_bytes ''Message too big'')]"
proof -
  have p: "payload_data (data_frame WS_TEXT x) = x" "opcode (data_frame WS_TEXT x) = WS_TEXT" for x
    by (simp_all add: data_frame_def)
  have e: "events echo_socket = []" "on_close (handlers echo_socket) = Some (\<lambda>c r. [])"
    by (simp_all add: echo_socket_def set_server_cleanup_def new_websocket_def echo_handlers_def)
  show ?thesis
    using oversized_message_refused [of "data_frame WS_TEXT (replicate 10485761 0x41)", OF _ body_at_new live_echo_socket]
    by (auto simp: p e close_events_def)
qed

section \<open>The write queue\<close>

text \<open>
  C14: Frames leave in the order of the calls.  In every state that interleaved senders can reach,
  with writes completing or failing at any moment, what has been sent followed by what is queued is
  the list of all frames ever given to \<^verbatim>\<open>do_write\<close>: none is lost, repeated, reordered or
  interleaved with another.
\<close>

theorem write_queue_fifo:
  assumes "writes new_writer s"
  shows "wr_sent s @ wr_queue s = wr_log s \<and> (\<forall>m. wr_inflight s = Some m \<longrightarrow> hd (wr_queue s) = m)"
  using writes_ok [OF assms wr_ok_new] by (auto simp: wr_ok_def)

theorem write_queue_fifo_witness:
  "writes new_writer (wr_complete [1] (wr_enter [2] (wr_enter [1] new_writer))) \<and>
   wr_sent (wr_complete [1] (wr_enter [2] (wr_enter [1] new_writer))) = [[1]] \<and>
   wr_queue (wr_complete [1] (wr_enter [2] (wr_enter [1] new_writer))) = [[2]]"
proof -
  let ?s = "wr_enter [2] (wr_enter [1] new_writer)"
  have i: "wr_inflight ?s = Some [1]" by (simp add: wr_enter_def new_writer_def)
  have w: "writes new_writer (wr_complete [1] ?s)"
    by (intro writes_step [OF _ write_step.complete [OF i]] writes_step [OF _ write_step.enter] writes_refl)
  show ?thesis
    using write_queue_fifo [OF w] w by (simp add: wr_complete_def wr_enter_def new_writer_def)
qed

text \<open>
  C24: Every frame is sent when writes succeed.  From any state without a failed write, letting the
  pending writes complete empties the queue, releases the writer flag and sends every frame ever
  queued, in order.
\<close>

theorem write_queue_drains:
  assumes "writes new_writer s" "\<not> wr_stuck s"
  shows "let t = wr_drain (length (wr_queue s)) s in
    writes s t \<and> wr_queue t = [] \<and> \<not> wr_writing t \<and> wr_sent t = wr_log s"
  using writes_ok [OF assms(1) wr_ok_new] wr_drain_all [OF _ assms(2) order_refl] wr_drain_writes [of s]
  by (simp add: Let_def) (simp add: wr_ok_def)

theorem write_queue_drains_witness:
  "wr_sent (wr_drain 2 (wr_enter [2] (wr_enter [1] new_writer))) = [[1], [2]]"
proof -
  let ?s = "wr_enter [2] (wr_enter [1] new_writer)"
  have w: "writes new_writer ?s" by (intro writes_step [OF _ write_step.enter] writes_refl)
  have s: "\<not> wr_stuck ?s" "length (wr_queue ?s) = 2" "wr_log ?s = [[1], [2]]"
    by (simp_all add: wr_stuck_def wr_enter_def new_writer_def)
  show ?thesis using write_queue_drains [OF w s(1)] unfolding s Let_def by blast
qed

text \<open>
  C37: One failed write silences the connection.  After a write fails the writer flag stays set:
  whatever is done afterwards, no further frame is ever sent.
\<close>

theorem failed_write_blocks:
  assumes "writes new_writer s" "wr_inflight s = Some m" "writes (wr_fail s) t"
  shows "wr_sent t = wr_sent s"
  using wr_stuck_writes [OF assms(3)] wr_stuck_fail [OF writes_ok [OF assms(1) wr_ok_new] assms(2)]
  by (simp add: wr_fail_def)

theorem failed_write_blocks_witness:
  "wr_sent (wr_enter [2] (wr_fail (wr_enter [1] new_writer))) = [] \<and>
   wr_queue (wr_enter [2] (wr_fail (wr_enter [1] new_writer))) = [[1], [2]]"
proof -
  let ?s = "wr_enter [1] new_writer"
  have w: "writes new_writer ?s" by (intro writes_step [OF _ write_step.enter] writes_refl)
  have i: "wr_inflight ?s = Some [1]" by (simp add: wr_enter_def new_writer_def)
  have t: "writes (wr_fail ?s) (wr_enter [2] (wr_fail ?s))"
    by (intro writes_step [OF _ write_step.enter] writes_refl)
  show ?thesis
    using failed_write_blocks [OF w i t] by (simp add: wr_enter_def wr_fail_def new_writer_def)
qed

end
