(* ===== verification/Http_Headers.thy ===== *)
theory Http_Headers
  imports Ws_Prelude "HOL-Library.Multiset"
begin

text \<open>
  The two containers of an HTTP message (\<^verbatim>\<open>include/http/request.h\<close>).  \<^verbatim>\<open>Headers\<close> is a hash map
  whose hash and equality ignore case; it is a list of entries with at most one entry per name,
  and the order in which C++ iterates over it is left open wherever the code iterates.
  \<^verbatim>\<open>Params\<close> is a multimap: a list sorted by key in which equal keys keep their insertion order.
\<close>

section \<open>Case-insensitive names\<close>

text \<open>\<^verbatim>\<open>CaseInsensitiveHash\<close>, over a hash function for plain strings.\<close>

definition ci_hash :: "(string \<Rightarrow> u64) \<Rightarrow> string \<Rightarrow> u64" where
  "ci_hash std_hash s = std_hash (map to_lower s)"

text \<open>The loop of \<^verbatim>\<open>CaseInsensitiveEqual\<close> from index \<open>i\<close> on, \<open>n\<close> characters being left.\<close>

fun ci_equal_from :: "string \<Rightarrow> string \<Rightarrow> nat \<Rightarrow> nat \<Rightarrow> bool" where
  "ci_equal_from s1 s2 i 0 = True"
| "ci_equal_from s1 s2 i (Suc n) =
     (if to_lower (s1 ! i) \<noteq> to_lower (s2 ! i) then False else ci_equal_from s1 s2 (Suc i) n)"

definition ci_equal :: "string \<Rightarrow> string \<Rightarrow> bool" where
  "ci_equal s1 s2 = (if length s1 \<noteq> length s2 then False else ci_equal_from s1 s2 0 (length s1))"

lemma ci_equal_from_iff:
  "ci_equal_from s1 s2 i n \<longleftrightarrow> (\<forall>j. i \<le> j \<and> j < i + n \<longrightarrow> to_lower (s1 ! j) = to_lower (s2 ! j))"
proof (induction n arbitrary: i)
  case (Suc n)
  have "(\<forall>j. i \<le> j \<and> j < i + Suc n \<longrightarrow> P j) \<longleftrightarrow> P i \<and> (\<forall>j. Suc i \<le> j \<and> j < Suc i + n \<longrightarrow> P j)" for P
    by (metis Suc_leI add_Suc add_Suc_right le_add1 le_imp_less_Suc le_less nat_less_le Suc_leD)
  from this [of "\<lambda>j. to_lower (s1 ! j) = to_lower (s2 ! j)"] Suc show ?case by auto
qed auto

lemma ci_equal_iff: "ci_equal s1 s2 \<longleftrightarrow> map to_lower s1 = map to_lower s2"
  by (auto simp: ci_equal_def ci_equal_from_iff list_eq_iff_nth_eq)

lemma ci_equal_refl [simp]: "ci_equal s s"
  and ci_equal_sym: "ci_equal s t \<Longrightarrow> ci_equal t s"
  and ci_equal_trans: "ci_equal s t \<Longrightarrow> ci_equal t u \<Longrightarrow> ci_equal s u"
  by (simp_all add: ci_equal_iff)

section \<open>Header maps\<close>

type_synonym headers = "(string \<times> string) list"

text \<open>\<^verbatim>\<open>find\<close>, \<^verbatim>\<open>contains\<close>, \<^verbatim>\<open>headers[k] = v\<close> and \<^verbatim>\<open>emplace\<close>.\<close>

fun hdr_find :: "string \<Rightarrow> headers \<Rightarrow> string option" where
  "hdr_find k [] = None"
| "hdr_find k ((k', v) # h) = (if ci_equal k' k then Some v else hdr_find k h)"

definition hdr_contains :: "string \<Rightarrow> headers \<Rightarrow> bool" where
  "hdr_contains k h = (hdr_find k h \<noteq> None)"

fun hdr_set :: "string \<Rightarrow> string \<Rightarrow> headers \<Rightarrow> headers" where
  "hdr_set k v [] = [(k, v)]"
| "hdr_set k v ((k', v') # h) = (if ci_equal k' k then (k', v) # h else (k', v') # hdr_set k v h)"

definition hdr_emplace :: "string \<Rightarrow> string \<Rightarrow> headers \<Rightarrow> headers" where
  "hdr_emplace k v h = (if hdr_contains k h then h else h @ [(k, v)])"

text \<open>At most one entry per name.\<close>

definition hdr_ok :: "headers \<Rightarrow> bool" where
  "hdr_ok h \<longleftrightarrow> distinct (map (map to_lower \<circ> fst) h)"

lemma hdr_ok_Nil [simp]: "hdr_ok []"
  by (simp add: hdr_ok_def)

lemma hdr_set_keys:
  "map to_lower ` fst ` set (hdr_set k v h) = insert (map to_lower k) (map to_lower ` fst ` set h)"
  by (induction k v h rule: hdr_set.induct) (auto simp: ci_equal_iff)

lemma hdr_ok_set [simp]: "hdr_ok h \<Longrightarrow> hdr_ok (hdr_set k v h)"
proof (induction k v h rule: hdr_set.induct)
  case (2 k v k' v' h)
  then show ?case
    using hdr_set_keys [of k v h] by (force simp: hdr_ok_def ci_equal_iff image_comp)
qed (simp add: hdr_ok_def)

lemma hdr_find_cong: "ci_equal k k' \<Longrightarrow> hdr_find k h = hdr_find k' h"
  by (induction h) (auto simp: ci_equal_iff)

lemma hdr_find_set: "hdr_find k' (hdr_set k v h) = (if ci_equal k k' then Some v else hdr_find k' h)"
  by (induction k v h rule: hdr_set.induct) (auto simp: ci_equal_iff)

lemma hdr_find_append: "hdr_find k (h @ h') = (case hdr_find k h of None \<Rightarrow> hdr_find k h' | Some v \<Rightarrow> Some v)"
  by (induction h) auto

lemma hdr_find_emplace:
  "hdr_find k' (hdr_emplace k v h) =
    (if ci_equal k k' \<and> hdr_find k' h = None then Some v else hdr_find k' h)"
  using hdr_find_cong [of k k' h]
  by (auto simp: hdr_emplace_def hdr_contains_def hdr_find_append split: option.splits)

lemma hdr_set_fresh: "hdr_find k h = None \<Longrightarrow> hdr_set k v h = h @ [(k, v)]"
  by (induction k v h rule: hdr_set.induct) (auto split: if_splits)

text \<open>With one entry per name the order of the entries does not matter to a lookup.\<close>

lemma hdr_find_Some_iff:
  "hdr_ok h \<Longrightarrow> hdr_find k h = Some v \<longleftrightarrow> (\<exists>k'. (k', v) \<in> set h \<and> ci_equal k' k)"
proof (induction h)
  case (Cons e h)
  obtain a b where e: "e = (a, b)" by (cases e)
  show ?case
    using Cons by (force simp: e hdr_ok_def ci_equal_iff)
qed simp

lemma hdr_find_perm:
  assumes "hdr_ok h" "mset h = mset h'"
  shows "hdr_find k h' = hdr_find k h"
proof -
  have "hdr_ok h'"
    using assms by (metis hdr_ok_def mset_eq_imp_distinct_iff mset_map)
  moreover have "set h = set h'" using assms(2) by (rule mset_eq_setD)
  ultimately show ?thesis
    using hdr_find_Some_iff [OF assms(1)] hdr_find_Some_iff [of h']
    by (metis option.exhaust)
qed

text \<open>
  The order in which C++ iterates over a header map is not specified.  It is a function \<open>iter\<close> of
  the entries, of which only this is ever assumed: every entry is visited once.
\<close>

definition any_order :: "(headers \<Rightarrow> headers) \<Rightarrow> headers \<Rightarrow> bool" where
  "any_order iter h \<longleftrightarrow> mset (iter h) = mset h"

lemma any_order_set: "any_order iter h \<Longrightarrow> set (iter h) = set h"
  unfolding any_order_def by (rule mset_eq_setD)

section \<open>The interface of a header map\<close>

text \<open>What the message code relies on: a lookup sees the last assignment to an equal name.\<close>

locale name_map =
  fixes find :: "'k \<Rightarrow> 'm \<Rightarrow> 'v option" and assign :: "'k \<Rightarrow> 'v \<Rightarrow> 'm \<Rightarrow> 'm"
    and same :: "'k \<Rightarrow> 'k \<Rightarrow> bool" and empty :: 'm
  assumes find_empty: "find k empty = None"
    and find_assign: "find k' (assign k v m) = (if same k k' then Some v else find k' m)"
begin

definition assign_all :: "('k \<times> 'v) list \<Rightarrow> 'm \<Rightarrow> 'm" where
  "assign_all kvs m = foldl (\<lambda>m (k, v). assign k v m) m kvs"

text \<open>The last matching entry of a list of assignments.\<close>

definition last_match :: "'k \<Rightarrow> ('k \<times> 'v) list \<Rightarrow> 'v option" where
  "last_match k kvs = map_option snd (List.find (\<lambda>(k', v). same k' k) (rev kvs))"

lemma find_assign_all:
  "find k (assign_all kvs m) = (case last_match k kvs of None \<Rightarrow> find k m | Some v \<Rightarrow> Some v)"
proof (induction kvs rule: rev_induct)
  case Nil
  then show ?case by (simp add: assign_all_def last_match_def)
next
  case (snoc e kvs)
  obtain a b where "e = (a, b)" by (cases e)
  with snoc show ?case by (simp add: assign_all_def last_match_def find_assign)
qed

end

interpretation header_map: name_map hdr_find hdr_set ci_equal "[]"
  by unfold_locales (simp_all add: hdr_find_set)

section \<open>Query parameters\<close>

type_synonym params = "(string \<times> string) list"

text \<open>\<^verbatim>\<open>std::multimap::emplace\<close>: behind the entries whose key is not greater.\<close>

fun mm_emplace :: "string \<Rightarrow> string \<Rightarrow> params \<Rightarrow> params" where
  "mm_emplace k v [] = [(k, v)]"
| "mm_emplace k v ((k', v') # m) = (if k < k' then (k, v) # (k', v') # m else (k', v') # mm_emplace k v m)"

text \<open>\<^verbatim>\<open>equal_range\<close>: from the first key not less than \<open>k\<close> to the first greater one.\<close>

definition mm_equal_range :: "string \<Rightarrow> params \<Rightarrow> params" where
  "mm_equal_range k m = takeWhile (\<lambda>e. \<not> k < fst e) (dropWhile (\<lambda>e. fst e < k) m)"

definition mm_contains :: "string \<Rightarrow> params \<Rightarrow> bool" where
  "mm_contains k m = (mm_equal_range k m \<noteq> [])"

definition mm_ok :: "params \<Rightarrow> bool" where
  "mm_ok m \<longleftrightarrow> sorted (map fst m)"

lemma mm_ok_Nil [simp]: "mm_ok []"
  by (simp add: mm_ok_def)

lemma set_mm_emplace: "set (mm_emplace k v m) = insert (k, v) (set m)"
  by (induction k v m rule: mm_emplace.induct) auto

lemma mm_ok_emplace [simp]: "mm_ok m \<Longrightarrow> mm_ok (mm_emplace k v m)"
  by (induction k v m rule: mm_emplace.induct) (auto simp: mm_ok_def set_mm_emplace)

lemma mm_equal_range_eq: "mm_ok m \<Longrightarrow> mm_equal_range k m = filter (\<lambda>e. fst e = k) m"
proof (induction m)
  case (Cons e m)
  have m: "mm_ok m" "\<forall>x\<in>set m. fst e \<le> fst x" using Cons.prems by (simp_all add: mm_ok_def)
  consider "fst e < k" | "fst e = k" | "k < fst e" by (meson linorder_cases)
  then show ?case
  proof cases
    case 1
    with Cons.IH [OF m(1)] show ?thesis by (simp add: mm_equal_range_def)
  next
    case 2
    have "dropWhile (\<lambda>x. fst x < k) m = m"
      using m(2) 2 by (cases m) (auto simp: not_less)
    with 2 Cons.IH [OF m(1)] show ?thesis by (simp add: mm_equal_range_def)
  next
    case 3
    then have "filter (\<lambda>x. fst x = k) m = []" using m(2) by (auto simp: filter_empty_conv)
    with 3 show ?thesis by (auto simp: mm_equal_range_def)
  qed
qed (simp add: mm_equal_range_def)

lemma filter_mm_emplace:
  "mm_ok m \<Longrightarrow> filter (\<lambda>e. fst e = j) (mm_emplace k v m) =
    filter (\<lambda>e. fst e = j) m @ (if j = k then [(k, v)] else [])"
proof (induction k v m rule: mm_emplace.induct)
  case (2 k v k' v' m)
  show ?case
  proof (cases "k < k'")
    case True
    then have "filter (\<lambda>e. fst e = k) ((k', v') # m) = []"
      using 2(2) by (auto simp: mm_ok_def filter_empty_conv)
    with True show ?thesis by auto
  next
    case False
    with 2 show ?thesis by (auto simp: mm_ok_def)
  qed
qed simp

end
