(* ===== verification/Http_Status.thy ===== *)
theory Http_Status
  imports Ws_Prelude
begin

text \<open>
  The status codes of \<^verbatim>\<open>include/http/status_codes.h\<close>: the enumeration, and its values.
\<close>

datatype StatusCode =
    Continue_100 | SwitchingProtocol_101 | Processing_102 | EarlyHints_103 | OK_200
    | Created_201 | Accepted_202 | NonAuthoritativeInformation_203 | NoContent_204
    | ResetContent_205 | PartialContent_206 | MultiStatus_207 | AlreadyReported_208 | IMUsed_226
    | MultipleChoices_300 | MovedPermanently_301 | Found_302 | SeeOther_303 | NotModified_304
    | UseProxy_305 | unused_306 | TemporaryRedirect_307 | PermanentRedirect_308 | BadRequest_400
    | Unauthorized_401 | PaymentRequired_402 | Forbidden_403 | NotFound_404
    | MethodNotAllowed_405 | NotAcceptable_406 | ProxyAuthenticationRequired_407
    | RequestTimeout_408 | Conflict_409 | Gone_410 | LengthRequired_411 | PreconditionFailed_412
    | PayloadTooLarge_413 | UriTooLong_414 | UnsupportedMediaType_415 | RangeNotSatisfiable_416
    | ExpectationFailed_417 | ImATeapot_418 | MisdirectedRequest_421 | UnprocessableContent_422
    | Locked_423 | FailedDependency_424 | TooEarly_425 | UpgradeRequired_426
    | PreconditionRequired_428 | TooManyRequests_429 | RequestHeaderFieldsTooLarge_431
    | UnavailableForLegalReasons_451 | InternalServerError_500 | NotImplemented_501
    | BadGateway_502 | ServiceUnavailable_503 | GatewayTimeout_504 | HttpVersionNotSupported_505
    | VariantAlsoNegotiates_506 | InsufficientStorage_507 | LoopDetected_508 | NotExtended_510
    | NetworkAuthenticationRequired_511

text \<open>The value of an enumerator.\<close>

fun status_value :: "StatusCode \<Rightarrow> int" where
  "status_value Continue_100 = 100"
| "status_value SwitchingProtocol_101 = 101"
| "status_value Processing_102 = 102"
| "status_value EarlyHints_103 = 103"
| "status_value OK_200 = 200"
| "status_value Created_201 = 201"
| "status_value Accepted_202 = 202"
| "status_value NonAuthoritativeInformation_203 = 203"
| "status_value NoContent_204 = 204"
| "status_value ResetContent_205 = 205"
| "status_value PartialContent_206 = 206"
| "status_value MultiStatus_207 = 207"
| "status_value AlreadyReported_208 = 208"
| "status_value IMUsed_226 = 226"
| "status_value MultipleChoices_300 = 300"
| "status_value MovedPermanently_301 = 301"
| "status_value Found_302 = 302"
| "status_value SeeOther_303 = 303"
| "status_value NotModified_304 = 304"
| "status_value UseProxy_305 = 305"
| "status_value unused_306 = 306"
| "status_value TemporaryRedirect_307 = 307"
| "status_value PermanentRedirect_308 = 308"
| "status_value BadRequest_400 = 400"
| "status_value Unauthorized_401 = 401"
| "status_value PaymentRequired_402 = 402"
| "status_value Forbidden_403 = 403"
| "status_value NotFound_404 = 404"
| "status_value MethodNotAllowed_405 = 405"
| "status_value NotAcceptable_406 = 406"
| "status_value ProxyAuthenticationRequired_407 = 407"
| "status_value RequestTimeout_408 = 408"
| "status_value Conflict_409 = 409"
| "status_value Gone_410 = 410"
| "status_value LengthRequired_411 = 411"
| "status_value PreconditionFailed_412 = 412"
| "status_value PayloadTooLarge_413 = 413"
| "status_value UriTooLong_414 = 414"
| "status_value UnsupportedMediaType_415 = 415"
| "status_value RangeNotSatisfiable_416 = 416"
| "status_value ExpectationFailed_417 = 417"
| "status_value ImATeapot_418 = 418"
| "status_value MisdirectedRequest_421 = 421"
| "status_value UnprocessableContent_422 = 422"
| "status_value Locked_423 = 423"
| "status_value FailedDependency_424 = 424"
| "status_value TooEarly_425 = 425"
| "status_value UpgradeRequired_426 = 426"
| "status_value PreconditionRequired_428 = 428"
| "status_value TooManyRequests_429 = 429"
| "status_value RequestHeaderFieldsTooLarge_431 = 431"
| "status_value UnavailableForLegalReasons_451 = 451"
| "status_value InternalServerError_500 = 500"
| "status_value NotImplemented_501 = 501"
| "status_value BadGateway_502 = 502"
| "status_value ServiceUnavailable_503 = 503"
| "status_value GatewayTimeout_504 = 504"
| "status_value HttpVersionNotSupported_505 = 505"
| "status_value VariantAlsoNegotiates_506 = 506"
| "status_value InsufficientStorage_507 = 507"
| "status_value LoopDetected_508 = 508"
| "status_value NotExtended_510 = 510"
| "status_value NetworkAuthenticationRequired_511 = 511"

text \<open>The enumerators in the order of their declaration.\<close>

definition all_status_codes :: "StatusCode list" where
  "all_status_codes =
    [Continue_100, SwitchingProtocol_101, Processing_102, EarlyHints_103, OK_200, Created_201
     , Accepted_202, NonAuthoritativeInformation_203, NoContent_204, ResetContent_205
     , PartialContent_206, MultiStatus_207, AlreadyReported_208, IMUsed_226, MultipleChoices_300
     , MovedPermanently_301, Found_302, SeeOther_303, NotModified_304, UseProxy_305, unused_306
     , TemporaryRedirect_307, PermanentRedirect_308, BadRequest_400, Unauthorized_401
     , PaymentRequired_402, Forbidden_403, NotFound_404, MethodNotAllowed_405, NotAcceptable_406
     , ProxyAuthenticationRequired_407, RequestTimeout_408, Conflict_409, Gone_410
     , LengthRequired_411, PreconditionFailed_412, PayloadTooLarge_413, UriTooLong_414
     , UnsupportedMediaType_415, RangeNotSatisfiable_416, ExpectationFailed_417, ImATeapot_418
     , MisdirectedRequest_421, UnprocessableContent_422, Locked_423, FailedDependency_424
     , TooEarly_425, UpgradeRequired_426, PreconditionRequired_428, TooManyRequests_429
     , RequestHeaderFieldsTooLarge_431, UnavailableForLegalReasons_451, InternalServerError_500
     , NotImplemented_501, BadGateway_502, ServiceUnavailable_503, GatewayTimeout_504
     , HttpVersionNotSupported_505, VariantAlsoNegotiates_506, InsufficientStorage_507
     , LoopDetected_508, NotExtended_510, NetworkAuthenticationRequired_511]"

lemma all_status_codes: "c \<in> set all_status_codes"
  by (cases c) (simp_all add: all_status_codes_def)

text \<open>No two enumerators share a value, and they are declared in the order of their values.\<close>

lemma status_values_sorted: "sorted_wrt (<) (map status_value all_status_codes)"
  by (simp add: all_status_codes_def)

lemma status_value_inj: "status_value a = status_value b \<Longrightarrow> a = b"
proof -
  assume v: "status_value a = status_value b"
  have "inj_on status_value (set all_status_codes)"
    using status_values_sorted strict_sorted_iff [of "map status_value all_status_codes"] by (simp add: distinct_map)
  then show "a = b" using v all_status_codes by (blast dest: inj_onD)
qed

lemma status_value_range: "100 \<le> status_value c \<and> status_value c < 600"
  by (cases c) simp_all

end
