(* ===== verification/Http_Message.thy ===== *)
theory Http_Message
  imports Http_Headers Http_Status
begin

text \<open>
  Requests and responses: \<^verbatim>\<open>include/http/request.h\<close>, \<^verbatim>\<open>include/http/response.h\<close>,
  \<^verbatim>\<open>include/http/status_codes.h\<close> with \<^verbatim>\<open>src/http/request.cpp\<close> and \<^verbatim>\<open>src/http/response.cpp\<close>.
  Where the code iterates over the headers the order is the argument \<open>iter\<close>, of which only
  \<^const>\<open>any_order\<close> is ever assumed.
\<close>

section \<open>Methods\<close>

datatype http_method = GET | POST | PUT | DELETE | PATCH | HEAD | OPTIONS | UNKNOWN

definition method_str :: "http_method \<Rightarrow> string" where
  "method_str m = (case m of GET \<Rightarrow> ''GET'' | POST \<Rightarrow> ''POST'' | PUT \<Rightarrow> ''PUT'' | DELETE \<Rightarrow> ''DELETE''
     | PATCH \<Rightarrow> ''PATCH'' | HEAD \<Rightarrow> ''HEAD'' | OPTIONS \<Rightarrow> ''OPTIONS'' | UNKNOWN \<Rightarrow> ''UNKNOWN'')"

definition method_enum :: "string \<Rightarrow> http_method" where
  "method_enum s =
     (case map_of [(''GET'', GET), (''POST'', POST), (''PUT'', PUT), (''DELETE'', DELETE),
                   (''PATCH'', PATCH), (''HEAD'', HEAD), (''OPTIONS'', OPTIONS)] s of
        None \<Rightarrow> UNKNOWN | Some m \<Rightarrow> m)"

lemma method_enum_str [simp]: "method_enum (method_str m) = m"
  by (cases m) (simp_all add: method_enum_def method_str_def)

lemma method_str_word: "method_str m \<noteq> []" "no_space (method_str m)"
  by (cases m; simp add: method_str_def is_space_def)+

section \<open>Requests\<close>

record request =
  rq_method :: http_method
  rq_path :: string
  rq_version :: string
  rq_target :: string
  rq_headers :: headers
  rq_params :: params
  rq_body :: string

definition empty_request :: request where
  "empty_request = \<lparr>rq_method = UNKNOWN, rq_path = [], rq_version = [], rq_target = [],
     rq_headers = [], rq_params = [], rq_body = []\<rparr>"

definition rq_has_header :: "request \<Rightarrow> string \<Rightarrow> bool" where
  "rq_has_header r key = hdr_contains key (rq_headers r)"

definition header_value :: "headers \<Rightarrow> string \<Rightarrow> string" where
  "header_value h key = (case hdr_find key h of None \<Rightarrow> [] | Some v \<Rightarrow> v)"

definition rq_header :: "request \<Rightarrow> string \<Rightarrow> string" where
  "rq_header r key = header_value (rq_headers r) key"

definition has_param :: "request \<Rightarrow> string \<Rightarrow> bool" where
  "has_param r key = mm_contains key (rq_params r)"

text \<open>The loop over the range of equal keys, from position \<open>i\<close> on.\<close>

fun param_at :: "params \<Rightarrow> nat \<Rightarrow> nat \<Rightarrow> string" where
  "param_at [] i n = []"
| "param_at (e # es) i n = (if i = n then snd e else param_at es (Suc i) n)"

definition get_param_value :: "request \<Rightarrow> string \<Rightarrow> nat \<Rightarrow> string" where
  "get_param_value r key n = param_at (mm_equal_range key (rq_params r)) 0 n"

definition get_param_value_count :: "request \<Rightarrow> string \<Rightarrow> nat" where
  "get_param_value_count r key = length (mm_equal_range key (rq_params r))"

text \<open>A length header counts when all of it is one number.\<close>

definition parse_length :: "string \<Rightarrow> nat option" where
  "parse_length s =
     (if s = [] then None
      else case stoull s of
             None \<Rightarrow> None
           | Some (val, index) \<Rightarrow> if index \<noteq> length s then None else Some val)"

definition rq_content_length :: "request \<Rightarrow> nat option" where
  "rq_content_length r = parse_length (rq_header r ''content-length'')"

definition rq_content_type :: "request \<Rightarrow> string" where
  "rq_content_type r = rq_header r ''content-type''"

definition has_content_type :: "request \<Rightarrow> string \<Rightarrow> bool" where
  "has_content_type r sub_type =
     (let ct = rq_content_type r;
          ct = (case find_char (CHR '';'') ct of Some pos \<Rightarrow> take pos ct | None \<Rightarrow> ct)
      in ct = sub_type)"

definition header_line :: "string \<times> string \<Rightarrow> string" where
  "header_line e = fst e @ '': '' @ snd e @ crlf"

definition body_length_line :: "headers \<Rightarrow> string \<Rightarrow> string" where
  "body_length_line h body =
     (if body \<noteq> [] \<and> \<not> hdr_contains ''content-length'' h
      then ''Content-Length: '' @ dec (length body) @ crlf else [])"

definition rq_to_string :: "(headers \<Rightarrow> headers) \<Rightarrow> request \<Rightarrow> string" where
  "rq_to_string iter r =
     method_str (rq_method r) @ '' '' @ rq_target r @ '' '' @ rq_version r @ crlf @
     concat (map header_line (iter (rq_headers r))) @
     body_length_line (rq_headers r) (rq_body r) @ crlf @ rq_body r"

definition is_ws_upgrade :: "request \<Rightarrow> bool" where
  "is_ws_upgrade r =
     (if \<not> hdr_contains ''Upgrade'' (rq_headers r) \<or> \<not> hdr_contains ''Connection'' (rq_headers r) \<or>
         \<not> hdr_contains ''Sec-WebSocket-Key'' (rq_headers r)
      then False else True)"

section \<open>Responses\<close>

text \<open>The enumerators the code uses, as the integers they convert to.\<close>

definition OK_200 :: int where "OK_200 = status_value StatusCode.OK_200"
definition SwitchingProtocol_101 :: int where "SwitchingProtocol_101 = status_value StatusCode.SwitchingProtocol_101"
definition Found_302 :: int where "Found_302 = status_value StatusCode.Found_302"
definition BadRequest_400 :: int where "BadRequest_400 = status_value StatusCode.BadRequest_400"
definition NotFound_404 :: int where "NotFound_404 = status_value StatusCode.NotFound_404"
definition InternalServerError_500 :: int where
  "InternalServerError_500 = status_value StatusCode.InternalServerError_500"

lemma status_codes:
  "OK_200 = 200" "SwitchingProtocol_101 = 101" "Found_302 = 302" "BadRequest_400 = 400"
  "NotFound_404 = 404" "InternalServerError_500 = 500"
  by (simp_all add: OK_200_def SwitchingProtocol_101_def Found_302_def BadRequest_400_def NotFound_404_def
      InternalServerError_500_def)

record response =
  rs_version :: string
  rs_status :: int
  rs_headers :: headers
  rs_body :: string
  sendfile_path :: string
  sendfile_size :: nat

definition default_response :: response where
  "default_response = \<lparr>rs_version = ''HTTP/1.1'', rs_status = OK_200, rs_headers = [], rs_body = [],
     sendfile_path = [], sendfile_size = 0\<rparr>"

definition rs_has_header :: "response \<Rightarrow> string \<Rightarrow> bool" where
  "rs_has_header r key = hdr_contains key (rs_headers r)"

definition rs_header :: "response \<Rightarrow> string \<Rightarrow> string" where
  "rs_header r key = header_value (rs_headers r) key"

definition set_header :: "string \<Rightarrow> string \<Rightarrow> response \<Rightarrow> response" where
  "set_header key v r = r\<lparr>rs_headers := hdr_set key v (rs_headers r)\<rparr>"

definition set_content :: "string \<Rightarrow> string \<Rightarrow> response \<Rightarrow> response" where
  "set_content s content_type r = (r\<lparr>rs_body := s\<rparr>)\<lparr>rs_headers := hdr_set ''Content-Type'' content_type (rs_headers r)\<rparr>"

definition set_redirect :: "string \<Rightarrow> int \<Rightarrow> response \<Rightarrow> response" where
  "set_redirect url st r = (r\<lparr>rs_status := st\<rparr>)\<lparr>rs_headers := hdr_set ''location'' url (rs_headers r)\<rparr>"

definition rs_content_length :: "response \<Rightarrow> nat option" where
  "rs_content_length r = parse_length (rs_header r ''content-length'')"

definition rs_content_type :: "response \<Rightarrow> string" where
  "rs_content_type r = rs_header r ''content-type''"

definition reason_phrase :: "int \<Rightarrow> string" where
  "reason_phrase st =
     (if st = OK_200 then ''OK'' else if st = Found_302 then ''Found''
      else if st = BadRequest_400 then ''Bad Request'' else if st = NotFound_404 then ''Not Found''
      else if st = InternalServerError_500 then ''Internal Server Error'' else [])"

text \<open>Every other status is sent without a phrase, the upgrade to a WebSocket among them.\<close>

lemma reason_phrase_known:
  "reason_phrase (status_value c) \<noteq> [] \<longleftrightarrow>
    c \<in> {StatusCode.OK_200, StatusCode.Found_302, StatusCode.BadRequest_400, StatusCode.NotFound_404,
      StatusCode.InternalServerError_500}"
  by (cases c) (simp_all add: reason_phrase_def status_codes)

definition dec_int :: "int \<Rightarrow> string" where
  "dec_int i = (if i < 0 then CHR ''-'' # dec (nat (- i)) else dec (nat i))"

definition rs_to_string :: "(headers \<Rightarrow> headers) \<Rightarrow> response \<Rightarrow> string" where
  "rs_to_string iter r =
     rs_version r @ '' '' @ dec_int (rs_status r) @ '' '' @ reason_phrase (rs_status r) @ crlf @
     concat (map header_line (iter (rs_headers r))) @
     body_length_line (rs_headers r) (rs_body r) @ crlf @
     (if rs_body r \<noteq> [] then rs_body r else [])"

definition rs_to_string_header :: "(headers \<Rightarrow> headers) \<Rightarrow> response \<Rightarrow> string" where
  "rs_to_string_header iter r =
     rs_version r @ '' '' @ dec_int (rs_status r) @ '' '' @ reason_phrase (rs_status r) @ crlf @
     concat (map header_line (iter (rs_headers r))) @ crlf"

definition text_response :: "string \<Rightarrow> int \<Rightarrow> string \<Rightarrow> response" where
  "text_response s st charset =
     set_content s (''text/plain; charset='' @ charset) (default_response\<lparr>rs_status := st\<rparr>)"

definition json_response :: "string \<Rightarrow> int \<Rightarrow> response" where
  "json_response s st = set_content s ''application/json'' (default_response\<lparr>rs_status := st\<rparr>)"

definition html_response :: "string \<Rightarrow> int \<Rightarrow> response" where
  "html_response s st = set_content s ''text/html; charset=utf-8'' (default_response\<lparr>rs_status := st\<rparr>)"

definition not_found :: "string \<Rightarrow> response" where
  "not_found what = set_content
     (''<html><body><h1>404 Not Found</h1><p>'' @ what @ ''</p></body></html>'')
     ''text/html'' (default_response\<lparr>rs_status := NotFound_404\<rparr>)"

definition bad_request :: "string \<Rightarrow> response" where
  "bad_request message = set_content
     ([CHR ''{'', CHR 0x22] @ ''error'' @ [CHR 0x22, CHR '':'', CHR 0x22] @ message @ [CHR 0x22, CHR ''}''])
     ''application/json'' (default_response\<lparr>rs_status := BadRequest_400\<rparr>)"

section \<open>Lookups in messages\<close>

lemma rs_header_set_header:
  "rs_header (set_header k v r) k' = (if ci_equal k k' then v else rs_header r k')"
  by (simp add: rs_header_def header_value_def set_header_def hdr_find_set)

lemma rs_has_header_set_header:
  "rs_has_header (set_header k v r) k' \<longleftrightarrow> ci_equal k k' \<or> rs_has_header r k'"
  by (simp add: rs_has_header_def hdr_contains_def set_header_def hdr_find_set)

lemma set_header_frame [simp]:
  "rs_version (set_header k v r) = rs_version r" "rs_status (set_header k v r) = rs_status r"
  "rs_body (set_header k v r) = rs_body r" "sendfile_path (set_header k v r) = sendfile_path r"
  "sendfile_size (set_header k v r) = sendfile_size r"
  "rs_headers (set_header k v r) = hdr_set k v (rs_headers r)"
  by (simp_all add: set_header_def)

lemma parse_length_dec [simp]: "n < 2 ^ 64 \<Longrightarrow> parse_length (dec n) = Some n"
  by (simp add: parse_length_def)

lemma parse_length_bound: "parse_length s = Some n \<Longrightarrow> n < 2 ^ 64"
  by (auto simp: parse_length_def dest: stoull_bound split: if_splits option.splits)

lemma param_at_eq: "param_at es i n = (if i \<le> n \<and> n - i < length es then snd (es ! (n - i)) else [])"
proof (induction es arbitrary: i)
  case (Cons e es)
  then show ?case by (auto simp: nth_Cons' diff_Suc split: nat.splits) 
qed simp

end
