(* ===== verification/Http_Utils.thy ===== *)
theory Http_Utils
  imports Http_Message
begin

text \<open>
  The helpers of \<^verbatim>\<open>include/http/utils.h\<close>: base 64, the WebSocket accept key and the 101 response,
  trimming, the split of a request target into path and query, and the request parser.  The SHA-1
  digest (\<^verbatim>\<open>Chocobo1::SHA1\<close>, not part of the sources) is the parameter \<open>sha1\<close>.
\<close>

section \<open>Base 64\<close>

definition b64_table :: string where
  "b64_table = ''ABCDEFGHIJKLMNOPQRSTUVWXYZabcdefghijklmnopqrstuvwxyz0123456789+/''"

text \<open>The inner loop: a symbol for every six bits available.\<close>

function b64_flush :: "u32 \<Rightarrow> int \<Rightarrow> string \<Rightarrow> int \<times> string" where
  "b64_flush val valb out =
     (if valb \<ge> 0
      then b64_flush val (valb - 6) (out @ [b64_table ! unat (drop_bit (nat valb) val AND 0x3F)])
      else (valb, out))"
  by pat_completeness auto
termination by (relation "measure (\<lambda>(val, valb, out). nat (valb + 6))") auto

declare b64_flush.simps [simp del]

fun b64_loop :: "u32 \<Rightarrow> int \<Rightarrow> string \<Rightarrow> bytes \<Rightarrow> u32 \<times> int \<times> string" where
  "b64_loop val valb out [] = (val, valb, out)"
| "b64_loop val valb out (b # src) =
     (let val = push_bit 8 val OR ucast b;
          (valb, out) = b64_flush val (valb + 8) out
      in b64_loop val valb out src)"

text \<open>The last loop pads to a multiple of four.\<close>

function b64_pad :: "string \<Rightarrow> string" where
  "b64_pad out = (if length out mod 4 \<noteq> 0 then b64_pad (out @ ''='') else out)"
  by pat_completeness auto
termination
proof (relation "measure (\<lambda>out. (4 - length out mod 4) mod 4)")
  fix out :: string
  assume "length out mod 4 \<noteq> 0"
  then have "length out mod 4 = 1 \<or> length out mod 4 = 2 \<or> length out mod 4 = 3" by presburger
  then show "(out @ ''='', out) \<in> measure (\<lambda>out. (4 - length out mod 4) mod 4)"
    by (auto simp: mod_Suc)
qed simp

declare b64_pad.simps [simp del]

definition base64_encode :: "bytes \<Rightarrow> string" where
  "base64_encode src =
     (let (val, valb, out) = b64_loop 0 (-6) [] src;
          out = (if valb > -6
                 then out @ [b64_table ! unat (drop_bit (nat (valb + 8)) (push_bit 8 val) AND 0x3F)]
                 else out)
      in b64_pad out)"

subsection \<open>Reference: groups of three bytes\<close>

definition b64_sym :: "nat \<Rightarrow> u32 \<Rightarrow> char" where
  "b64_sym k g = b64_table ! unat (drop_bit (6 * k) g AND 0x3F)"

definition b64_group :: "byte \<Rightarrow> byte \<Rightarrow> byte \<Rightarrow> u32" where
  "b64_group a b c = push_bit 16 (ucast a) OR push_bit 8 (ucast b) OR ucast c"

fun b64_spec :: "bytes \<Rightarrow> string" where
  "b64_spec [] = []"
| "b64_spec [a] = [b64_sym 3 (b64_group a 0 0), b64_sym 2 (b64_group a 0 0), CHR ''='', CHR ''='']"
| "b64_spec [a, b] = [b64_sym 3 (b64_group a b 0), b64_sym 2 (b64_group a b 0), b64_sym 1 (b64_group a b 0), CHR ''='']"
| "b64_spec (a # b # c # r) =
     [b64_sym 3 (b64_group a b c), b64_sym 2 (b64_group a b c), b64_sym 1 (b64_group a b c),
      b64_sym 0 (b64_group a b c)] @ b64_spec r"

lemma and_0x3F: "(x :: 'a::len word) AND 0x3F = take_bit 6 x"
  by (simp add: take_bit_eq_mask mask_numeral)

lemma b64_flush_neg [simp]: "v < 0 \<Longrightarrow> b64_flush val v out = (v, out)"
  by (simp add: b64_flush.simps)

lemma b64_flush_one: "0 \<le> v \<Longrightarrow> b64_flush val v out =
  b64_flush val (v - 6) (out @ [b64_table ! unat (drop_bit (nat v) val AND 0x3F)])"
  by (simp add: b64_flush.simps)

text \<open>The six-bit windows of the shift register are those of the group.\<close>

lemma b64_windows:
  fixes val :: u32 and a b c :: byte
  defines "v1 \<equiv> push_bit 8 val OR ucast a"
  defines "v2 \<equiv> push_bit 8 v1 OR ucast b"
  defines "v3 \<equiv> push_bit 8 v2 OR ucast c"
  shows "drop_bit 2 v1 AND 0x3F = drop_bit 18 (b64_group a x y) AND 0x3F"
    and "drop_bit 4 v2 AND 0x3F = drop_bit 12 (b64_group a b y) AND 0x3F"
    and "drop_bit 6 v3 AND 0x3F = drop_bit 6 (b64_group a b c) AND 0x3F"
    and "v3 AND 0x3F = b64_group a b c AND 0x3F"
    and "drop_bit 4 (push_bit 8 v1) AND 0x3F = drop_bit 12 (b64_group a 0 0) AND 0x3F"
    and "drop_bit 6 (push_bit 8 v2) AND 0x3F = drop_bit 6 (b64_group a b 0) AND 0x3F"
  unfolding v3_def v2_def v1_def b64_group_def and_0x3F
  by (rule bit_word_eqI; auto simp: bit_simps dest: bit_imp_le_length)+

lemma b64_loop_group:
  "\<exists>val'. b64_loop val (-6) out (a # b # c # r) = b64_loop val' (-6) (out @
     [b64_sym 3 (b64_group a b c), b64_sym 2 (b64_group a b c), b64_sym 1 (b64_group a b c),
      b64_sym 0 (b64_group a b c)]) r"
  using b64_windows(1) [of val a b c] b64_windows(2) [of val a b c] b64_windows(3,4) [of val a b c]
  by (simp add: b64_flush_one b64_sym_def Let_def) blast

lemma b64_pad_done [simp]: "length out mod 4 = 0 \<Longrightarrow> b64_pad out = out"
  by (simp add: b64_pad.simps)

lemma b64_pad_more: "length out mod 4 \<noteq> 0 \<Longrightarrow> b64_pad out = b64_pad (out @ ''='')"
  by (subst b64_pad.simps) simp

lemma b64_finish:
  assumes "length out mod 4 = 0"
  shows "(let (val, valb, out) = b64_loop val (-6) out src;
          out = (if valb > -6
                 then out @ [b64_table ! unat (drop_bit (nat (valb + 8)) (push_bit 8 val) AND 0x3F)]
                 else out)
      in b64_pad out) = out @ b64_spec src"
  using assms
proof (induction src arbitrary: val out rule: b64_spec.induct)
  case (2 a)
  then show ?case
    using b64_windows(1) [of val a 0 0] b64_windows(5) [of val a] 2
    by (simp add: b64_flush_one b64_sym_def b64_pad_more mod_Suc)
next
  case (3 a b)
  then show ?case
    using b64_windows(1) [of val a b 0] b64_windows(2) [of val a b 0] b64_windows(6) [of val a b]
    by (simp add: b64_flush_one b64_sym_def b64_pad_more mod_Suc)
next
  case (4 a b c r)
  let ?g = "[b64_sym 3 (b64_group a b c), b64_sym 2 (b64_group a b c), b64_sym 1 (b64_group a b c),
      b64_sym 0 (b64_group a b c)]"
  obtain val' where "b64_loop val (-6) out (a # b # c # r) = b64_loop val' (-6) (out @ ?g) r"
    using b64_loop_group by blast
  then show ?case using 4 by simp
qed simp

lemma base64_encode_eq: "base64_encode src = b64_spec src"
  using b64_finish [of "[]" 0 src] by (simp add: base64_encode_def)

lemma length_b64_spec: "length (b64_spec src) = 4 * ((length src + 2) div 3)"
proof (induction src rule: b64_spec.induct)
  case (4 a b c r)
  have "(length r + 5) div 3 = Suc ((length r + 2) div 3)" by presburger
  with 4 show ?case by (simp add: add.commute)
qed simp_all

section \<open>The WebSocket handshake\<close>

definition ws_magic :: string where
  "ws_magic = ''258EAFA5-E914-47DA-95CA-C5AB0DC85B11''"

definition ws_accept_key :: "(bytes \<Rightarrow> bytes) \<Rightarrow> string \<Rightarrow> string" where
  "ws_accept_key sha1 client_key = base64_encode (sha1 (str_bytes (client_key @ ws_magic)))"

text \<open>The key is passed on as a C string: it ends at the first zero byte.\<close>

definition c_str :: "string \<Rightarrow> string" where
  "c_str s = takeWhile (\<lambda>c. c \<noteq> CHR 0x00) s"

definition build_101_response :: "string \<Rightarrow> response" where
  "build_101_response accept_key =
     (let resp = default_response\<lparr>rs_status := SwitchingProtocol_101\<rparr>;
          resp = set_header ''Upgrade'' ''websocket'' resp;
          resp = set_header ''Connection'' ''Upgrade'' resp
      in set_header ''Sec-Websocket-Accept'' (c_str accept_key) resp)"

lemma b64_sym_in_table: "b64_sym k g \<in> set b64_table"
proof -
  have "unat (drop_bit (6 * k) g AND 0x3F) < 2 ^ 6"
    unfolding and_0x3F by (simp only: unsigned_take_bit_eq take_bit_nat_less_exp)
  also have "2 ^ 6 = length b64_table" by (simp add: b64_table_def)
  finally show ?thesis by (simp add: b64_sym_def)
qed

lemma b64_spec_chars: "c \<in> set (b64_spec src) \<Longrightarrow> c \<in> set b64_table \<or> c = CHR ''=''"
  by (induction src rule: b64_spec.induct) (auto simp: b64_sym_in_table)

lemma b64_table_text: "c \<in> set b64_table \<Longrightarrow> c \<noteq> CHR 0x00 \<and> c \<noteq> CHR ''='' \<and> \<not> is_space c"
  unfolding b64_table_def by (auto simp: is_space_def)

lemma b64_no_space: "no_space (b64_spec src)"
  using b64_spec_chars b64_table_text by (fastforce simp: list_all_iff is_space_def)

lemma c_str_b64 [simp]: "c_str (b64_spec src) = b64_spec src"
  using b64_spec_chars b64_table_text by (fastforce simp: c_str_def takeWhile_eq_all_conv)

section \<open>Trimming\<close>

definition ltrim :: "string \<Rightarrow> string" where
  "ltrim s = dropWhile is_space s"

definition rtrim :: "string \<Rightarrow> string" where
  "rtrim s = rev (dropWhile is_space (rev s))"

definition trim :: "string \<Rightarrow> string" where
  "trim s = rtrim (ltrim s)"

lemma dropWhile_hd: "s \<noteq> [] \<Longrightarrow> \<not> P (hd s) \<Longrightarrow> dropWhile P s = s"
  by (cases s) simp_all

lemma trim_fixed: "s \<noteq> [] \<Longrightarrow> \<not> is_space (hd s) \<Longrightarrow> \<not> is_space (last s) \<Longrightarrow> trim s = s"
  by (simp add: trim_def ltrim_def rtrim_def dropWhile_hd hd_rev)

lemma trim_Nil [simp]: "trim [] = []"
  by (simp add: trim_def ltrim_def rtrim_def)

lemma trim_no_space [simp]: "no_space s \<Longrightarrow> trim s = s"
  by (cases "s = []") (auto intro!: trim_fixed simp: list_all_iff)

lemma trim_ends: "trim s \<noteq> [] \<Longrightarrow> \<not> is_space (hd (trim s)) \<and> \<not> is_space (last (trim s))"
proof -
  assume ne: "trim s \<noteq> []"
  let ?u = "dropWhile is_space s"
  have t: "trim s = rev (dropWhile is_space (rev ?u))"
    by (simp add: trim_def ltrim_def rtrim_def)
  with ne have "dropWhile is_space (rev ?u) \<noteq> []" by auto
  then have l: "\<not> is_space (last (trim s))" using hd_dropWhile [of is_space "rev ?u"] by (simp add: t last_rev)
  have "?u = trim s @ rev (takeWhile is_space (rev ?u))"
    by (metis rev_append rev_rev_ident t takeWhile_dropWhile_id)
  then have "hd ?u = hd (trim s)" "?u \<noteq> []" using ne by (metis hd_append2, metis append_is_Nil_conv)
  with l show ?thesis by (metis hd_dropWhile)
qed

lemma trim_idem [simp]: "trim (trim s) = trim s"
  using trim_ends [of s] trim_fixed [of "trim s"] by (cases "trim s = []") auto

lemma trim_space_Cons [simp]: "is_space c \<Longrightarrow> trim (c # s) = trim s"
  by (simp add: trim_def ltrim_def)

section \<open>The request target\<close>

text \<open>The loop over the query, on the part that is left.\<close>

function split_query :: "string \<Rightarrow> params \<Rightarrow> params" where
  "split_query query m =
     (let param_sep = find_char (CHR ''&'') query;
          param = (case param_sep of None \<Rightarrow> query | Some i \<Rightarrow> take i query);
          m = (if param \<noteq> []
               then (case find_char (CHR ''='') param of
                       None \<Rightarrow> mm_emplace param [] m
                     | Some eq \<Rightarrow> mm_emplace (take eq param) (drop (Suc eq) param) m)
               else m)
      in case param_sep of None \<Rightarrow> m | Some i \<Rightarrow> split_query (drop (Suc i) query) m)"
  by pat_completeness auto
termination
proof (relation "measure (\<lambda>(q, m). length q)")
  fix query :: string and i :: nat and sep and m m' :: params
  assume "sep = find_char (CHR ''&'') query" "sep = Some i"
  then have "query \<noteq> []" by (cases query) auto
  then show "((drop (Suc i) query, m'), query, m) \<in> measure (\<lambda>(q, m). length q)"
    by (cases query) auto
qed simp

declare split_query.simps [simp del]

definition split_target :: "string \<Rightarrow> string \<times> params" where
  "split_target target =
     (case find_char (CHR ''?'') target of
        None \<Rightarrow> (target, [])
      | Some qm \<Rightarrow> (take qm target, split_query (drop (Suc qm) target) []))"

section \<open>The request parser\<close>

definition pop_cr :: "string \<Rightarrow> string" where
  "pop_cr line = (if line \<noteq> [] \<and> last line = carriage then butlast line else line)"

text \<open>
  \<^verbatim>\<open>firstline >> method_str >> req.target >> req.version\<close>: a word that is missing leaves its
  variable, and those after it, as they were.
\<close>

definition parse_first_line :: "string \<Rightarrow> string \<Rightarrow> string \<Rightarrow> string \<times> string \<times> string" where
  "parse_first_line line target version =
     (case extract_word line of
        None \<Rightarrow> ([], target, version)
      | Some (m, l) \<Rightarrow>
          (case extract_word l of
             None \<Rightarrow> (m, target, version)
           | Some (t, l) \<Rightarrow>
               (case extract_word l of
                  None \<Rightarrow> (m, t, version)
                | Some (v, l) \<Rightarrow> (m, t, v))))"

function parse_header_lines :: "string \<Rightarrow> headers \<Rightarrow> headers" where
  "parse_header_lines s h =
     (case getline s of
        None \<Rightarrow> h
      | Some (line, s) \<Rightarrow>
          (let line = pop_cr line
           in if line = [] then h
              else case find_char (CHR '':'') line of
                     None \<Rightarrow> parse_header_lines s h
                   | Some col \<Rightarrow>
                       (let key = trim (take col line);
                            pos = col + 1;
                            pos = (if pos < length line \<and> line ! pos = CHR '' '' then pos + 1 else pos);
                            val = trim (drop pos line)
                        in parse_header_lines s (hdr_set key val h))))"
  by pat_completeness auto
termination
  by (relation "measure (\<lambda>(s, h). length s)") (auto dest: getline_shorter)

declare parse_header_lines.simps [simp del]

definition parse_http_request :: "string \<Rightarrow> request \<Rightarrow> request" where
  "parse_http_request data req =
     (let (line, s) = (case getline data of None \<Rightarrow> ([], []) | Some r \<Rightarrow> r);
          (m, target, version) = parse_first_line (pop_cr line) (rq_target req) (rq_version req);
          (path, ps) = split_target target
      in req\<lparr>rq_method := method_enum m, rq_path := path, rq_version := version,
             rq_target := target, rq_headers := parse_header_lines s (rq_headers req),
             rq_params := ps\<rparr>)"

end
