(* ===== verification/Http_IO.thy ===== *)
theory Http_IO
  imports Http_Utils Ws_Reader
begin

text \<open>
  Reading requests from and writing responses to a socket: \<^verbatim>\<open>include/io_helpers.h\<close> with
  \<^verbatim>\<open>Server::do_read\<close> and \<^verbatim>\<open>Server::write_regular_response\<close> of \<^verbatim>\<open>src/server.cpp\<close>.  The socket
  is a parameter again.  \<open>rd_until s buf\<close> is \<^verbatim>\<open>asio::async_read_until\<close> with the delimiter of a
  header block: it appends what it receives to the buffer, possibly more than the block, and tells
  where the block ends.  \<open>rd n s\<close> is \<^verbatim>\<open>asio::async_read\<close> and \<open>wr\<close> is \<^verbatim>\<open>asio::async_write\<close>.
\<close>

section \<open>The end of a header block\<close>

definition blank_line :: string where
  "blank_line = crlf @ crlf"

text \<open>The position behind the first empty line.\<close>

fun header_end :: "string \<Rightarrow> nat option" where
  "header_end [] = None"
| "header_end (c # cs) =
     (if is_prefix blank_line (c # cs) then Some 4 else map_option Suc (header_end cs))"

lemma length_blank_line [simp]: "length blank_line = 4"
  by (simp add: blank_line_def crlf_def)

lemma header_end_bound: "header_end s = Some n \<Longrightarrow> n \<le> length s"
  by (induction s arbitrary: n) (auto dest: is_prefix_length split: if_splits)

lemma header_end_least: "header_end s = Some n \<Longrightarrow> 4 \<le> n"
  by (induction s arbitrary: n) (force split: if_splits)+

lemma header_end_append: "header_end s = Some n \<Longrightarrow> header_end (s @ t) = Some n"
proof (induction s arbitrary: n)
  case (Cons c s)
  have "4 \<le> length (c # s)"
    using header_end_least [OF Cons.prems] header_end_bound [OF Cons.prems] by linarith
  then have "is_prefix blank_line (c # s @ t) \<longleftrightarrow> is_prefix blank_line (c # s)"
    using is_prefix_append_iff [of blank_line "c # s" t] by simp
  then show ?case
    using Cons by (auto split: if_splits)
qed simp

section \<open>The socket interface\<close>

type_synonym 's until_read = "'s \<Rightarrow> string \<Rightarrow> net_error + (string \<times> nat \<times> 's)"
type_synonym 's text_read = "nat \<Rightarrow> 's \<Rightarrow> net_error + (string \<times> 's)"
type_synonym 's text_write = "string \<Rightarrow> 's \<Rightarrow> net_error + 's"

locale text_stream =
  fixes rd_until :: "'s until_read" and rd :: "'s text_read" and view :: "'s \<Rightarrow> string"
  assumes until_found: "header_end (buf @ view s) = Some n \<Longrightarrow>
      \<exists>buf' s'. rd_until s buf = Inr (buf', n, s') \<and> buf' @ view s' = buf @ view s \<and> n \<le> length buf'"
    and until_end: "header_end (buf @ view s) = None \<Longrightarrow> rd_until s buf = Inl NetEof"
    and rd_enough: "n \<le> length (view s) \<Longrightarrow>
      \<exists>s'. rd n s = Inr (take n (view s), s') \<and> view s' = drop n (view s)"
    and rd_short: "length (view s) < n \<Longrightarrow> rd n s = Inl NetEof"

section \<open>\<^verbatim>\<open>io_helpers.h\<close>\<close>

definition prepare_headers :: "(headers \<Rightarrow> headers) \<Rightarrow> response \<Rightarrow> nat \<Rightarrow> string \<times> response" where
  "prepare_headers iter resp body_size =
     (let resp = (if \<not> rs_has_header resp ''Content-Length''
                  then set_header ''Content-Length'' (dec body_size) resp else resp)
      in (rs_to_string_header iter resp, resp))"

definition take_front :: "string \<Rightarrow> nat \<Rightarrow> string \<times> string" where
  "take_front buf n = (let n = min n (length buf) in (take n buf, drop n buf))"

definition co_read_headers ::
    "'s until_read \<Rightarrow> 's \<Rightarrow> string \<Rightarrow> net_error + (string \<times> string \<times> 's)" where
  "co_read_headers rd_until s buf =
     (case rd_until s buf of
        Inl e \<Rightarrow> Inl e
      | Inr (buf, header_bytes, s) \<Rightarrow>
          (let (h, buf) = take_front buf header_bytes in Inr (h, buf, s)))"

text \<open>The loop that fetches the rest of the body: \<open>got\<close> is what arrived, \<open>want\<close> what is to come.\<close>

function read_rest :: "'s text_read \<Rightarrow> nat \<Rightarrow> string \<Rightarrow> 's \<Rightarrow> net_error + (string \<times> 's)" where
  "read_rest rd want got s =
     (if length got < want
      then (case rd (want - length got) s of
              Inl e \<Rightarrow> Inl e
            | Inr (x, s) \<Rightarrow> if x = [] then Inr (got, s) else read_rest rd want (got @ x) s)
      else Inr (got, s))"
  by pat_completeness auto
termination
  by (relation "measure (\<lambda>(rd, want, got, s). want - length got)") (auto intro: diff_less_mono2)

declare read_rest.simps [simp del]

definition co_read_body ::
    "'s text_read \<Rightarrow> nat \<Rightarrow> 's \<Rightarrow> string \<Rightarrow> nat \<Rightarrow> net_error + (string \<times> string \<times> 's)" where
  "co_read_body rd alloc_max s buf content_len =
     (if alloc_max < content_len then Inl AllocError
      else let already = min (length buf) content_len;
               body = take already buf;
               buf = drop already buf
           in case read_rest rd (content_len - already) [] s of
                Inl e \<Rightarrow> Inl e
              | Inr (rest, s) \<Rightarrow> Inr (body @ rest, buf, s))"

section \<open>Requests in, responses out\<close>

text \<open>The buffer of \<^verbatim>\<open>do_read\<close> is local: what it holds beyond the request is dropped.\<close>

definition do_read ::
    "'s until_read \<Rightarrow> 's text_read \<Rightarrow> nat \<Rightarrow> 's \<Rightarrow> net_error + (request \<times> 's)" where
  "do_read rd_until rd alloc_max s =
     (case co_read_headers rd_until s [] of
        Inl e \<Rightarrow> Inl e
      | Inr (headers_text, buf, s) \<Rightarrow>
          (let req = parse_http_request headers_text empty_request;
               clen = (case rq_content_length req of None \<Rightarrow> 0 | Some n \<Rightarrow> n)
           in if clen \<noteq> 0
              then (case co_read_body rd alloc_max s buf clen of
                      Inl e \<Rightarrow> Inl e
                    | Inr (b, buf, s) \<Rightarrow> Inr (req\<lparr>rq_body := b\<rparr>, s))
              else Inr (req, s)))"

definition write_regular_response ::
    "'s text_write \<Rightarrow> (headers \<Rightarrow> headers) \<Rightarrow> response \<Rightarrow> 's \<Rightarrow> net_error + 's" where
  "write_regular_response wr iter resp s =
     (let body_size = length (rs_body resp);
          (head, resp) = prepare_headers iter resp body_size
      in if body_size = 0 then wr head s else wr (head @ rs_body resp) s)"

section \<open>Lemmas\<close>

lemma take_front_eq: "n \<le> length buf \<Longrightarrow> take_front buf n = (take n buf, drop n buf)"
  by (simp add: take_front_def min_def)

context text_stream
begin

lemma read_rest_enough:
  assumes "want \<le> length (view s)"
  shows "\<exists>s'. read_rest rd want [] s = Inr (take want (view s), s') \<and> view s' = drop want (view s)"
proof (cases "want = 0")
  case True
  then show ?thesis by (simp add: read_rest.simps)
next
  case False
  obtain s' where "rd want s = Inr (take want (view s), s')" "view s' = drop want (view s)"
    using rd_enough [OF assms] by blast
  then show ?thesis
    using False assms
    by (subst read_rest.simps) (auto simp: min_absorb2 read_rest.simps [of rd want "take want (view s)"])
qed

lemma co_read_headers_found:
  assumes "header_end (view s) = Some n"
  shows "\<exists>buf s'. co_read_headers rd_until s [] = Inr (take n (view s), buf, s') \<and>
    buf @ view s' = drop n (view s)"
proof -
  obtain buf' s' where r: "rd_until s [] = Inr (buf', n, s')" "buf' @ view s' = view s" "n \<le> length buf'"
    using until_found [of "[]" s n] assms by auto
  have "take n buf' = take n (view s)" "drop n buf' @ view s' = drop n (view s)"
    using r(3) by (simp_all add: r(2) [symmetric])
  then show ?thesis
    using r by (simp add: co_read_headers_def take_front_eq)
qed

lemma co_read_body_enough:
  assumes "n \<le> length (buf @ view s)" "n \<le> alloc_max"
  shows "\<exists>buf' s'. co_read_body rd alloc_max s buf n = Inr (take n (buf @ view s), buf', s') \<and>
    buf' @ view s' = drop n (buf @ view s)"
proof -
  let ?k = "n - min (length buf) n"
  have "?k \<le> length (view s)" using assms(1) by auto
  then obtain s' where s': "read_rest rd ?k [] s = Inr (take ?k (view s), s')" "view s' = drop ?k (view s)"
    using read_rest_enough by blast
  show ?thesis
    using assms s' by (cases "n \<le> length buf") (simp_all add: co_read_body_def Let_def)
qed

end

section \<open>A socket as a sequence of segments\<close>

text \<open>
  TCP delivers the input in segments; \<^verbatim>\<open>async_read_until\<close> takes whole segments into the buffer
  until the delimiter is there.
\<close>

record tcp_socket =
  inbox :: "string list"
  outbox :: string
  peer_up :: bool

fun seg_until :: "string list \<Rightarrow> string \<Rightarrow> net_error + (string \<times> nat \<times> string list)" where
  "seg_until [] buf = (case header_end buf of None \<Rightarrow> Inl NetEof | Some n \<Rightarrow> Inr (buf, n, []))"
| "seg_until (c # cs) buf =
     (case header_end buf of None \<Rightarrow> seg_until cs (buf @ c) | Some n \<Rightarrow> Inr (buf, n, c # cs))"

fun seg_text :: "string list text_read" where
  "seg_text n [] = (if n = 0 then Inr ([], []) else Inl NetEof)"
| "seg_text n (c # cs) =
     (if n \<le> length c then Inr (take n c, drop n c # cs)
      else map_sum id (map_prod ((@) c) id) (seg_text (n - length c) cs))"

definition tcp_until :: "tcp_socket until_read" where
  "tcp_until s buf = map_sum id (map_prod id (map_prod id (\<lambda>i. s\<lparr>inbox := i\<rparr>))) (seg_until (inbox s) buf)"

definition tcp_read :: "tcp_socket text_read" where
  "tcp_read n s = map_sum id (map_prod id (\<lambda>i. s\<lparr>inbox := i\<rparr>)) (seg_text n (inbox s))"

definition tcp_write :: "tcp_socket text_write" where
  "tcp_write x s = (if peer_up s then Inr (s\<lparr>outbox := outbox s @ x\<rparr>) else Inl NetEof)"

definition tcp_view :: "tcp_socket \<Rightarrow> string" where
  "tcp_view s = concat (inbox s)"

lemma seg_until_found:
  "header_end (buf @ concat cs) = Some n \<Longrightarrow>
   \<exists>buf' cs'. seg_until cs buf = Inr (buf', n, cs') \<and> buf' @ concat cs' = buf @ concat cs \<and> n \<le> length buf'"
proof (induction cs arbitrary: buf)
  case Nil
  then show ?case using header_end_bound by auto
next
  case (Cons c cs)
  show ?case
  proof (cases "header_end buf")
    case None
    with Cons.IH [of "buf @ c"] Cons.prems show ?thesis by simp
  next
    case (Some k)
    with header_end_append [OF Some, of "concat (c # cs)"] Cons.prems header_end_bound [OF Some]
    show ?thesis by simp
  qed
qed

lemma seg_until_end: "header_end (buf @ concat cs) = None \<Longrightarrow> seg_until cs buf = Inl NetEof"
proof (induction cs arbitrary: buf)
  case (Cons c cs)
  then show ?case
    using header_end_append [of buf _ "concat (c # cs)"] by (cases "header_end buf") auto
qed simp

lemma seg_text_enough:
  "n \<le> length (concat cs) \<Longrightarrow>
   \<exists>cs'. seg_text n cs = Inr (take n (concat cs), cs') \<and> concat cs' = drop n (concat cs)"
proof (induction cs arbitrary: n)
  case (Cons c cs)
  show ?case
  proof (cases "n \<le> length c")
    case False
    with Cons.prems have "n - length c \<le> length (concat cs)" by simp
    from Cons.IH [OF this] False show ?thesis by auto
  qed simp
qed simp

lemma seg_text_short: "length (concat cs) < n \<Longrightarrow> seg_text n cs = Inl NetEof"
  by (induction cs arbitrary: n) auto

interpretation tcp: text_stream tcp_until tcp_read tcp_view
proof
  fix buf s n
  assume "header_end (buf @ tcp_view s) = Some n"
  then show "\<exists>buf' s'. tcp_until s buf = Inr (buf', n, s') \<and> buf' @ tcp_view s' = buf @ tcp_view s \<and> n \<le> length buf'"
    using seg_until_found [of buf "inbox s" n] by (fastforce simp: tcp_until_def tcp_view_def)
next
  fix buf s
  assume "header_end (buf @ tcp_view s) = None"
  then show "tcp_until s buf = Inl NetEof"
    using seg_until_end [of buf "inbox s"] by (simp add: tcp_until_def tcp_view_def)
next
  fix n s
  assume "n \<le> length (tcp_view s)"
  then show "\<exists>s'. tcp_read n s = Inr (take n (tcp_view s), s') \<and> tcp_view s' = drop n (tcp_view s)"
    using seg_text_enough [of n "inbox s"] by (fastforce simp: tcp_read_def tcp_view_def)
next
  fix s n
  assume "length (tcp_view s) < n"
  then show "tcp_read n s = Inl NetEof"
    using seg_text_short [of "inbox s" n] by (simp add: tcp_read_def tcp_view_def)
qed

end
