(* ===== verification/Ws_Client.thy ===== *)
theory Ws_Client
  imports Ws_Reader Http_IO
begin

text \<open>
  The WebSocket client: \<^verbatim>\<open>include/websocket_client.h\<close> and \<^verbatim>\<open>src/websocket_client.cpp\<close>.  The socket
  is the parameter \<open>rd\<close> of the frame reader, random numbers are arguments, and an exception is a
  value of \<open>client_error\<close>.
\<close>

section \<open>State\<close>

datatype client_error =
    ServerClosed
  | ReadError net_error
  | RsvBits
  | InvalidOpcode byte
  | FrameTooLarge u64
  | UnsupportedOpcode
  | ExpectedContinuation
  | HandshakeFailed string

record in_frame =
  in_opcode :: byte
  in_fin :: bool
  in_payload :: bytes

record ws_message =
  m_opcode :: byte
  m_payload :: bytes

record ws_client =
  c_stopped :: bool
  c_key :: string
  c_assembling :: bool
  c_assembling_opcode :: byte
  c_assembling_buf :: bytes
  c_sent :: bytes

definition new_client :: ws_client where
  "new_client = \<lparr>c_stopped = False, c_key = [], c_assembling = False, c_assembling_opcode = 0,
     c_assembling_buf = [], c_sent = []\<rparr>"

section \<open>The handshake\<close>

text \<open>
  The client's own base 64.  \<open>i\<close> is the index into the input of length \<open>len\<close>; the two padding tests
  compare it after the bytes of the group have been taken, left to right.
\<close>

function client_b64 :: "bytes \<Rightarrow> nat \<Rightarrow> string \<Rightarrow> string" where
  "client_b64 src i out =
     (let len = length src in
      if i < len then
        let a = (ucast (src ! i) :: u32); i = i + 1;
            b = (if i < len then ucast (src ! i) else (0 :: u32)); i = (if i < len then i + 1 else i);
            c = (if i < len then ucast (src ! i) else (0 :: u32)); i = (if i < len then i + 1 else i);
            v = push_bit 16 a OR push_bit 8 b OR c
        in client_b64 src i (out @
             [b64_table ! unat (drop_bit 18 v AND 0x3F), b64_table ! unat (drop_bit 12 v AND 0x3F),
              if i > len + 1 then CHR ''='' else b64_table ! unat (drop_bit 6 v AND 0x3F),
              if i > len then CHR ''='' else b64_table ! unat (v AND 0x3F)])
      else out)"
  by pat_completeness auto
termination by (relation "measure (\<lambda>(src, i, out). length src - i)") (auto simp: Let_def)

declare client_b64.simps [simp del]

definition client_base64_encode :: "bytes \<Rightarrow> string" where
  "client_base64_encode src = client_b64 src 0 []"

definition generate_key :: "bytes \<Rightarrow> string" where
  "generate_key random = client_base64_encode (take 16 random)"

definition upgrade_request :: "string \<Rightarrow> string \<Rightarrow> string \<Rightarrow> string" where
  "upgrade_request host path key =
     ''GET '' @ path @ '' HTTP/1.1'' @ crlf @ ''Host: '' @ host @ crlf @
     ''Upgrade: websocket'' @ crlf @ ''Connection: Upgrade'' @ crlf @
     ''Sec-WebSocket-Key: '' @ key @ crlf @ ''Sec-WebSocket-Version: 13'' @ crlf @ crlf"

text \<open>
  \<^verbatim>\<open>read_http_headers\<close>: read a line at a time until an empty one.  \<open>rd_line\<close> is
  \<^verbatim>\<open>asio::read_until\<close> with the delimiter of a line, which may fill the local buffer with more.
  \<^const>\<open>None\<close> is running out of fuel.
\<close>

type_synonym 's line_read = "'s \<Rightarrow> string \<Rightarrow> net_error + (string \<times> 's)"

fun read_http_headers ::
    "'s line_read \<Rightarrow> nat \<Rightarrow> 's \<Rightarrow> string \<Rightarrow> string \<Rightarrow> (client_error + (string \<times> 's)) option" where
  "read_http_headers rd_line 0 s buf out = None"
| "read_http_headers rd_line (Suc fuel) s buf out =
     (case rd_line s buf of
        Inl e \<Rightarrow> Some (Inl (ReadError e))
      | Inr (buf, s) \<Rightarrow>
          (let (line, buf) = (case getline buf of None \<Rightarrow> ([], []) | Some r \<Rightarrow> r)
           in if line = [carriage] \<or> line = [] then Some (Inr (out, s))
              else read_http_headers rd_line fuel s buf (out @ line @ [newline])))"

text \<open>The check on the response, and \<^verbatim>\<open>connect\<close> over a connected plain socket.\<close>

definition check_handshake :: "string \<Rightarrow> client_error + unit" where
  "check_handshake response =
     (if \<not> has_substring ''101'' response then Inl (HandshakeFailed response) else Inr ())"

definition connect :: "'s line_read \<Rightarrow> nat \<Rightarrow> string \<Rightarrow> string \<Rightarrow> bytes \<Rightarrow> 's \<Rightarrow> ws_client \<Rightarrow>
    (client_error + (ws_client \<times> 's)) option" where
  "connect rd_line fuel host path random s c =
     (let c = c\<lparr>c_key := generate_key random\<rparr>;
          c = c\<lparr>c_sent := c_sent c @ str_bytes (upgrade_request host path (c_key c))\<rparr>
      in case read_http_headers rd_line fuel s [] [] of
           None \<Rightarrow> None
         | Some (Inl e) \<Rightarrow> Some (Inl e)
         | Some (Inr (response, s)) \<Rightarrow>
             (case check_handshake response of
                Inl e \<Rightarrow> Some (Inl e)
              | Inr u \<Rightarrow> Some (Inr (c, s))))"

section \<open>Sending\<close>

text \<open>Masking from position \<open>i\<close> on with the four bytes of the mask.\<close>

fun mask_bytes :: "bytes \<Rightarrow> nat \<Rightarrow> bytes \<Rightarrow> bytes" where
  "mask_bytes key i [] = []"
| "mask_bytes key i (b # bs) = (b XOR key ! (i mod 4)) # mask_bytes key (Suc i) bs"

definition make_frame_text :: "bytes \<Rightarrow> bytes \<Rightarrow> bytes" where
  "make_frame_text key text =
     (let len = (of_nat (length text) :: u64); maskbit = 0x80
      in [0x81] @
         (if len < 126 then [maskbit OR ucast len]
          else if len \<le> 0xFFFF then
            [maskbit OR 126, ucast (drop_bit 8 len AND 0xFF), ucast (len AND 0xFF)]
          else (maskbit OR 127) # map (\<lambda>i. ucast (drop_bit (8 * i) len AND 0xFF)) (rev [0..<8])) @
         key @ mask_bytes key 0 text)"

definition client_write :: "bytes \<Rightarrow> ws_client \<Rightarrow> ws_client" where
  "client_write bs c = c\<lparr>c_sent := c_sent c @ bs\<rparr>"

definition client_send_text :: "bytes \<Rightarrow> bytes \<Rightarrow> ws_client \<Rightarrow> ws_client" where
  "client_send_text key text c = (if c_stopped c then c else client_write (make_frame_text key text) c)"

definition random_key :: "u32 \<Rightarrow> u32 \<Rightarrow> u32 \<Rightarrow> u32 \<Rightarrow> u32" where
  "random_key r1 r2 r3 r4 = push_bit 24 r1 OR push_bit 16 r2 OR push_bit 8 r3 OR r4"

definition client_send_binary :: "u32 \<Rightarrow> bytes \<Rightarrow> ws_client \<Rightarrow> ws_client" where
  "client_send_binary key data c =
     (if c_stopped c then c
      else client_write (write_frame (empty_frame\<lparr>fin := True, opcode := 0x2, mask_bit := True,
             payload_data := data, payload_length := of_nat (length data), masking_key := key\<rparr>)) c)"

definition client_send_close :: "u32 \<Rightarrow> u16 \<Rightarrow> ws_client \<Rightarrow> ws_client" where
  "client_send_close key code c =
     (if c_stopped c then c
      else client_write (write_frame (empty_frame\<lparr>fin := True, opcode := 0x8, mask_bit := True,
             payload_data := [ucast (drop_bit 8 code AND 0xFF), ucast (code AND 0xFF)],
             payload_length := 2, masking_key := key\<rparr>)) c)"

section \<open>Receiving\<close>

definition MAX_FRAME_PAYLOAD :: u64 where
  "MAX_FRAME_PAYLOAD = 8 * 1024 * 1024"

text \<open>\<^verbatim>\<open>read_any\<close>: the end of the stream is reported as a closed connection.\<close>

definition read_any :: "'s socket_read \<Rightarrow> nat \<Rightarrow> 's \<Rightarrow> client_error + (bytes \<times> 's)" where
  "read_any rd n s = (case rd n s of
       Inl e \<Rightarrow> if e = NetEof then Inl ServerClosed else Inl (ReadError e)
     | Inr r \<Rightarrow> Inr r)"

definition client_length :: "'s socket_read \<Rightarrow> u64 \<Rightarrow> 's \<Rightarrow> client_error + (u64 \<times> 's)" where
  "client_length rd len s =
     (if len = 126 then
        (case read_any rd 2 s of
           Inl e \<Rightarrow> Inl e
         | Inr (ext, s) \<Rightarrow> Inr (push_bit 8 (ucast (ext ! 0)) OR ucast (ext ! 1), s))
      else if len = 127 then
        (case read_any rd 8 s of Inl e \<Rightarrow> Inl e | Inr (ext, s) \<Rightarrow> Inr (be_read 0 ext, s))
      else Inr (len, s))"

definition client_payload :: "'s socket_read \<Rightarrow> bool \<Rightarrow> byte \<Rightarrow> bool \<Rightarrow> u64 \<Rightarrow> 's \<Rightarrow>
    client_error + (in_frame \<times> 's)" where
  "client_payload rd fn op masked len s =
     (case (if masked then read_any rd 4 s else Inr ([0, 0, 0, 0], s)) of
        Inl e \<Rightarrow> Inl e
      | Inr (mask_key, s) \<Rightarrow>
          if len > MAX_FRAME_PAYLOAD then Inl (FrameTooLarge len)
          else (case (if len > 0 then read_any rd (unat len) s else Inr ([], s)) of
                  Inl e \<Rightarrow> Inl e
                | Inr (data, s) \<Rightarrow>
                    if op = 0x8 then Inl ServerClosed
                    else Inr (\<lparr>in_opcode = op, in_fin = fn,
                           in_payload = (if masked then mask_bytes mask_key 0 data else data)\<rparr>, s)))"

definition read_frame :: "'s socket_read \<Rightarrow> 's \<Rightarrow> client_error + (in_frame \<times> 's)" where
  "read_frame rd s =
     (case read_any rd 2 s of
        Inl e \<Rightarrow> Inl e
      | Inr (header, s) \<Rightarrow>
          (let fn = (header ! 0 AND 0x80 \<noteq> 0);
               op = header ! 0 AND 0x0F;
               masked = (header ! 1 AND 0x80 \<noteq> 0);
               len = ucast (header ! 1 AND 0x7F);
               rsv = header ! 0 AND 0x70
           in if rsv \<noteq> 0 then Inl RsvBits
              else if op \<notin> {0x0, 0x1, 0x2, 0x8, 0x9, 0xA} then Inl (InvalidOpcode op)
              else case client_length rd len s of
                     Inl e \<Rightarrow> Inl e
                   | Inr (len, s) \<Rightarrow> client_payload rd fn op masked len s))"

text \<open>What \<^verbatim>\<open>read_message\<close> does with one frame: go on, or return a message.\<close>

definition client_frame :: "in_frame \<Rightarrow> ws_client \<Rightarrow> (client_error + ws_message option) \<times> ws_client" where
  "client_frame f c =
     (if in_opcode f = 0x8 then (Inl ServerClosed, c)
      else if in_opcode f = 0x9 then (Inr None, c)
      else if in_opcode f = 0xA then (Inr None, c)
      else if \<not> c_assembling c then
        (if in_opcode f = 0x0 then (Inr None, c)
         else if in_opcode f \<noteq> 0x1 \<and> in_opcode f \<noteq> 0x2 then (Inl UnsupportedOpcode, c)
         else let c = c\<lparr>c_assembling := True, c_assembling_opcode := in_opcode f,
                        c_assembling_buf := in_payload f\<rparr>
              in if in_fin f
                 then (Inr (Some \<lparr>m_opcode = c_assembling_opcode c, m_payload = c_assembling_buf c\<rparr>),
                       c\<lparr>c_assembling := False, c_assembling_buf := []\<rparr>)
                 else (Inr None, c))
      else if in_opcode f \<noteq> 0x0 then
        (Inl ExpectedContinuation, c\<lparr>c_assembling := False, c_assembling_buf := []\<rparr>)
      else let c = c\<lparr>c_assembling_buf := c_assembling_buf c @ in_payload f\<rparr>
           in if in_fin f
              then (Inr (Some \<lparr>m_opcode = c_assembling_opcode c, m_payload = c_assembling_buf c\<rparr>),
                    c\<lparr>c_assembling := False, c_assembling_buf := []\<rparr>)
              else (Inr None, c))"

fun read_message :: "'s socket_read \<Rightarrow> nat \<Rightarrow> 's \<Rightarrow> ws_client \<Rightarrow>
    ((client_error + (ws_message \<times> 's)) \<times> ws_client) option" where
  "read_message rd 0 s c = None"
| "read_message rd (Suc fuel) s c =
     (case read_frame rd s of
        Inl e \<Rightarrow> Some (Inl e, c)
      | Inr (f, s) \<Rightarrow>
          (case client_frame f c of
             (Inl e, c) \<Rightarrow> Some (Inl e, c)
           | (Inr None, c) \<Rightarrow> read_message rd fuel s c
           | (Inr (Some m), c) \<Rightarrow> Some (Inr (m, s), c)))"

text \<open>
  \<^verbatim>\<open>receive_loop\<close>: the messages received up to the exception that ends the loop.
\<close>

fun receive_loop :: "'s socket_read \<Rightarrow> nat \<Rightarrow> nat \<Rightarrow> 's \<Rightarrow> ws_client \<Rightarrow>
    (ws_message list \<times> client_error \<times> ws_client) option" where
  "receive_loop rd k 0 s c = None"
| "receive_loop rd k (Suc fuel) s c =
     (case read_message rd k s c of
        None \<Rightarrow> None
      | Some (Inl e, c) \<Rightarrow> Some ([], e, c\<lparr>c_stopped := True\<rparr>)
      | Some (Inr (m, s), c) \<Rightarrow>
          (case receive_loop rd k fuel s c of
             None \<Rightarrow> None
           | Some (ms, e, c) \<Rightarrow> Some (m # ms, e, c)))"

end
