(* ===== verification/Ws_Duplex.thy ===== *)
theory Ws_Duplex
  imports Ws_Client Ws_Traffic
begin

text \<open>
  Client and server against each other.  What the client writes by hand is what the frame
  serialiser would write; what the server writes the client's reader reads back; and conforming
  traffic is delivered to the client message by message.
\<close>

section \<open>Base 64\<close>

definition unpad :: "char \<Rightarrow> char" where
  "unpad c = (if c = CHR ''='' then CHR ''A'' else c)"

lemma unpad_sym [simp]: "unpad (b64_sym k g) = b64_sym k g"
  using b64_table_text [OF b64_sym_in_table [of k g]] by (simp add: unpad_def)

lemma b64_zero_sym: "drop_bit (6 * k) g AND 0x3F = 0 \<Longrightarrow> b64_sym k g = CHR ''A''"
  by (simp add: b64_sym_def b64_table_def)

lemma b64_zero_windows:
  "b64_sym 1 (b64_group a 0 0) = CHR ''A''" "b64_sym 0 (b64_group a 0 0) = CHR ''A''"
  "b64_sym 0 (b64_group a b 0) = CHR ''A''"
  by (rule b64_zero_sym, unfold and_0x3F b64_group_def, rule bit_word_eqI, auto simp: bit_simps)+

text \<open>One turn of the client's loop: a group of up to three bytes.\<close>

lemma client_b64_turn:
  assumes "i < length src"
  defines "g \<equiv> b64_group (src ! i) (if i + 1 < length src then src ! (i + 1) else 0)
      (if i + 2 < length src then src ! (i + 2) else 0)"
  shows "client_b64 src i out =
    client_b64 src (min (i + 3) (length src)) (out @ [b64_sym 3 g, b64_sym 2 g, b64_sym 1 g, b64_sym 0 g])"
proof -
  consider "length src = i + 1" | "length src = i + 2" | "i + 2 < length src"
    using assms(1) by linarith
  then show ?thesis
    by cases (subst client_b64.simps, use assms(1) in
      \<open>simp add: g_def Let_def b64_group_def b64_sym_def min_def Suc3_eq_add_3 add.commute\<close>)+
qed

lemma client_b64_eq: "client_b64 src i out = out @ map unpad (b64_spec (drop i src))"
proof (induction "length src - i" arbitrary: i out rule: less_induct)
  case less
  have fin_b64: "i' \<ge> length src \<Longrightarrow> client_b64 src i' out = out" for i' out by (simp add: client_b64.simps)
  consider "length src \<le> i" | "length src = i + 1" | "length src = i + 2" | "i + 2 < length src"
    by linarith
  then show ?case
  proof cases
    case 1
    then show ?thesis by (simp add: client_b64.simps)
  next
    case 2
    then have d: "drop i src = [src ! i]" by (simp add: Cons_nth_drop_Suc [symmetric])
    from 2 show ?thesis
      by (subst client_b64_turn) (simp_all add: d fin_b64 b64_zero_windows b64_zero_windows [unfolded One_nat_def] unpad_def [of "CHR ''=''"])
  next
    case 3
    then have d: "drop i src = [src ! i, src ! Suc i]" by (simp add: Cons_nth_drop_Suc [symmetric])
    from 3 show ?thesis
      by (subst client_b64_turn) (simp_all add: d fin_b64 b64_zero_windows b64_zero_windows [unfolded One_nat_def] unpad_def [of "CHR ''=''"])
  next
    case 4
    then have d: "drop i src = src ! i # src ! Suc i # src ! Suc (Suc i) # drop (i + 3) src"
      by (simp add: Cons_nth_drop_Suc numeral_3_eq_3)
    from 4 show ?thesis
      by (subst client_b64_turn) (simp_all add: d less min_absorb1)
  qed
qed

section \<open>Masks\<close>

lemma mask_bytes_eq: "mask_bytes (key_bytes key) i bs = xor_mask key i bs"
proof (induction bs arbitrary: i)
  case (Cons b bs)
  have "i mod 4 < 4" by simp
  then have "i mod 4 \<in> {0, 1, 2, 3}" by auto
  then have "key_bytes key ! (i mod 4) = mask_byte key i"
    by (auto simp: key_bytes_def mask_byte_def)
  with Cons show ?case by simp
qed simp

lemma key_bytes_decode:
  assumes "length mk = 4"
  shows "key_bytes (decode_key mk 0) = mk"
proof -
  obtain a b c d where mk: "mk = [a, b, c, d]"
    using assms by (auto simp: numeral_eq_Suc length_Suc_conv)
  have n: "mk ! 0 = a" "mk ! 1 = b" "mk ! 2 = c" "mk ! 3 = d" by (simp_all add: mk)
  have "ucast (drop_bit 24 (decode_key mk 0) AND 0xFF) = a"
    "ucast (drop_bit 16 (decode_key mk 0) AND 0xFF) = b"
    "ucast (drop_bit 8 (decode_key mk 0) AND 0xFF) = c"
    "ucast (decode_key mk 0 AND 0xFF) = d"
    unfolding decode_key_def and_0xFF add_0 n
    by (rule bit_word_eqI; auto simp: bit_simps dest: bit_imp_le_length)+
  then show ?thesis by (simp add: key_bytes_def mk)
qed

section \<open>Client to server\<close>

definition text_frame :: "u32 \<Rightarrow> bytes \<Rightarrow> ws_frame" where
  "text_frame key text = (data_frame WS_TEXT text)\<lparr>mask_bit := True, masking_key := key\<rparr>"

lemma word_less_126: "(x :: u64) < 126 \<longleftrightarrow> x \<le> 125"
  by (auto simp: word_less_nat_alt word_le_nat_alt)

text \<open>The hand-written encoder agrees with the frame serialiser.\<close>

lemma make_frame_text_eq:
  assumes "length key = 4"
  shows "make_frame_text key text = write_frame (text_frame (decode_key key 0) text)"
  using key_bytes_decode [OF assms] mask_bytes_eq [of "decode_key key 0" 0 "text"]
  by (simp add: make_frame_text_def write_frame_def text_frame_def data_frame_def empty_frame_def Let_def
      length_bytes_def word_less_126 net_simps ws_opcodes)

section \<open>Server to client\<close>

lemma read_any_list [simp]:
  "n = length xs \<Longrightarrow> read_any list_read n (xs @ ys) = Inr (xs, ys)"
  by (simp add: read_any_def)

lemma client_length_written:
  assumes "n < 2 ^ 64" "length_bytes (push_bit 7 (of_bool m)) (of_nat n) = l # ls"
  shows "client_length list_read (ucast (l AND 0x7F)) (ls @ s) = Inr (of_nat n, s)"
    and "l AND 0x80 = 0 \<longleftrightarrow> \<not> m"
proof -
  let ?n = "of_nat n :: u64"
  consider "?n \<le> 125" | "\<not> ?n \<le> 125" "?n \<le> 0xFFFF" | "\<not> ?n \<le> 125" "\<not> ?n \<le> 0xFFFF" by blast
  then have "client_length list_read (ucast (l AND 0x7F)) (ls @ s) = Inr (of_nat n, s) \<and> (l AND 0x80 = 0 \<longleftrightarrow> \<not> m)"
  proof cases
    case 1
    then have l: "l = push_bit 7 (of_bool m) OR ucast ?n" "ls = []"
      using assms(2) by (simp_all add: length_bytes_def)
    note b = byte1_fields [OF l(1) small_length_byte(1) [OF 1]]
    have "?n \<noteq> 126" "?n \<noteq> 127" using 1 by auto
    with b l(2) show ?thesis by (simp add: client_length_def small_length_byte(2) [OF 1])
  next
    case 2
    then have l: "l = push_bit 7 (of_bool m) OR 126"
      "ls = [ucast (drop_bit 8 ?n AND 0xFF), ucast (?n AND 0xFF)]"
      using assms(2) by (simp_all add: length_bytes_def)
    have "take_bit 7 (126 :: byte) = 126" by simp
    note b = byte1_fields [OF l(1) this]
    have "(push_bit 8 (ucast (ucast (drop_bit 8 ?n AND 0xFF) :: byte)) OR ucast (ucast (?n AND 0xFF) :: byte)) = ?n"
    proof -
      have "be_read 0 (map (\<lambda>i. byte_at i ?n) (rev [0..<2])) = ?n"
        unfolding be_read_prefix using 2(2) by (simp add: take_bit_small word_le_nat_alt)
      then show ?thesis by (simp add: be_read_def byte_at_def upt_rec)
    qed
    with b show ?thesis
      using read_any_list [of 2 ls s] by (simp add: client_length_def l(2))
  next
    case 3
    then have l: "l = push_bit 7 (of_bool m) OR 127" "ls = map (\<lambda>i. byte_at i ?n) (rev [0..<8])"
      using assms(2) by (simp_all add: length_bytes_def byte_at_def)
    have "take_bit 7 (127 :: byte) = 127" by simp
    note b = byte1_fields [OF l(1) this]
    have "length ls = 8" by (simp add: l(2))
    then have "read_any list_read 8 (ls @ s) = Inr (ls, s)" by simp
    with b show ?thesis
      using be_read_bytes_8 [of ?n] by (simp add: client_length_def l(2))
  qed
  then show "client_length list_read (ucast (l AND 0x7F)) (ls @ s) = Inr (of_nat n, s)"
    and "l AND 0x80 = 0 \<longleftrightarrow> \<not> m" by simp_all
qed

text \<open>A frame the client accepts.\<close>

definition no_rsv :: "ws_frame \<Rightarrow> bool" where
  "no_rsv f \<longleftrightarrow> \<not> rsv1 f \<and> \<not> rsv2 f \<and> \<not> rsv3 f"

definition maxFrame :: nat where "maxFrame = 8388608"

lemma byte0_rsv:
  assumes "no_rsv f" "b0 = push_bit 7 (of_bool (fin f)) OR push_bit 6 (of_bool (rsv1 f)) OR
    push_bit 5 (of_bool (rsv2 f)) OR push_bit 4 (of_bool (rsv3 f)) OR (opcode f AND 0x0F)"
  shows "b0 AND 0x70 = (0 :: byte)"
proof -
  have h: "(0x70 :: byte) = push_bit 4 (mask 3)" by (simp add: mask_numeral)
  show ?thesis
    unfolding assms(2) h and_0x0F
    by (rule bit_word_eqI) (use assms(1) in \<open>auto simp: bit_simps no_rsv_def\<close>)
qed

definition client_view :: "ws_frame \<Rightarrow> in_frame" where
  "client_view f = \<lparr>in_opcode = opcode f, in_fin = fin f, in_payload = payload_data f\<rparr>"

lemma client_payload_written:
  assumes n: "length (payload_data f) \<le> maxFrame" and op: "opcode f \<noteq> WS_CLOSE"
  shows "client_payload list_read (fin f) (opcode f) (mask_bit f) (of_nat (length (payload_data f)))
      ((if mask_bit f then key_bytes (masking_key f) else []) @
       write_payload (mask_bit f) (masking_key f) 0 (payload_data f) @ s) = Inr (client_view f, s)"
proof -
  let ?n = "of_nat (length (payload_data f)) :: u64"
  have u: "unat ?n = length (payload_data f)"
    using n by (simp add: maxFrame_def unat_of_nat)
  have le: "\<not> ?n > MAX_FRAME_PAYLOAD"
    using n by (simp add: word_less_nat_alt u MAX_FRAME_PAYLOAD_def maxFrame_def)
  have k: "read_any list_read 4 (key_bytes (masking_key f) @ t) = Inr (key_bytes (masking_key f), t)" for t
    by (rule read_any_list) simp
  have z: "?n > 0 \<longleftrightarrow> payload_data f \<noteq> []" using u by (auto simp: word_less_nat_alt)
  have "opcode f \<noteq> 8" using op by (simp add: WS_CLOSE_def)
  then show ?thesis
    using le by (auto simp: client_payload_def k u z net_simps mask_bytes_eq client_view_def)
qed

lemma client_read_write:
  assumes "no_rsv f" "opcode f \<in> {WS_CONT, WS_TEXT, WS_BINARY, WS_PING, WS_PONG}"
    "length (payload_data f) \<le> maxFrame"
  shows "read_frame list_read (write_frame f @ rest) = Inr (client_view f, rest)"
proof -
  let ?n = "of_nat (length (payload_data f)) :: u64"
  define b0 :: byte where "b0 = push_bit 7 (of_bool (fin f)) OR push_bit 6 (of_bool (rsv1 f)) OR
    push_bit 5 (of_bool (rsv2 f)) OR push_bit 4 (of_bool (rsv3 f)) OR (opcode f AND 0x0F)"
  obtain l ls where L: "length_bytes (push_bit 7 (of_bool (mask_bit f))) ?n = l # ls"
    by (cases "length_bytes (push_bit 7 (of_bool (mask_bit f))) ?n") (auto simp: length_bytes_def split: if_splits)
  let ?t = "(if mask_bit f then key_bytes (masking_key f) else []) @
       write_payload (mask_bit f) (masking_key f) 0 (payload_data f) @ rest"
  have w: "write_frame f @ rest = [b0, l] @ ls @ ?t"
    by (simp add: write_frame_def Let_def b0_def L)
  have n: "length (payload_data f) < 2 ^ 64" using assms(3) by (simp add: maxFrame_def)
  note cl = client_length_written [OF n L]
  have op: "opcode f AND 0x0F = opcode f" "opcode f \<in> {0x0, 0x1, 0x2, 0x8, 0x9, 0xA}" "opcode f \<noteq> WS_CLOSE"
    using assms(2) by (auto simp: ws_opcodes)
  have r: "read_any list_read 2 ([b0, l] @ ls @ ?t) = Inr ([b0, l], ls @ ?t)"
    by (rule read_any_list) simp
  have n0: "[b0, l] ! 0 = b0" "[b0, l] ! 1 = l" by simp_all
  have f0: "(b0 AND 0x80 \<noteq> 0) = fin f" "b0 AND 0x0F = opcode f" "(b0 AND 0x70 \<noteq> 0) = False"
    using byte0_fields [OF b0_def] byte0_rsv [OF assms(1) b0_def] op(1) by simp_all
  have m: "(l AND 0x80 \<noteq> 0) = mask_bit f" using cl(2) by simp
  have o: "(opcode f \<notin> {0x0, 0x1, 0x2, 0x8, 0x9, 0xA}) = False" using op(2) by simp
  show ?thesis
    unfolding w read_frame_def r sum.case prod.case Let_def n0 f0 m o if_False cl(1)
    by (rule client_payload_written [OF assms(3) op(3)])
qed

subsection \<open>The client on conforming traffic\<close>

text \<open>The client's buffer that stands for a partial message.\<close>

definition client_at :: "bytes option \<Rightarrow> ws_client \<Rightarrow> bool" where
  "client_at p c \<longleftrightarrow> c_assembling c = (p \<noteq> None) \<and> (\<forall>m. p = Some m \<longrightarrow> c_assembling_buf c = m)"

text \<open>The loop with \<open>j\<close> frames of fuel left for the message it is reading.\<close>

definition receiving :: "nat \<Rightarrow> nat \<Rightarrow> nat \<Rightarrow> bytes \<Rightarrow> ws_client \<Rightarrow>
    (ws_message list \<times> client_error \<times> ws_client) option" where
  "receiving j k fuel s c =
     (case read_message list_read j s c of
        None \<Rightarrow> None
      | Some (Inl e, c) \<Rightarrow> Some ([], e, c\<lparr>c_stopped := True\<rparr>)
      | Some (Inr (m, s), c) \<Rightarrow>
          (case receive_loop list_read k fuel s c of
             None \<Rightarrow> None
           | Some (ms, e, c) \<Rightarrow> Some (m # ms, e, c)))"

lemma receive_loop_receiving: "receive_loop list_read k (Suc fuel) s c = receiving k k fuel s c"
  by (simp add: receiving_def)

definition acceptable :: "ws_frame \<Rightarrow> bool" where
  "acceptable f \<longleftrightarrow> no_rsv f \<and> length (payload_data f) \<le> maxFrame"

lemma receiving_frame:
  assumes "acceptable f" "opcode f \<in> {WS_CONT, WS_TEXT, WS_BINARY, WS_PING, WS_PONG}"
  shows "receiving (Suc j) k fuel (write_frame f @ rest) c =
    (case client_frame (client_view f) c of
       (Inl e, c) \<Rightarrow> Some ([], e, c\<lparr>c_stopped := True\<rparr>)
     | (Inr None, c) \<Rightarrow> receiving j k fuel rest c
     | (Inr (Some m), c) \<Rightarrow>
         (case receive_loop list_read k fuel rest c of
            None \<Rightarrow> None
          | Some (ms, e, c) \<Rightarrow> Some (m # ms, e, c)))"
  using client_read_write [OF _ assms(2), of rest] assms(1)
  by (simp add: receiving_def acceptable_def split: prod.splits sum.splits option.splits)

lemma receiving_end: "receiving (Suc j) k fuel [] c = Some ([], ServerClosed, c\<lparr>c_stopped := True\<rparr>)"
  by (simp add: receiving_def read_frame_def read_any_def list_read_def)

lemmas client_frame_simps = client_frame_def client_view_def client_at_def ws_opcodes Let_def

text \<open>
  \<open>receives c fs ms\<close>: from the state \<open>c\<close> the client makes the messages \<open>ms\<close> of the frames \<open>fs\<close>, with
  any fuel above the number of frames.
\<close>

definition receives :: "ws_client \<Rightarrow> ws_frame list \<Rightarrow> bytes list \<Rightarrow> bool" where
  "receives c fs ms \<longleftrightarrow> (\<forall>j k fuel. length fs < j \<longrightarrow> length fs < k \<longrightarrow> length fs \<le> fuel \<longrightarrow>
     (\<exists>msgs c'. receiving j k fuel (concat (map write_frame fs)) c = Some (msgs, ServerClosed, c') \<and>
        map m_payload msgs = ms \<and> c_stopped c'))"

lemma receives_end: "receives c [] []"
  unfolding receives_def by (metis (no_types, lifting) concat.simps(1) list.size(3) list.map(1)
      receiving_end gr0_conv_Suc ws_client.select_convs(1) ws_client.surjective ws_client.update_convs(1))

lemma receives_more:
  assumes "acceptable f" "opcode f \<in> {WS_CONT, WS_TEXT, WS_BINARY, WS_PING, WS_PONG}"
    "client_frame (client_view f) c = (Inr None, c')" "receives c' fs ms"
  shows "receives c (f # fs) ms"
  unfolding receives_def
proof (intro allI impI)
  fix j k fuel
  assume n: "length (f # fs) < j" "length (f # fs) < k" "length (f # fs) \<le> fuel"
  then obtain j' where j: "j = Suc j'" by (cases j) auto
  have "receiving j k fuel (concat (map write_frame (f # fs))) c =
      receiving j' k fuel (concat (map write_frame fs)) c'"
    using receiving_frame [OF assms(1,2), of j' k fuel _ c] assms(3) by (simp add: j)
  then show "\<exists>msgs c'. receiving j k fuel (concat (map write_frame (f # fs))) c = Some (msgs, ServerClosed, c') \<and>
      map m_payload msgs = ms \<and> c_stopped c'"
    using assms(4) n unfolding receives_def by (simp add: j)
qed

lemma receives_message:
  assumes "acceptable f" "opcode f \<in> {WS_CONT, WS_TEXT, WS_BINARY, WS_PING, WS_PONG}"
    "client_frame (client_view f) c = (Inr (Some m), c')" "receives c' fs ms"
  shows "receives c (f # fs) (m_payload m # ms)"
  unfolding receives_def
proof (intro allI impI)
  fix j k fuel
  assume n: "length (f # fs) < j" "length (f # fs) < k" "length (f # fs) \<le> fuel"
  then obtain j' fuel' where j: "j = Suc j'" "fuel = Suc fuel'" by (cases j; cases fuel) auto
  obtain msgs d where "receiving k k fuel' (concat (map write_frame fs)) c' = Some (msgs, ServerClosed, d)"
    "map m_payload msgs = ms" "c_stopped d"
    using assms(4) [unfolded receives_def, rule_format, of k k fuel'] n by (auto simp: j)
  then show "\<exists>msgs c'. receiving j k fuel (concat (map write_frame (f # fs))) c = Some (msgs, ServerClosed, c') \<and>
      map m_payload msgs = m_payload m # ms \<and> c_stopped c'"
    using receiving_frame [OF assms(1,2), of j' k fuel "concat (map write_frame fs)" c] assms(3)
    by (simp add: j receive_loop_receiving del: receive_loop.simps)
qed

lemma receives_conforming:
  "conforming L p fs ms ps \<Longrightarrow> list_all acceptable fs \<Longrightarrow> client_at p c \<Longrightarrow> receives c fs ms"
proof (induction arbitrary: c rule: conforming.induct)
  case (conf_end L p)
  show ?case by (rule receives_end)
next
  case (conf_ping f L p fs ms ps)
  then show ?case by (intro receives_more) (auto simp: client_frame_simps)
next
  case (conf_pong f L p fs ms ps)
  then show ?case by (intro receives_more) (auto simp: client_frame_simps)
next
  case (conf_whole f L fs ms ps)
  let ?c = "c\<lparr>c_assembling := False, c_assembling_opcode := opcode f, c_assembling_buf := []\<rparr>"
  let ?m = "\<lparr>m_opcode = opcode f, m_payload = payload_data f\<rparr>"
  have "client_frame (client_view f) c = (Inr (Some ?m), ?c)"
    using conf_whole by (auto simp: client_frame_simps)
  moreover have "receives ?c fs ms" using conf_whole by (simp add: client_at_def)
  ultimately show ?case using receives_message [of f c ?m ?c fs ms] conf_whole by auto
next
  case (conf_first f L fs ms ps)
  let ?c = "c\<lparr>c_assembling := True, c_assembling_opcode := opcode f, c_assembling_buf := payload_data f\<rparr>"
  have "client_frame (client_view f) c = (Inr None, ?c)"
    using conf_first by (auto simp: client_frame_simps)
  moreover have "receives ?c fs ms" using conf_first by (simp add: client_at_def)
  ultimately show ?case using receives_more [of f c ?c fs ms] conf_first by auto
next
  case (conf_middle f p L fs ms ps)
  let ?c = "c\<lparr>c_assembling_buf := p @ payload_data f\<rparr>"
  have "client_frame (client_view f) c = (Inr None, ?c)"
    using conf_middle by (auto simp: client_frame_simps)
  moreover have "receives ?c fs ms" using conf_middle by (simp add: client_at_def)
  ultimately show ?case using receives_more [of f c ?c fs ms] conf_middle by auto
next
  case (conf_last f p L fs ms ps)
  let ?c = "c\<lparr>c_assembling := False, c_assembling_buf := []\<rparr>"
  let ?m = "\<lparr>m_opcode = c_assembling_opcode c, m_payload = p @ payload_data f\<rparr>"
  have "client_frame (client_view f) c = (Inr (Some ?m), ?c)"
    using conf_last by (auto simp: client_frame_simps)
  moreover have "receives ?c fs ms" using conf_last by (simp add: client_at_def)
  ultimately show ?case using receives_message [of f c ?m ?c fs ms] conf_last by auto
qed

lemma receive_loop_conforming:
  assumes "conforming L None fs ms ps" "list_all acceptable fs" "\<not> c_assembling c"
    "length fs < k" "length fs < fuel"
  shows "\<exists>msgs c'. receive_loop list_read k fuel (concat (map write_frame fs)) c = Some (msgs, ServerClosed, c') \<and>
    map m_payload msgs = ms \<and> c_stopped c'"
proof -
  obtain n where "fuel = Suc n" "length fs \<le> n" using assms(5) by (cases fuel) auto
  moreover have "receives c fs ms"
    using receives_conforming [OF assms(1,2)] assms(3) by (simp add: client_at_def)
  ultimately show ?thesis
    using assms(4) unfolding receives_def by (simp add: receive_loop_receiving del: receive_loop.simps)
qed

section \<open>A conversation\<close>

definition send_texts :: "(bytes \<times> bytes) list \<Rightarrow> ws_client \<Rightarrow> ws_client" where
  "send_texts kts c = fold (\<lambda>(k, t) c. client_send_text k t c) kts c"

lemma send_texts_eq:
  "\<not> c_stopped c \<Longrightarrow> list_all (\<lambda>(k, t). length k = 4) kts \<Longrightarrow>
   send_texts kts c = c\<lparr>c_sent := c_sent c @
     concat (map write_frame (map (\<lambda>(k, t). text_frame (decode_key k 0) t) kts))\<rparr>"
  unfolding send_texts_def
  by (induction kts arbitrary: c) (auto simp: client_send_text_def client_write_def make_frame_text_eq)

lemma text_frame_simps [simp]:
  "opcode (text_frame k t) = WS_TEXT" "fin (text_frame k t)" "payload_data (text_frame k t) = t"
  by (simp_all add: text_frame_def data_frame_def)

lemma conforming_texts:
  "list_all (\<lambda>(k, t). length t \<le> L) kts \<Longrightarrow>
   conforming L None (map (\<lambda>(k, t). text_frame (decode_key k 0) t) kts) (map snd kts) []"
proof (induction kts)
  case (Cons e kts)
  obtain k t where e: "e = (k, t)" by (cases e)
  show ?case using Cons conf_whole [of "text_frame (decode_key k 0) t"] by (simp add: e)
qed (simp add: conf_end)

lemma conforming_echoes:
  "list_all (\<lambda>t. length t \<le> L) ts \<Longrightarrow> conforming L None (map (data_frame WS_TEXT) ts) ts []"
proof (induction ts)
  case (Cons t ts)
  have "opcode (data_frame WS_TEXT t) = WS_TEXT" "fin (data_frame WS_TEXT t)"
    "payload_data (data_frame WS_TEXT t) = t" by (simp_all add: data_frame_def)
  with Cons conf_whole [of "data_frame WS_TEXT t"] show ?case by simp
qed (simp add: conf_end)

lemma acceptable_echoes:
  "list_all (\<lambda>t. length t \<le> maxFrame) ts \<Longrightarrow> list_all acceptable (map (data_frame WS_TEXT) ts)"
  by (induction ts) (simp_all add: acceptable_def no_rsv_def data_frame_def empty_frame_def)

section \<open>Conversations\<close>

text \<open>
  A server whose message handler sends every message back, with texts already waiting on the strand:
  the client receives those and then its own.
\<close>

lemma conversation:
  assumes "list_all (\<lambda>(k, t). length k = 4 \<and> length t \<le> maxFrame) kts" "list_all (\<lambda>t. length t \<le> maxFrame) us"
    "live w" "on_message (handlers w) = Some (\<lambda>m. [SendTextAsync m])" "strand w = map TaskText us" "wire w = []"
    "\<not> c_stopped c" "\<not> c_assembling c" "c_sent c = []" "length kts + length us < fuel"
    "\<not> c_assembling d"
  shows "\<exists>fb' s' w' msgs c'.
    do_read_loop list_read maxMsg fuel (c_sent (send_texts kts c)) w = Some (LoopError NetEof, fb', s', w') \<and>
    receive_loop list_read fuel fuel (wire (run_tasks (strand w') w')) d = Some (msgs, ServerClosed, c') \<and>
    map m_payload msgs = us @ map snd kts"
proof -
  let ?fs = "map (\<lambda>(k, t). text_frame (decode_key k 0) t) kts"
  let ?ts = "map snd kts"
  let ?w = "traffic ?ts [] w"
  have k: "list_all (\<lambda>(k, t). length k = 4) kts" "list_all (\<lambda>(k, t). length t \<le> maxMsg) kts"
    "list_all (\<lambda>t. length t \<le> maxFrame) (us @ ?ts)"
    using assms(1,2) by (auto simp: list_all_iff maxMsg_def maxFrame_def)
  have sent: "c_sent (send_texts kts c) = concat (map write_frame ?fs)"
    using send_texts_eq [OF assms(7) k(1)] assms(9) by simp
  have n: "length ?fs < fuel" using assms(10) by simp
  obtain fb' s' where loop: "do_read_loop list_read maxMsg fuel (concat (map write_frame ?fs)) w =
      Some (LoopError NetEof, fb', s', ?w)"
    using list_stream.do_read_loop_eof [OF conforming_texts [OF k(2)] order_refl assms(3) id_apply n] by auto
  have "concat (map (message_tasks (handlers w) True) ts) = map TaskText ts" for ts
    by (induction ts) (simp_all add: message_tasks_def assms(4))
  then have "strand ?w = map TaskText (us @ ?ts)" by (simp add: traffic_eq assms(5) del: map_map)
  moreover have "live ?w" "wire ?w = []" using assms(3,6) by (simp_all add: traffic_eq live_def)
  ultimately have wire: "wire (run_tasks (strand ?w) ?w) = concat (map write_frame (map (data_frame WS_TEXT) (us @ ?ts)))"
    by (simp only: run_tasks_text) (simp add: comp_def)
  have m: "length (map (data_frame WS_TEXT) (us @ ?ts)) < fuel" using assms(10) by simp
  show ?thesis
    using receive_loop_conforming [OF conforming_echoes [OF k(3)] acceptable_echoes [OF k(3)] assms(11) m m]
    by (metis loop sent wire)
qed

section \<open>What the client accepts\<close>

lemma read_any_list_Inr: "read_any list_read n s = Inr (x, s') \<Longrightarrow> length x = n"
  by (auto simp: read_any_def list_read_def split: if_splits)

lemma length_mask_bytes [simp]: "length (mask_bytes key i bs) = length bs"
  by (induction bs arbitrary: i) auto

lemma client_payload_Inr:
  assumes "client_payload list_read fn op masked len s = Inr (f, s')"
  shows "length (in_payload f) \<le> maxFrame" "in_opcode f = op" "op \<noteq> 0x8"
proof -
  have len: "unat len \<le> maxFrame"
    using assms by (auto simp: client_payload_def MAX_FRAME_PAYLOAD_def maxFrame_def word_less_nat_alt split: sum.splits if_splits)
  show "length (in_payload f) \<le> maxFrame" "in_opcode f = op" "op \<noteq> 0x8"
    using assms len by (auto simp: client_payload_def word_gt_0 dest!: read_any_list_Inr split: sum.splits if_splits)
qed

lemma read_frame_Inr:
  assumes "read_frame list_read s = Inr (f, s')"
  shows "length (in_payload f) \<le> maxFrame" "in_opcode f \<in> {WS_CONT, WS_TEXT, WS_BINARY, WS_PING, WS_PONG}"
proof -
  obtain fn op m len s2 where p: "client_payload list_read fn op m len s2 = Inr (f, s')"
    and op: "op \<in> {0x0, 0x1, 0x2, 0x8, 0x9, 0xA}"
    using assms unfolding read_frame_def Let_def
    by (simp only: sum.distinct split: sum.splits prod.splits if_splits; blast)
  show "length (in_payload f) \<le> maxFrame" by (rule client_payload_Inr(1) [OF p])
  show "in_opcode f \<in> {WS_CONT, WS_TEXT, WS_BINARY, WS_PING, WS_PONG}"
    using op client_payload_Inr(2,3) [OF p] by (auto simp: ws_opcodes)
qed

end
