(* ===== verification/Client_Properties.thy ===== *)
theory Client_Properties
  imports Ws_Duplex
begin

text \<open>
  The properties of the WebSocket client, alone and against the server's connection.
\<close>

section \<open>Client and server\<close>

text \<open>
  A text frame of the client is understood.  The frame \<^verbatim>\<open>make_frame_text\<close> builds by hand, with
  any four mask bytes and any length, is read by the server as a complete, masked text frame with
  the client's text, and nothing of the stream behind it is touched.
\<close>

theorem client_text_reaches_server:
  assumes "byte_stream rd view" "view s = make_frame_text key m @ rest" "length key = 4"
    "length header = 14" "length m < 2 ^ 64" "length m \<le> alloc_max"
  shows "\<exists>g header' s'. ws_read_frame rd alloc_max header s = Inr (g, header', s') \<and>
    fin g \<and> opcode g = WS_TEXT \<and> mask_bit g \<and> payload_data g = m \<and> view s' = rest"
proof -
  let ?f = "text_frame (decode_key key 0) m"
  have v: "view s = write_frame ?f @ rest" using assms(2) make_frame_text_eq [OF assms(3)] by simp
  have "mask_bit ?f" by (simp add: text_frame_def)
  with byte_stream.ws_read_write_stream [OF assms(1) v assms(4)] assms(5,6) show ?thesis
    by (metis opcode_nibble(2) received_simps text_frame_simps)
qed

theorem client_text_reaches_server_witness:
  "\<exists>g header' s'. ws_read_frame seg_read 100 (replicate 14 0)
      [[0x81, 0x83], [1, 2, 3, 4, 0x60], [0x63, 0x61, 9]] = Inr (g, header', s') \<and>
    fin g \<and> opcode g = WS_TEXT \<and> mask_bit g \<and> payload_data g = [0x61, 0x61, 0x62] \<and> concat s' = [9]"
  using client_text_reaches_server [OF seg_stream.byte_stream_axioms,
      of "[[0x81, 0x83], [1, 2, 3, 4, 0x60], [0x63, 0x61, 9]]" "[1, 2, 3, 4]" "[0x61, 0x61, 0x62]" "[9]"
        "replicate 14 0" 100]
  by (simp add: make_frame_text_def)




text \<open>
  C16: The client reassembles.  On conforming traffic whose frames have no reserved bits and at most
  eight mebibytes each, the client's receive loop returns exactly the messages of the specification
  in order, whatever their fragmentation, and stops when the server is gone.
\<close>

theorem client_receives_messages:
  assumes "conforming L None fs ms ps"
    "list_all (\<lambda>f. \<not> rsv1 f \<and> \<not> rsv2 f \<and> \<not> rsv3 f \<and> length (payload_data f) \<le> 8 * 1024 * 1024) fs"
    "\<not> c_assembling c" "length fs < k" "length fs < fuel"
  shows "\<exists>msgs c'. receive_loop list_read k fuel (concat (map write_frame fs)) c = Some (msgs, ServerClosed, c') \<and>
    map m_payload msgs = ms \<and> c_stopped c'"
proof -
  have "list_all acceptable fs"
    using assms(2) by (simp add: list_all_iff acceptable_def no_rsv_def maxFrame_def)
  from receive_loop_conforming [OF assms(1) this assms(3-5)] show ?thesis .
qed

theorem client_receives_messages_witness:
  "\<exists>msgs c'. receive_loop list_read 4 4 (concat (map write_frame (split_frames WS_TEXT [[0x61], [0x62], [0x63]]))) new_client =
      Some (msgs, ServerClosed, c') \<and> map m_payload msgs = [[0x61, 0x62, 0x63]]"
proof -
  have c: "conforming maxMsg None (split_frames WS_TEXT [[0x61], [0x62], [0x63]]) [[0x61, 0x62, 0x63]] []"
    using conforming_split [of WS_TEXT "[[0x61], [0x62], [0x63]]" maxMsg "[]" "[]" "[]"]
    by (simp add: maxMsg_def conf_end)
  have a: "list_all (\<lambda>f. \<not> rsv1 f \<and> \<not> rsv2 f \<and> \<not> rsv3 f \<and> length (payload_data f) \<le> 8 * 1024 * 1024)
      (split_frames WS_TEXT [[0x61], [0x62], [0x63]])"
    and n: "\<not> c_assembling new_client" "length (split_frames WS_TEXT [[0x61], [0x62], [0x63]]) < 4"
    by (simp_all add: part_frame_def data_frame_def empty_frame_def new_client_def)
  show ?thesis
    using client_receives_messages [OF c a n(1) n(2) n(2)] by (elim exE conjE) (intro exI conjI)
qed

section \<open>Limits and deviations of the client\<close>

text \<open>
  The client's frames are bounded.  Whatever the server sends, a frame the client accepts has
  one of the opcodes of the protocol other than close, and at most eight mebibytes of payload.
\<close>

theorem client_frame_bounded:
  assumes "read_frame list_read s = Inr (f, s')"
  shows "length (in_payload f) \<le> 8 * 1024 * 1024 \<and>
    in_opcode f \<in> {WS_CONT, WS_TEXT, WS_BINARY, WS_PING, WS_PONG}"
  using read_frame_Inr [OF assms] by (simp add: maxFrame_def)

theorem client_frame_bounded_witness:
  "read_frame list_read [0x82, 2, 5, 6] = Inr (\<lparr>in_opcode = 2, in_fin = True, in_payload = [5, 6]\<rparr>, []) \<and>
   length ([5, 6] :: bytes) \<le> 8 * 1024 * 1024"
proof -
  have r: "read_frame list_read [0x82, 2, 5, 6] = Inr (\<lparr>in_opcode = 2, in_fin = True, in_payload = [5, 6]\<rparr>, [])"
    by (simp add: read_frame_def read_any_def list_read_def client_length_def client_payload_def
        MAX_FRAME_PAYLOAD_def)
  from client_frame_bounded [OF r] r show ?thesis by simp
qed

text \<open>
  The client's base 64 is not base 64.  It computes the encoding with every padding sign
  replaced by the letter A, so that the sixteen byte handshake key, like any input whose length is
  no multiple of three, is encoded wrongly.
\<close>

theorem client_base64_padding:
  "client_base64_encode bs = map (\<lambda>c. if c = CHR ''='' then CHR ''A'' else c) (base64_encode bs) \<and>
   CHR ''='' \<notin> set (generate_key bs)"
proof -
  have e: "client_base64_encode xs = map unpad (base64_encode xs)" for xs
    by (simp add: client_base64_encode_def client_b64_eq base64_encode_eq)
  have "unpad = (\<lambda>c. if c = CHR ''='' then CHR ''A'' else c)"
    by (auto simp: unpad_def)
  moreover have "CHR ''='' \<notin> set (map unpad xs)" for xs
    by (auto simp: unpad_def)
  ultimately show ?thesis by (metis e generate_key_def)
qed

text \<open>
  The handshake check looks for three digits.  Any response that contains \<^verbatim>\<open>101\<close> anywhere
  passes, a refusal whose length happens to be 101 as well; any response without them is an error
  that carries the whole response.
\<close>

theorem handshake_accepts_digits:
  "check_handshake (a @ ''101'' @ b) = Inr () \<and>
   (\<not> has_substring ''101'' r \<longrightarrow> check_handshake r = Inl (HandshakeFailed r)) \<and>
   check_handshake (''HTTP/1.1 404 Not Found'' @ [newline] @ ''Content-Length: 101'' @ [newline]) = Inr ()"
proof -
  have "check_handshake (x @ ''101'' @ y) = Inr ()" for x y
    using has_substring_infix [of "''101''" x y] by (simp add: check_handshake_def)
  from this [of a b] this [of "''HTTP/1.1 404 Not Found'' @ [newline] @ ''Content-Length: ''" "[newline]"]
  show ?thesis by (simp add: check_handshake_def)
qed

theorem handshake_accepts_digits_witness:
  "check_handshake ''HTTP/1.1 200 OK'' = Inl (HandshakeFailed ''HTTP/1.1 200 OK'')"
  using handshake_accepts_digits [of "[]" "[]" "''HTTP/1.1 200 OK''"] by simp

end
