(* ===== verification/Http_Client.thy ===== *)
theory Http_Client
  imports Http_IO
begin

text \<open>
  The HTTP client: \<^verbatim>\<open>include/http_client_example.h\<close> and \<^verbatim>\<open>src/http_client.cpp\<close>, over a
  connected plain socket.  The request goes out as one string; the response is read to the end of
  the stream, which is the list of segments the server sent and the way the stream ended.
\<close>

section \<open>Requests\<close>

record http_client =
  h_host :: string
  h_stopped :: bool

definition new_http_client :: http_client where
  "new_http_client = \<lparr>h_host = [], h_stopped = False\<rparr>"

definition http_connect :: "string \<Rightarrow> http_client \<Rightarrow> http_client" where
  "http_connect host c = c\<lparr>h_host := host\<rparr>"

text \<open>The request of \<^verbatim>\<open>send_request\<close>; the caller's headers come last and replace earlier ones.\<close>

definition client_request :: "http_method \<Rightarrow> string \<Rightarrow> string \<Rightarrow> (string \<times> string) list \<Rightarrow> http_client \<Rightarrow> request" where
  "client_request m target b hs c =
     (let r = empty_request\<lparr>rq_method := m, rq_version := ''HTTP/1.1'', rq_target := target, rq_body := b\<rparr>;
          h = hdr_set ''Host'' (h_host c) [];
          h = hdr_set ''Connection'' ''close'' h;
          h = (if m = POST
               then hdr_set ''Content-Type'' ''text/plain; charset=utf-8''
                      (hdr_set ''Content-Length'' (dec (length b)) h)
               else h);
          h = foldl (\<lambda>h (k, v). hdr_set k v h) h hs
      in r\<lparr>rq_headers := h\<rparr>)"

section \<open>Responses\<close>

datatype stream_end = StreamEof | StreamError

text \<open>The loop over the header lines: what they were, and what is left behind the empty one.\<close>

function split_head :: "string \<Rightarrow> string \<Rightarrow> string \<times> string" where
  "split_head s headers =
     (case getline s of
        None \<Rightarrow> (headers, s)
      | Some (line, s) \<Rightarrow>
          if line \<noteq> [carriage] then split_head s (headers @ line @ [newline]) else (headers, s))"
  by pat_completeness auto
termination by (relation "measure (\<lambda>(s, h). length s)") (auto dest: getline_shorter)

declare split_head.simps [simp del]

definition read_response :: "string list \<Rightarrow> stream_end \<Rightarrow> http_client \<Rightarrow> string \<times> http_client" where
  "read_response cs e c =
     (case seg_until cs [] of
        Inl x \<Rightarrow>
          (if e = StreamError then ([], c\<lparr>h_stopped := True\<rparr>)
           else (let (headers, leftover) = split_head (concat cs) []
                 in (headers @ leftover, c\<lparr>h_stopped := True\<rparr>)))
      | Inr (buf, n, cs) \<Rightarrow>
          (let (headers, leftover) = split_head buf []
           in (headers @ leftover @ concat cs, c\<lparr>h_stopped := True\<rparr>)))"

text \<open>
  \<^verbatim>\<open>get\<close> and \<^verbatim>\<open>post\<close>: nothing once the client has stopped; otherwise what is sent, and the
  response to what the peer answers.
\<close>

definition send_request :: "(headers \<Rightarrow> headers) \<Rightarrow> http_method \<Rightarrow> string \<Rightarrow> string \<Rightarrow> (string \<times> string) list \<Rightarrow>
    (string \<Rightarrow> string list \<times> stream_end) \<Rightarrow> http_client \<Rightarrow> string \<times> http_client" where
  "send_request iter m target b hs peer c =
     (let (cs, e) = peer (rq_to_string iter (client_request m target b hs c)) in read_response cs e c)"

definition http_get :: "(headers \<Rightarrow> headers) \<Rightarrow> string \<Rightarrow> (string \<times> string) list \<Rightarrow>
    (string \<Rightarrow> string list \<times> stream_end) \<Rightarrow> http_client \<Rightarrow> string \<times> http_client" where
  "http_get iter target hs peer c =
     (if h_stopped c then ([], c) else send_request iter GET target [] hs peer c)"

definition http_post :: "(headers \<Rightarrow> headers) \<Rightarrow> string \<Rightarrow> string \<Rightarrow> (string \<times> string) list \<Rightarrow>
    (string \<Rightarrow> string list \<times> stream_end) \<Rightarrow> http_client \<Rightarrow> string \<times> http_client" where
  "http_post iter target b hs peer c =
     (if h_stopped c then ([], c) else send_request iter POST target b hs peer c)"

end
