(* ===== verification/Server_Routing.thy ===== *)
theory Server_Routing
  imports Http_Utils Ws_Conn
begin

text \<open>
  What a server dispatches on: the route tables, the WebSocket routes and the static mounts of
  \<^verbatim>\<open>include/server.h\<close>, with \<^verbatim>\<open>Server::MountStatic\<close> of \<^verbatim>\<open>src/server.cpp\<close>.  A handler is a
  function from the request; \<^const>\<open>None\<close> is a handler that throws.  The static mounts are a map
  ordered by \<^verbatim>\<open>PrefixComparator\<close>, an instance of the library's linear orders.
\<close>

section \<open>Mount prefixes and their order\<close>

definition PrefixComparator :: "string \<Rightarrow> string \<Rightarrow> bool" where
  "PrefixComparator a b = (if length a \<noteq> length b then length a > length b else a < b)"

datatype mount_key = MountKey (prefix_of: string)

instantiation mount_key :: linorder
begin

definition less_mount_key :: "mount_key \<Rightarrow> mount_key \<Rightarrow> bool" where
  "less_mount_key a b = PrefixComparator (prefix_of a) (prefix_of b)"

definition less_eq_mount_key :: "mount_key \<Rightarrow> mount_key \<Rightarrow> bool" where
  "less_eq_mount_key a b = (a = b \<or> a < b)"

instance
proof
  fix x y z :: mount_key
  show "(x < y) = (x \<le> y \<and> \<not> y \<le> x)"
    by (cases x; cases y) (auto simp: less_eq_mount_key_def less_mount_key_def PrefixComparator_def split: if_splits)
  show "x \<le> x" by (simp add: less_eq_mount_key_def)
  show "x \<le> y \<Longrightarrow> y \<le> z \<Longrightarrow> x \<le> z"
    by (auto simp: less_eq_mount_key_def less_mount_key_def PrefixComparator_def split: if_splits)
  show "x \<le> y \<Longrightarrow> y \<le> x \<Longrightarrow> x = y"
    by (auto simp: less_eq_mount_key_def less_mount_key_def PrefixComparator_def split: if_splits)
  show "x \<le> y \<or> y \<le> x"
    by (cases x; cases y) (auto simp: less_eq_mount_key_def less_mount_key_def PrefixComparator_def)
qed

end

section \<open>Tables\<close>

type_synonym handler = "request \<Rightarrow> response option"
type_synonym mount_map = "(mount_key \<times> string) list"

record router =
  routes :: "http_method \<rightharpoonup> (string \<rightharpoonup> handler)"
  ws_routes :: "string \<rightharpoonup> ws_handlers"
  static_mounts :: mount_map

definition empty_router :: router where
  "empty_router = \<lparr>routes = Map.empty, ws_routes = Map.empty, static_mounts = []\<rparr>"

text \<open>\<^verbatim>\<open>routes_[method].emplace\<close>: the first handler of a path stays.\<close>

definition add_route :: "http_method \<Rightarrow> string \<Rightarrow> handler \<Rightarrow> router \<Rightarrow> router" where
  "add_route m path h r =
     (let table = (case routes r m of None \<Rightarrow> Map.empty | Some t \<Rightarrow> t);
          table = (if table path \<noteq> None then table else table(path \<mapsto> h))
      in r\<lparr>routes := (routes r)(m \<mapsto> table)\<rparr>)"

definition Get :: "string \<Rightarrow> handler \<Rightarrow> router \<Rightarrow> router" where
  "Get path h r = add_route GET path h r"

definition Post :: "string \<Rightarrow> handler \<Rightarrow> router \<Rightarrow> router" where
  "Post path h r = add_route POST path h r"

definition Put :: "string \<Rightarrow> handler \<Rightarrow> router \<Rightarrow> router" where
  "Put path h r = add_route PUT path h r"

definition Delete :: "string \<Rightarrow> handler \<Rightarrow> router \<Rightarrow> router" where
  "Delete path h r = add_route DELETE path h r"

text \<open>The lookup at the start of \<^verbatim>\<open>handle_request\<close>.\<close>

definition find_route :: "http_method \<Rightarrow> string \<Rightarrow> router \<Rightarrow> handler option" where
  "find_route m path r = (case routes r m of None \<Rightarrow> None | Some table \<Rightarrow> table path)"

text \<open>
  \<^verbatim>\<open>WsRouter\<close>: handlers are collected one by one and committed when the temporary is destroyed.
  The last commit of a path wins.
\<close>

definition commit_ws_route :: "string \<Rightarrow> ws_handlers \<Rightarrow> router \<Rightarrow> router" where
  "commit_ws_route path hs r = r\<lparr>ws_routes := (ws_routes r)(path \<mapsto> hs)\<rparr>"

definition router_on_open :: "ws_call list \<Rightarrow> ws_handlers \<Rightarrow> ws_handlers" where
  "router_on_open h hs = hs\<lparr>on_open := Some h\<rparr>"

definition router_on_message :: "(bytes \<Rightarrow> ws_call list) \<Rightarrow> ws_handlers \<Rightarrow> ws_handlers" where
  "router_on_message h hs = hs\<lparr>on_message := Some h\<rparr>"

definition router_on_close :: "(u16 \<Rightarrow> bytes \<Rightarrow> ws_call list) \<Rightarrow> ws_handlers \<Rightarrow> ws_handlers" where
  "router_on_close h hs = hs\<lparr>on_close := Some h\<rparr>"

definition WebSocketRouter :: "string \<Rightarrow> (ws_handlers \<Rightarrow> ws_handlers) list \<Rightarrow> router \<Rightarrow> router" where
  "WebSocketRouter path setters r = commit_ws_route path (fold (\<lambda>f hs. f hs) setters no_handlers) r"

definition find_ws :: "string \<Rightarrow> router \<Rightarrow> ws_handlers option" where
  "find_ws path r = ws_routes r path"

section \<open>Static mounts\<close>

text \<open>\<^verbatim>\<open>std::map::emplace\<close> in the order of the comparator.\<close>

fun mount_emplace :: "mount_key \<Rightarrow> string \<Rightarrow> mount_map \<Rightarrow> mount_map" where
  "mount_emplace k root [] = [(k, root)]"
| "mount_emplace k root ((k', root') # m) =
     (if k < k' then (k, root) # (k', root') # m
      else if k = k' then (k', root') # m
      else (k', root') # mount_emplace k root m)"

text \<open>
  \<^verbatim>\<open>MountStatic\<close>.  \<open>canonical\<close> is \<^verbatim>\<open>fs::weakly_canonical\<close>, which may throw; then nothing is
  mounted.
\<close>

definition is_relative :: "string \<Rightarrow> bool" where
  "is_relative p = (p = [] \<or> hd p \<noteq> CHR ''/'')"

definition MountStatic :: "(string \<Rightarrow> string option) \<Rightarrow> string \<Rightarrow> string \<Rightarrow> router \<Rightarrow> router option" where
  "MountStatic canonical prefix root r =
     (case (if root \<noteq> [] \<and> is_relative root then canonical root else Some root) of
        None \<Rightarrow> None
      | Some root \<Rightarrow> Some (r\<lparr>static_mounts := mount_emplace (MountKey prefix) root (static_mounts r)\<rparr>))"

text \<open>The loop that picks the mount of a path.\<close>

fun find_mount :: "string \<Rightarrow> mount_map \<Rightarrow> (string \<times> string) option" where
  "find_mount path [] = None"
| "find_mount path ((k, root) # m) =
     (if is_prefix (prefix_of k) path then Some (prefix_of k, root) else find_mount path m)"

definition mounts_ok :: "mount_map \<Rightarrow> bool" where
  "mounts_ok m \<longleftrightarrow> sorted_wrt (<) (map fst m)"

section \<open>Lemmas\<close>

lemma find_route_add:
  "find_route m' path' (add_route m path h r) =
    (if m' = m \<and> path' = path \<and> find_route m path r = None then Some h else find_route m' path' r)"
  by (auto simp: find_route_def add_route_def Let_def split: option.splits)

lemma find_ws_commit:
  "find_ws path' (commit_ws_route path hs r) = (if path' = path then Some hs else find_ws path' r)"
  by (simp add: find_ws_def commit_ws_route_def)

lemma route_frames [simp]:
  "ws_routes (add_route m path h r) = ws_routes r"
  "static_mounts (add_route m path h r) = static_mounts r"
  "routes (commit_ws_route path hs r) = routes r"
  "static_mounts (commit_ws_route path hs r) = static_mounts r"
  by (simp_all add: add_route_def commit_ws_route_def Let_def)

text \<open>The mounts stay in the order of the comparator; a prefix keeps its first root.\<close>

lemma mount_emplace_keys: "fst ` set (mount_emplace k root m) = insert k (fst ` set m)"
  by (induction k root m rule: mount_emplace.induct) auto

lemma mounts_ok_emplace: "mounts_ok m \<Longrightarrow> mounts_ok (mount_emplace k root m)"
proof (induction k root m rule: mount_emplace.induct)
  case (2 k root k' root' m)
  then show ?case
    using mount_emplace_keys [of k root m]
    by (force simp: mounts_ok_def not_less_iff_gr_or_eq)
qed (simp add: mounts_ok_def)

lemma mount_emplace_find:
  "mounts_ok m \<Longrightarrow> map_of (mount_emplace k root m) k' =
    (if k' = k \<and> map_of m k = None then Some root else map_of m k')"
proof (induction k root m rule: mount_emplace.induct)
  case (2 k root k1 root1 m)
  have "k < k1 \<Longrightarrow> map_of m k = None"
    using 2(2) by (force simp: mounts_ok_def map_of_eq_None_iff)
  with 2 show ?case by (auto simp: mounts_ok_def)
qed simp

lemma find_mount_Some:
  "find_mount path m = Some (p, root) \<Longrightarrow>
   (MountKey p, root) \<in> set m \<and> is_prefix p path"
proof (induction path m rule: find_mount.induct)
  case (2 path k root m)
  then show ?case by (cases k) (auto split: if_splits)
qed simp

lemma find_mount_None: "find_mount path m = None \<longleftrightarrow> (\<forall>(k, root) \<in> set m. \<not> is_prefix (prefix_of k) path)"
  by (induction path m rule: find_mount.induct) auto

lemma find_mount_longest:
  "mounts_ok m \<Longrightarrow> find_mount path m = Some (p, root) \<Longrightarrow> (MountKey q, r) \<in> set m \<Longrightarrow>
   is_prefix q path \<Longrightarrow> length q \<le> length p"
proof (induction path m rule: find_mount.induct)
  case (2 path k root' m)
  show ?case
  proof (cases "is_prefix (prefix_of k) path")
    case True
    then have p: "p = prefix_of k" using 2(3) by simp
    from 2(4) consider "MountKey q = k" | "(MountKey q, r) \<in> set m" by auto
    then show ?thesis
    proof cases
      case 1
      then show ?thesis using p by (cases k) auto
    next
      case second: 2
      then have "k < MountKey q" using 2(2) by (force simp: mounts_ok_def)
      then show ?thesis using p by (auto simp: less_mount_key_def PrefixComparator_def split: if_splits)
    qed
  next
    case False
    moreover have "MountKey q \<noteq> k" using False 2(5) by auto
    ultimately show ?thesis using 2 by (auto simp: mounts_ok_def)
  qed
qed simp

end
