(* ===== verification/Server_Static.thy ===== *)
theory Server_Static
  imports Server_Routing Http_IO
begin

text \<open>
  Files: \<^verbatim>\<open>ext_type\<close>, \<^verbatim>\<open>Server::serve_static\<close>, \<^verbatim>\<open>Server::write_file_response\<close> and
  \<^verbatim>\<open>Server::sendfile_fast_path\<close> of \<^verbatim>\<open>src/server.cpp\<close>, for Linux and for
  Windows.  The lexical operations of
  \<^verbatim>\<open>std::filesystem::path\<close> are written out for POSIX; what the operating system answers is the
  record \<open>file_system\<close>.
\<close>

section \<open>Paths\<close>

definition relative_path :: "string \<Rightarrow> string" where
  "relative_path p = dropWhile (\<lambda>c. c = CHR ''/'') p"

definition has_filename :: "string \<Rightarrow> bool" where
  "has_filename p = (p \<noteq> [] \<and> last p \<noteq> CHR ''/'')"

text \<open>\<^verbatim>\<open>operator/\<close>; an absolute right operand replaces the left one.\<close>

definition path_append :: "string \<Rightarrow> string \<Rightarrow> string" where
  "path_append a b =
     (if b \<noteq> [] \<and> hd b = CHR ''/'' then b
      else if has_filename a then a @ CHR ''/'' # b else a @ b)"

definition filename :: "string \<Rightarrow> string" where
  "filename p = rev (takeWhile (\<lambda>c. c \<noteq> CHR ''/'') (rev p))"

text \<open>The extension: from the last dot of the file name on, unless the name starts with that dot.\<close>

definition extension :: "string \<Rightarrow> string" where
  "extension p =
     (let f = filename p; ext = takeWhile (\<lambda>c. c \<noteq> CHR ''.'') (rev f); n = length ext
      in if f = ''.'' \<or> f = ''..'' \<or> n = length f \<or> n + 1 = length f then []
         else CHR ''.'' # rev ext)"

section \<open>Content types\<close>

definition type_table :: "(string \<times> string) list" where
  "type_table =
     [(''html'', ''text/html; charset=utf-8''), (''htm'', ''text/html; charset=utf-8''),
      (''css'', ''text/css''), (''js'', ''application/javascript''), (''mjs'', ''application/javascript''),
      (''json'', ''application/json''), (''txt'', ''text/plain; charset=utf-8''),
      (''xml'', ''application/xml''), (''svg'', ''image/svg+xml''), (''png'', ''image/png''),
      (''jpg'', ''image/jpeg''), (''jpeg'', ''image/jpeg''), (''gif'', ''image/gif''),
      (''webp'', ''image/webp''), (''ico'', ''image/x-icon''), (''pdf'', ''application/pdf''),
      (''wasm'', ''application/wasm''), (''mp4'', ''video/mp4'')]"

definition ext_type :: "string \<Rightarrow> string" where
  "ext_type ext =
     (let e = (if ext \<noteq> [] \<and> hd ext = CHR ''.'' then tl ext else ext);
          e = map to_lower e
      in case map_of type_table e of Some t \<Rightarrow> t | None \<Rightarrow> ''application/octet-stream'')"

section \<open>Serving a path\<close>

text \<open>
  \<open>fs_canonical\<close> is \<^verbatim>\<open>weakly_canonical\<close> (\<^const>\<open>None\<close> when it reports an error), \<open>fs_exists\<close> is
  \<^verbatim>\<open>exists\<close> without an error, \<open>fs_size\<close> is \<^verbatim>\<open>file_size\<close> (\<^const>\<open>None\<close> when it throws, as on a
  directory) and \<open>fs_open\<close> gives the contents of a file that can be opened.
\<close>

record file_system =
  fs_canonical :: "string \<Rightarrow> string option"
  fs_exists :: "string \<Rightarrow> bool"
  fs_size :: "string \<Rightarrow> nat option"
  fs_open :: "string \<Rightarrow> string option"

definition static_tail :: "string \<Rightarrow> string" where
  "static_tail tail = (if tail = [] \<or> last tail = CHR ''/'' then tail @ ''index.html'' else tail)"

text \<open>The root test compares characters: the canonical path must begin with the root.\<close>

definition serve_static :: "file_system \<Rightarrow> mount_map \<Rightarrow> request \<Rightarrow> response option" where
  "serve_static fs mm req =
     (if rq_method req \<noteq> GET then Some (bad_request ''Method not supported'')
      else let (prefix, root) = (case find_mount (rq_path req) mm of None \<Rightarrow> ([], []) | Some m \<Rightarrow> m)
           in if prefix = [] then Some (not_found ''Mount does not exist'')
              else let tail = static_tail (drop (length prefix) (rq_path req));
                       srv_path = path_append root (relative_path tail)
                   in case fs_canonical fs srv_path of
                        None \<Rightarrow> Some (not_found ''Different root path'')
                      | Some canon \<Rightarrow>
                          if \<not> is_prefix root canon then Some (not_found ''Different root path'')
                          else if \<not> fs_exists fs canon
                          then Some (not_found ''File not found in root directory'')
                          else let res = text_response ''OK'' OK_200 ''utf-8'';
                                   res = set_header ''content-type'' (ext_type (extension canon)) res
                               in (case fs_size fs canon of
                                     None \<Rightarrow> None
                                   | Some n \<Rightarrow> Some (res\<lparr>sendfile_path := canon, sendfile_size := n\<rparr>)))"

section \<open>Sending a file\<close>

text \<open>
  The answers of the kernel to \<^verbatim>\<open>sendfile\<close>: a count, a full send buffer, an error.  The loop
  consumes them in order; when there are none left the wait for the socket has failed.  The result
  says whether everything was sent, and what was.
\<close>

datatype send_answer = Sent nat | Again | SendErr

fun sendfile_loop :: "send_answer list \<Rightarrow> string \<Rightarrow> nat \<Rightarrow> nat \<Rightarrow> string \<Rightarrow> bool \<times> string" where
  "sendfile_loop [] file offset remaining out = (remaining = 0, out)"
| "sendfile_loop (a # as) file offset remaining out =
     (if remaining = 0 then (True, out)
      else case a of
             Again \<Rightarrow> sendfile_loop as file offset remaining out
           | SendErr \<Rightarrow> (False, out)
           | Sent n \<Rightarrow>
               if n = 0 then (False, out)
               else sendfile_loop as file (offset + n) (remaining - n)
                      (out @ take n (drop offset file)))"

definition sendfile_fast_path :: "file_system \<Rightarrow> send_answer list \<Rightarrow> string \<Rightarrow> nat \<Rightarrow> bool \<times> string" where
  "sendfile_fast_path fs answers path sz =
     (case fs_open fs path of
        None \<Rightarrow> (False, [])
      | Some file \<Rightarrow> sendfile_loop answers file 0 sz [])"

text \<open>
  The portable loop: blocks of at most 64 KiB; \<open>counts\<close> are the sizes the reads return.
\<close>

definition block_size :: nat where "block_size = 64 * 1024"

fun file_loop :: "nat list \<Rightarrow> string \<Rightarrow> nat \<Rightarrow> nat \<Rightarrow> string \<Rightarrow> string" where
  "file_loop [] file offset remaining out = out"
| "file_loop (n # ns) file offset remaining out =
     (if remaining = 0 then out
      else let to_read = min remaining block_size; n = min n to_read
           in if n = 0 then out
              else file_loop ns file (offset + n) (remaining - n) (out @ take n (drop offset file)))"

text \<open>
  \<^verbatim>\<open>write_file_response\<close>: \<open>native\<close> says that the socket is plain TCP.  A file that cannot be
  opened ends the function without a word to the peer, before or after the head.
\<close>

definition stream_file ::
    "'s text_write \<Rightarrow> (headers \<Rightarrow> headers) \<Rightarrow> file_system \<Rightarrow> nat list \<Rightarrow> response \<Rightarrow> 's \<Rightarrow> net_error + 's" where
  "stream_file wr iter fs counts resp s =
     (case fs_open fs (sendfile_path resp) of
        None \<Rightarrow> Inr s
      | Some file \<Rightarrow>
          (let (head, resp) = prepare_headers iter resp (length file)
           in case wr head s of
                Inl e \<Rightarrow> Inl e
              | Inr s \<Rightarrow> wr (file_loop counts file 0 (length file) []) s))"

definition write_file_response ::
    "'s text_write \<Rightarrow> (headers \<Rightarrow> headers) \<Rightarrow> file_system \<Rightarrow> bool \<Rightarrow> send_answer list \<Rightarrow> nat list \<Rightarrow>
     response \<Rightarrow> 's \<Rightarrow> net_error + 's" where
  "write_file_response wr iter fs native answers counts resp s =
     (let path = sendfile_path resp in
      if native \<and> sendfile_size resp > 0 then
        (let (head, resp) = prepare_headers iter resp (sendfile_size resp)
         in case wr head s of
              Inl e \<Rightarrow> Inl e
            | Inr s \<Rightarrow> wr (snd (sendfile_fast_path fs answers path (sendfile_size resp))) s)
      else stream_file wr iter fs counts resp s)"

text \<open>
  The Windows build.  \<^verbatim>\<open>TransmitFile\<close> either transmits the file or fails after some of it; unlike the
  Linux branch, the branch goes on to the portable loop when it has failed.
\<close>

datatype transmit_answer = Transmitted | TransmitFailed nat

definition transmitfile_fast_path :: "file_system \<Rightarrow> transmit_answer \<Rightarrow> string \<Rightarrow> bool \<times> string" where
  "transmitfile_fast_path fs answer path =
     (case fs_open fs path of
        None \<Rightarrow> (False, [])
      | Some file \<Rightarrow> (case answer of Transmitted \<Rightarrow> (True, file) | TransmitFailed n \<Rightarrow> (False, take n file)))"

definition write_file_response_win ::
    "'s text_write \<Rightarrow> (headers \<Rightarrow> headers) \<Rightarrow> file_system \<Rightarrow> bool \<Rightarrow> transmit_answer \<Rightarrow> nat list \<Rightarrow>
     response \<Rightarrow> 's \<Rightarrow> net_error + 's" where
  "write_file_response_win wr iter fs plain answer counts resp s =
     (let path = sendfile_path resp in
      if plain \<and> sendfile_size resp > 0 then
        (let (head, resp) = prepare_headers iter resp (sendfile_size resp)
         in case wr head s of
              Inl e \<Rightarrow> Inl e
            | Inr s \<Rightarrow>
                (let (ok, sent) = transmitfile_fast_path fs answer path
                 in case wr sent s of
                      Inl e \<Rightarrow> Inl e
                    | Inr s \<Rightarrow> if ok then Inr s else stream_file wr iter fs counts resp s))
      else stream_file wr iter fs counts resp s)"

section \<open>Lemmas\<close>

text \<open>The contract of the kernel: it never sends more than it was asked to.\<close>

fun answers_fit :: "nat \<Rightarrow> send_answer list \<Rightarrow> bool" where
  "answers_fit remaining [] = True"
| "answers_fit remaining (Sent n # as) = (n \<le> remaining \<and> answers_fit (remaining - n) as)"
| "answers_fit remaining (a # as) = answers_fit remaining as"

lemma take_drop_extend: "take n file @ take m (drop n file) = take (n + m) file"
  by (simp add: take_add)

lemma sendfile_loop_sends:
  "answers_fit remaining as \<Longrightarrow> sendfile_loop as file offset remaining (take offset file) = (ok, out) \<Longrightarrow>
   \<exists>k \<le> remaining. out = take (offset + k) file \<and> (ok \<longleftrightarrow> k = remaining)"
proof (induction as arbitrary: offset remaining)
  case Nil
  then show ?case by auto
next
  case (Cons a as)
  consider (zero) "remaining = 0" | (again) "remaining \<noteq> 0" "a = Again"
    | (stop) "remaining \<noteq> 0" "a = SendErr \<or> a = Sent 0"
    | (more) n where "remaining \<noteq> 0" "a = Sent n" "n \<noteq> 0"
    by (cases a) auto
  then show ?case
  proof cases
    case zero
    then show ?thesis using Cons.prems(2) by (intro exI [of _ 0]) auto
  next
    case again
    then show ?thesis using Cons by simp
  next
    case stop
    then show ?thesis using Cons.prems(2) by (intro exI [of _ 0]) auto
  next
    case more
    then have "\<exists>k \<le> remaining - n. out = take (offset + n + k) file \<and> (ok \<longleftrightarrow> k = remaining - n)"
      using Cons by (simp add: take_drop_extend)
    then obtain k where "k \<le> remaining - n" "out = take (offset + n + k) file" "ok \<longleftrightarrow> k = remaining - n"
      by blast
    then show ?thesis using Cons.prems(1) more by (intro exI [of _ "n + k"]) (auto simp: add.assoc)
  qed
qed

text \<open>What \<^const>\<open>serve_static\<close> hands out.\<close>

lemma serve_static_file:
  assumes "serve_static fs mm req = Some resp" "sendfile_path resp \<noteq> []"
  shows "rq_method req = GET \<and> (\<exists>prefix root. find_mount (rq_path req) mm = Some (prefix, root) \<and> prefix \<noteq> [] \<and>
    fs_canonical fs (path_append root (relative_path (static_tail (drop (length prefix) (rq_path req))))) =
      Some (sendfile_path resp) \<and>
    is_prefix root (sendfile_path resp) \<and> fs_exists fs (sendfile_path resp) \<and>
    fs_size fs (sendfile_path resp) = Some (sendfile_size resp) \<and>
    rs_header resp ''content-type'' = ext_type (extension (sendfile_path resp)))"
proof -
  have n: "sendfile_path (not_found x) = []" "sendfile_path (bad_request x) = []" for x
    by (simp_all add: not_found_def bad_request_def set_content_def default_response_def)
  have c: "rs_header ((set_header ''content-type'' t r)\<lparr>sendfile_path := p, sendfile_size := k\<rparr>) ''content-type'' = t"
    for t r p k
    using rs_header_set_header [of "''content-type''" t r "''content-type''"] by (simp add: rs_header_def)
  show ?thesis
    using assms c by (auto simp: serve_static_def Let_def n split: if_splits option.splits prod.splits)
qed

text \<open>The portable loop copies the file when every read gets something and there are enough of them.\<close>

lemma file_loop_copies:
  "list_all (\<lambda>n. 0 < n) ns \<Longrightarrow> offset + remaining = length file \<Longrightarrow> remaining \<le> length ns \<Longrightarrow>
   file_loop ns file offset remaining (take offset file) = file"
proof (induction ns arbitrary: offset remaining)
  case (Cons n ns)
  show ?case
  proof (cases "remaining = 0")
    case False
    define k where "k = min n (min remaining block_size)"
    have k: "k \<noteq> 0" "k \<le> remaining" using Cons.prems(1) False by (auto simp: k_def block_size_def)
    have "file_loop ns file (offset + k) (remaining - k) (take (offset + k) file) = file"
      using Cons.prems k by (intro Cons.IH) auto
    then show ?thesis using False k by (simp add: Let_def k_def [symmetric] take_add)
  qed (use Cons.prems in simp)
qed simp

text \<open>
  On Windows a failed transfer is followed by the whole response again: the peer gets the head, a
  part of the file, the same head and the file.
\<close>

lemma failed_transfer_repeats_head:
  fixes iter :: "headers \<Rightarrow> headers"
  assumes "fs_open fs (sendfile_path resp) = Some file" "sendfile_size resp = length file" "file \<noteq> []"
    "list_all (\<lambda>n. 0 < n) counts" "length file \<le> length counts"
  defines "head \<equiv> fst (prepare_headers iter resp (length file))"
  shows "write_file_response_win (\<lambda>x out. Inr (out @ x)) iter fs True (TransmitFailed n) counts resp out =
    Inr (out @ head @ take n file @ head @ file)"
proof -
  obtain r where p: "prepare_headers iter resp (length file) = (head, r)"
    by (cases "prepare_headers iter resp (length file)") (simp add: head_def)
  then have r: "sendfile_path r = sendfile_path resp" "rs_has_header r ''Content-Length''" "head = rs_to_string_header iter r"
    by (auto simp: prepare_headers_def Let_def rs_has_header_set_header split: if_splits)
  have h: "prepare_headers iter r (length file) = (head, r)"
    using r(2,3) by (simp add: prepare_headers_def)
  have "file_loop counts file 0 (length file) [] = file"
    using file_loop_copies [of counts 0 "length file" "file"] assms(4,5) by simp
  then show ?thesis
    using assms(1-3) by (simp add: write_file_response_win_def transmitfile_fast_path_def stream_file_def p h r(1))
qed

end
