(* ===== verification/Http_Roundtrip.thy ===== *)
theory Http_Roundtrip
  imports Http_IO
begin

text \<open>
  What the request parser makes of a serialised request: lines, header fields and query parameters
  come back as they were written.  The lemmas serve the properties of the HTTP layer.
\<close>

section \<open>Header lines\<close>

text \<open>
  A header a parser can give back: the name has no colon and no line break and is trimmed, the value
  has no line break and is trimmed.
\<close>

definition plain_header :: "string \<times> string \<Rightarrow> bool" where
  "plain_header e \<longleftrightarrow> CHR '':'' \<notin> set (fst e) \<and> newline \<notin> set (fst e) \<and> trim (fst e) = fst e \<and>
     newline \<notin> set (snd e) \<and> trim (snd e) = snd e"

lemma plain_hdr_set:
  assumes "plain_header (k, v)" "list_all plain_header h"
  shows "list_all plain_header (hdr_set k v h)"
  using assms by (induction k v h rule: hdr_set.induct) (auto simp: plain_header_def)

lemma pop_cr_line [simp]: "pop_cr (l @ [carriage]) = l"
  by (simp add: pop_cr_def)

lemma getline_crlf: "newline \<notin> set l \<Longrightarrow> getline (l @ crlf @ s) = Some (l @ [carriage], s)"
  using getline_line [of "l @ [carriage]" s] by (simp add: crlf_def)

lemma is_space_blank [simp]: "is_space (CHR '' '')"
  by (simp add: is_space_def)

lemma parse_header_lines_stop [simp]: "parse_header_lines (crlf @ s) h = h"
proof -
  have "getline (crlf @ s) = Some ([carriage], s)"
    using getline_crlf [of "[]" s] by simp
  then show ?thesis by (subst parse_header_lines.simps) (simp add: pop_cr_def)
qed

lemma parse_header_lines_one:
  assumes "plain_header e"
  shows "parse_header_lines (header_line e @ s) h = parse_header_lines s (hdr_set (fst e) (snd e) h)"
proof -
  let ?l = "fst e @ CHR '':'' # CHR '' '' # snd e"
  have nl: "newline \<notin> set ?l"
    using assms by (simp add: plain_header_def newline_def)
  have g: "getline (header_line e @ s) = Some (?l @ [carriage], s)"
    using getline_crlf [OF nl, of s] by (simp add: header_line_def)
  have p: "pop_cr (?l @ [carriage]) = ?l" by (rule pop_cr_line)
  have f: "find_char (CHR '':'') ?l = Some (length (fst e))"
    using assms by (simp add: plain_header_def)
  show ?thesis
    using assms by (subst parse_header_lines.simps) (simp only: g option.case prod.case p f Let_def,
      simp add: plain_header_def nth_append)
qed

lemma parse_header_lines_all:
  assumes "list_all plain_header es"
  shows "parse_header_lines (concat (map header_line es) @ s) h =
    parse_header_lines s (header_map.assign_all es h)"
  using assms
proof (induction es arbitrary: h)
  case (Cons e es)
  then show ?case
    by (simp add: parse_header_lines_one header_map.assign_all_def case_prod_beta)
qed (simp add: header_map.assign_all_def)

text \<open>Assigning the entries of a header map in any order gives its lookups back.\<close>

lemma find_some_set: "List.find P xs = Some x \<Longrightarrow> x \<in> set xs \<and> P x"
  by (auto simp: find_Some_iff)

lemma last_match_hdr_find:
  assumes "hdr_ok es"
  shows "header_map.last_match k es = hdr_find k es"
proof (cases "header_map.last_match k es")
  case None
  then have "\<forall>e \<in> set es. \<not> ci_equal (fst e) k"
    by (auto simp: header_map.last_match_def find_None_iff)
  then have "hdr_find k es = None"
    using hdr_find_Some_iff [OF assms] by (metis fst_conv option.exhaust)
  with None show ?thesis by simp
next
  case (Some v)
  then obtain k' where "(k', v) \<in> set es" "ci_equal k' k"
    by (auto simp: header_map.last_match_def dest!: find_some_set)
  with Some show ?thesis using hdr_find_Some_iff [OF assms] by metis
qed

lemma assign_all_find:
  assumes "hdr_ok h" "mset es = mset h"
  shows "hdr_find k (header_map.assign_all es []) = hdr_find k h"
proof -
  have "hdr_ok es" using assms by (metis hdr_ok_def mset_eq_imp_distinct_iff mset_map)
  then show ?thesis
    using assms hdr_find_perm [of h es k]
    by (simp add: header_map.find_assign_all last_match_hdr_find split: option.splits)
qed

section \<open>The first line\<close>

lemma no_space_chars:
  assumes "no_space w"
  shows "newline \<notin> set w" "carriage \<notin> set w" "CHR '' '' \<notin> set w"
  using assms by (auto simp: list_all_iff)

lemma parse_first_line_words:
  assumes "no_space a" "a \<noteq> []" "no_space b" "b \<noteq> []" "no_space c" "c \<noteq> []"
  shows "parse_first_line (a @ '' '' @ b @ '' '' @ c) t v = (a, b, c)"
  using assms by (simp add: parse_first_line_def extract_word_word extract_word_last)

lemma parse_http_request_line:
  assumes "no_space t" "t \<noteq> []" "no_space v" "v \<noteq> []"
  shows "parse_http_request (method_str m @ '' '' @ t @ '' '' @ v @ crlf @ s) req =
    (let (path, ps) = split_target t
     in req\<lparr>rq_method := m, rq_path := path, rq_version := v, rq_target := t,
            rq_headers := parse_header_lines s (rq_headers req), rq_params := ps\<rparr>)"
proof -
  let ?l = "method_str m @ '' '' @ t @ '' '' @ v"
  have "newline \<notin> set ?l"
    using no_space_chars(1) [OF assms(1)] no_space_chars(1) [OF assms(3)]
      no_space_chars(1) [OF method_str_word(2), of m] by (simp add: newline_def)
  then have g: "getline (?l @ crlf @ s) = Some (?l @ [carriage], s)" by (rule getline_crlf)
  have p: "pop_cr (?l @ [carriage]) = ?l" by (rule pop_cr_line)
  have w: "parse_first_line ?l a b = (method_str m, t, v)" for a b
    using assms by (intro parse_first_line_words) (simp_all add: method_str_word)
  have a: "method_str m @ '' '' @ t @ '' '' @ v @ crlf @ s = ?l @ crlf @ s" by simp
  show ?thesis
    unfolding parse_http_request_def a g option.case prod.case Let_def p w by simp
qed

section \<open>Query strings\<close>

fun amp_join :: "string list \<Rightarrow> string" where
  "amp_join [] = []"
| "amp_join [s] = s"
| "amp_join (s # ss) = s @ CHR ''&'' # amp_join ss"

definition field :: "string \<times> string \<Rightarrow> string" where
  "field e = fst e @ CHR ''='' # snd e"

definition plain_field :: "string \<times> string \<Rightarrow> bool" where
  "plain_field e \<longleftrightarrow> CHR ''='' \<notin> set (fst e) \<and> CHR ''&'' \<notin> set (fst e) \<and> CHR ''&'' \<notin> set (snd e)"

definition query :: "(string \<times> string) list \<Rightarrow> string" where
  "query es = amp_join (map field es)"

lemma split_query_last:
  assumes "plain_field e"
  shows "split_query (field e) m = mm_emplace (fst e) (snd e) m"
proof -
  have "find_char (CHR ''&'') (field e) = None"
    using assms by (auto simp: find_char_None_iff field_def plain_field_def)
  moreover have "find_char (CHR ''='') (field e) = Some (length (fst e))"
    using assms by (simp add: field_def plain_field_def)
  ultimately show ?thesis
    by (subst split_query.simps) (simp add: field_def Let_def)
qed

lemma split_query_more:
  assumes "plain_field e"
  shows "split_query (field e @ CHR ''&'' # q) m = split_query q (mm_emplace (fst e) (snd e) m)"
proof -
  have "find_char (CHR ''&'') (field e @ CHR ''&'' # q) = Some (length (field e))"
    using assms by (intro find_char_append) (auto simp: field_def plain_field_def)
  moreover have "find_char (CHR ''='') (field e) = Some (length (fst e))"
    using assms by (simp add: field_def plain_field_def)
  moreover have "field e \<noteq> []" by (simp add: field_def)
  ultimately show ?thesis
    by (subst split_query.simps) (simp add: field_def Let_def)
qed

lemma split_query_fields:
  "list_all plain_field es \<Longrightarrow> split_query (query es) m = foldl (\<lambda>m e. mm_emplace (fst e) (snd e) m) m es"
proof (induction es arbitrary: m)
  case Nil
  then show ?case by (subst split_query.simps) (simp add: query_def)
next
  case (Cons e es)
  then show ?case
    by (cases es) (simp_all add: query_def split_query_last split_query_more)
qed

lemma emplace_all:
  "mm_ok m \<Longrightarrow> mm_ok (foldl (\<lambda>m e. mm_emplace (fst e) (snd e) m) m es) \<and>
    filter (\<lambda>e. fst e = k) (foldl (\<lambda>m e. mm_emplace (fst e) (snd e) m) m es) =
    filter (\<lambda>e. fst e = k) m @ filter (\<lambda>e. fst e = k) es"
  by (induction es arbitrary: m) (auto simp: filter_mm_emplace)

lemma equal_range_fields:
  "list_all plain_field es \<Longrightarrow> mm_equal_range k (split_query (query es) []) = filter (\<lambda>e. fst e = k) es"
  using emplace_all [of "[]" es k] by (simp add: split_query_fields mm_equal_range_eq)

lemma split_target_query:
  "CHR ''?'' \<notin> set p \<Longrightarrow> split_target (p @ CHR ''?'' # q) = (p, split_query q [])"
  by (simp add: split_target_def)

lemma split_target_plain: "CHR ''?'' \<notin> set p \<Longrightarrow> split_target p = (p, [])"
  using find_char_None_iff [of "CHR ''?''" p] by (simp add: split_target_def)

section \<open>A serialised request\<close>

text \<open>The fields that are sent: those of the request and the length the serialiser adds.\<close>

definition sent_fields :: "headers \<Rightarrow> string \<Rightarrow> headers" where
  "sent_fields h b =
     h @ (if b \<noteq> [] \<and> \<not> hdr_contains ''content-length'' h then [(''Content-Length'', dec (length b))] else [])"

definition request_line :: "request \<Rightarrow> string" where
  "request_line r = method_str (rq_method r) @ '' '' @ rq_target r @ '' '' @ rq_version r"

definition head_block :: "(headers \<Rightarrow> headers) \<Rightarrow> request \<Rightarrow> string" where
  "head_block iter r = request_line r @ crlf @ concat (map header_line (iter (rq_headers r))) @
     body_length_line (rq_headers r) (rq_body r) @ crlf"

definition plain_request :: "request \<Rightarrow> bool" where
  "plain_request r \<longleftrightarrow> no_space (rq_target r) \<and> rq_target r \<noteq> [] \<and> no_space (rq_version r) \<and>
     rq_version r \<noteq> [] \<and> hdr_ok (rq_headers r) \<and> list_all plain_header (rq_headers r)"

lemma rq_to_string_eq: "rq_to_string iter r = head_block iter r @ rq_body r"
  by (simp add: rq_to_string_def head_block_def request_line_def)

lemma ci_content_length: "ci_equal ''Content-Length'' k \<longleftrightarrow> ci_equal ''content-length'' k"
proof -
  have "map to_lower ''Content-Length'' = map to_lower ''content-length''"
    by (simp add: to_lower_def char_of_def bit_0)
  then show ?thesis by (simp only: ci_equal_iff)
qed

lemma hdr_ok_sent: "hdr_ok h \<Longrightarrow> hdr_ok (sent_fields h b)"
proof -
  assume h: "hdr_ok h"
  have "hdr_ok (h @ [(k, v)])" if "hdr_find k h = None" for k v
    using hdr_ok_set [OF h, of k v] hdr_set_fresh [OF that] by simp
  moreover have "hdr_find ''Content-Length'' h = hdr_find ''content-length'' h"
    by (rule hdr_find_cong) (simp add: ci_content_length)
  ultimately show ?thesis using h by (auto simp: sent_fields_def hdr_contains_def)
qed

lemma plain_number: "plain_header (''Content-Length'', dec n)"
proof -
  have "list_all is_digit (dec n)" by (rule dec_digits)
  then have "no_space (dec n)" by (auto simp: list_all_iff)
  then have "trim (dec n) = dec n" "newline \<notin> set (dec n)"
    using no_space_chars(1) by (auto intro: trim_no_space)
  moreover have "trim ''Content-Length'' = ''Content-Length''"
    by (rule trim_no_space) (simp add: is_space_def)
  ultimately show ?thesis by (simp add: plain_header_def newline_def)
qed

text \<open>The header lines on the wire, as the list of the fields sent.\<close>

lemma head_block_fields:
  assumes "plain_request r" "any_order iter (rq_headers r)"
  obtains es where "head_block iter r = request_line r @ crlf @ concat (map header_line es) @ crlf"
    "list_all plain_header es" "mset es = mset (sent_fields (rq_headers r) (rq_body r))"
proof
  let ?x = "if rq_body r \<noteq> [] \<and> \<not> hdr_contains ''content-length'' (rq_headers r)
    then [(''Content-Length'', dec (length (rq_body r)))] else []"
  show "head_block iter r = request_line r @ crlf @ concat (map header_line (iter (rq_headers r) @ ?x)) @ crlf"
    by (simp add: head_block_def body_length_line_def header_line_def)
  have "set (iter (rq_headers r)) = set (rq_headers r)" using assms(2) by (rule any_order_set)
  then show "list_all plain_header (iter (rq_headers r) @ ?x)"
    using assms(1) plain_number by (auto simp: plain_request_def list_all_iff)
  show "mset (iter (rq_headers r) @ ?x) = mset (sent_fields (rq_headers r) (rq_body r))"
    using assms(2) by (simp add: sent_fields_def any_order_def)
qed

section \<open>Where the header block ends\<close>

lemma header_end_crlf:
  "header_end (crlf @ s) = (if is_prefix crlf s then Some 4 else map_option (\<lambda>n. n + 2) (header_end s))"
  by (cases "header_end s") (auto simp: crlf_def blank_line_def)

lemma header_end_line:
  "newline \<notin> set l \<Longrightarrow> header_end (l @ crlf @ s) = map_option (\<lambda>n. n + length l) (header_end (crlf @ s))"
proof (induction l)
  case (Cons c l)
  have "\<not> is_prefix blank_line (c # l @ crlf @ s)"
    using Cons.prems by (cases l) (auto simp: blank_line_def crlf_def)
  with Cons show ?case by (simp add: option.map_comp comp_def)
qed (simp add: option.map_ident)

lemma header_line_start: "plain_header e \<Longrightarrow> \<not> is_prefix crlf (header_line e @ s)"
  by (cases "fst e"; cases "tl (fst e)")
    (auto simp: plain_header_def header_line_def crlf_def carriage_def newline_def)

lemma header_end_fields:
  assumes "list_all plain_header es" "newline \<notin> set l"
  shows "header_end (l @ crlf @ concat (map header_line es) @ crlf @ s) =
    Some (length (l @ crlf @ concat (map header_line es) @ crlf))"
  using assms
proof (induction es arbitrary: l)
  case Nil
  then show ?case by (simp add: header_end_line header_end_crlf) (simp add: crlf_def)
next
  case (Cons e es)
  have "newline \<notin> set (fst e @ '': '' @ snd e)"
    using Cons.prems(1) by (simp add: plain_header_def newline_def)
  from Cons.IH [OF _ this] Cons.prems show ?case
    using header_line_start [of e]
    by (simp add: header_end_line header_end_crlf) (simp add: header_line_def crlf_def)
qed

lemma head_block_end:
  assumes "plain_request r" "any_order iter (rq_headers r)"
  shows "header_end (head_block iter r @ s) = Some (length (head_block iter r))"
proof -
  obtain es where es: "head_block iter r = request_line r @ crlf @ concat (map header_line es) @ crlf"
    "list_all plain_header es"
    using head_block_fields [OF assms] by blast
  have "newline \<notin> set (request_line r)"
    using assms(1) no_space_chars(1) method_str_word(2)
    by (auto simp: request_line_def plain_request_def newline_def)
  from header_end_fields [OF es(2) this] show ?thesis by (simp add: es(1))
qed

section \<open>Reading a serialised request\<close>

definition parsed_head :: "(headers \<Rightarrow> headers) \<Rightarrow> request \<Rightarrow> request" where
  "parsed_head iter r = parse_http_request (head_block iter r) empty_request"

lemma parse_head_fields:
  assumes "plain_request r" "any_order iter (rq_headers r)"
  shows "rq_method (parse_http_request (head_block iter r @ s) empty_request) = rq_method r"
    and "rq_target (parse_http_request (head_block iter r @ s) empty_request) = rq_target r"
    and "rq_version (parse_http_request (head_block iter r @ s) empty_request) = rq_version r"
    and "(rq_path (parse_http_request (head_block iter r @ s) empty_request),
          rq_params (parse_http_request (head_block iter r @ s) empty_request)) = split_target (rq_target r)"
    and "hdr_find k (rq_headers (parse_http_request (head_block iter r @ s) empty_request)) =
          hdr_find k (sent_fields (rq_headers r) (rq_body r))"
    and "rq_body (parse_http_request (head_block iter r @ s) empty_request) = []"
proof -
  obtain es where es: "head_block iter r = request_line r @ crlf @ concat (map header_line es) @ crlf"
    "list_all plain_header es" "mset es = mset (sent_fields (rq_headers r) (rq_body r))"
    using head_block_fields [OF assms] by blast
  let ?p = "parse_http_request (head_block iter r @ s) empty_request"
  have l: "head_block iter r @ s = method_str (rq_method r) @ '' '' @ rq_target r @ '' '' @ rq_version r @
      crlf @ (concat (map header_line es) @ crlf @ s)"
    by (simp add: es(1) request_line_def)
  have p: "?p = (let (path, ps) = split_target (rq_target r)
     in empty_request\<lparr>rq_method := rq_method r, rq_path := path, rq_version := rq_version r,
          rq_target := rq_target r, rq_headers := header_map.assign_all es [], rq_params := ps\<rparr>)"
    unfolding l using assms(1) es(2)
    by (subst parse_http_request_line) (simp_all add: plain_request_def parse_header_lines_all empty_request_def)
  show "rq_method ?p = rq_method r" "rq_target ?p = rq_target r" "rq_version ?p = rq_version r"
    "(rq_path ?p, rq_params ?p) = split_target (rq_target r)" "rq_body ?p = []"
    unfolding p by (simp_all add: empty_request_def case_prod_beta)
  have "hdr_ok (sent_fields (rq_headers r) (rq_body r))"
    using assms(1) by (simp add: hdr_ok_sent plain_request_def)
  with es(3) show "hdr_find k (rq_headers ?p) = hdr_find k (sent_fields (rq_headers r) (rq_body r))"
    unfolding p by (simp add: assign_all_find case_prod_beta)
qed

text \<open>When the request carries a length header it must be the right one.\<close>

definition framed :: "request \<Rightarrow> bool" where
  "framed r \<longleftrightarrow> (hdr_contains ''content-length'' (rq_headers r) \<longrightarrow>
     rq_content_length r = Some (length (rq_body r))) \<and> length (rq_body r) < 2 ^ 64"

lemma content_length_sent:
  assumes "framed r" "\<And>k. hdr_find k h = hdr_find k (sent_fields (rq_headers r) (rq_body r))"
  shows "(case parse_length (header_value h ''content-length'') of None \<Rightarrow> 0 | Some n \<Rightarrow> n) = length (rq_body r)"
proof (cases "hdr_contains ''content-length'' (rq_headers r)")
  case True
  then have "parse_length (header_value (rq_headers r) ''content-length'') = Some (length (rq_body r))"
    using assms(1) by (simp add: framed_def rq_content_length_def rq_header_def)
  with True show ?thesis by (auto simp: header_value_def assms(2) sent_fields_def hdr_contains_def)
next
  case False
  then have "hdr_find ''content-length'' (rq_headers r) = None" by (simp add: hdr_contains_def)
  moreover have "ci_equal ''Content-Length'' ''content-length''" by (simp add: ci_content_length)
  ultimately show ?thesis
    using assms(1) False
    by (simp add: header_value_def assms(2) sent_fields_def hdr_find_append framed_def parse_length_def)
qed

lemma parsed_head_length:
  assumes "plain_request r" "any_order iter (rq_headers r)" "framed r"
  shows "(case rq_content_length (parsed_head iter r) of None \<Rightarrow> 0 | Some n \<Rightarrow> n) = length (rq_body r)"
  using content_length_sent [OF assms(3)] parse_head_fields(5) [OF assms(1,2), of _ "[]"]
  by (simp add: rq_content_length_def rq_header_def parsed_head_def)

definition received_request :: "(headers \<Rightarrow> headers) \<Rightarrow> request \<Rightarrow> request" where
  "received_request iter r = (parsed_head iter r)\<lparr>rq_body := rq_body r\<rparr>"

text \<open>
  When the first read brings in the whole request, the body comes out of the buffer and whatever
  else is in there is gone.
\<close>

lemma do_read_buffered:
  assumes "plain_request r" "any_order iter (rq_headers r)" "framed r"
    "length (rq_body r) \<le> alloc_max"
    and u: "rd_until s [] = Inr (rq_to_string iter r @ extra, length (head_block iter r), s')"
  shows "do_read rd_until rd alloc_max s = Inr (received_request iter r, s')"
proof -
  have h: "co_read_headers rd_until s [] = Inr (head_block iter r, rq_body r @ extra, s')"
    by (simp add: co_read_headers_def u take_front_def rq_to_string_eq)
  have b: "co_read_body rd alloc_max s' (rq_body r @ extra) (length (rq_body r)) = Inr (rq_body r, extra, s')"
    using assms(4) by (simp add: co_read_body_def read_rest.simps)
  have e: "parsed_head iter r\<lparr>rq_body := []\<rparr> = parsed_head iter r"
    using parse_head_fields(6) [OF assms(1,2), of "[]"] by (simp add: parsed_head_def)
  show ?thesis
    using parsed_head_length [OF assms(1-3)] b e
    by (cases "rq_body r = []")
      (simp_all add: do_read_def h Let_def parsed_head_def [symmetric] received_request_def)
qed

context text_stream
begin

text \<open>However the request is cut into segments, it arrives.\<close>

lemma do_read_request:
  assumes "plain_request r" "any_order iter (rq_headers r)" "framed r"
    "length (rq_body r) \<le> alloc_max" "view s = rq_to_string iter r"
  shows "\<exists>s'. do_read rd_until rd alloc_max s = Inr (received_request iter r, s') \<and> view s' = []"
proof -
  have "header_end (view s) = Some (length (head_block iter r))"
    using head_block_end [OF assms(1,2), of "rq_body r"] by (simp add: assms(5) rq_to_string_eq)
  from co_read_headers_found [OF this] obtain buf s1 where
    h: "co_read_headers rd_until s [] = Inr (head_block iter r, buf, s1)" "buf @ view s1 = rq_body r"
    by (auto simp: assms(5) rq_to_string_eq)
  have n: "(case rq_content_length (parsed_head iter r) of None \<Rightarrow> 0 | Some n \<Rightarrow> n) = length (rq_body r)"
    by (rule parsed_head_length [OF assms(1-3)])
  show ?thesis
  proof (cases "rq_body r = []")
    case True
    have "parsed_head iter r\<lparr>rq_body := []\<rparr> = parsed_head iter r"
      using parse_head_fields(6) [OF assms(1,2), of "[]"] by (simp add: parsed_head_def)
    with True h n show ?thesis
      by (simp add: do_read_def Let_def parsed_head_def [symmetric] received_request_def)
  next
    case False
    obtain buf' s' where "co_read_body rd alloc_max s1 buf (length (rq_body r)) = Inr (rq_body r, buf', s')"
      "buf' @ view s' = []"
      using co_read_body_enough [of "length (rq_body r)" buf s1 alloc_max] assms(4) h(2) by auto
    with False h n show ?thesis
      by (simp add: do_read_def Let_def parsed_head_def [symmetric] received_request_def)
  qed
qed

end

end
