(* ===== verification/Server_Session.thy ===== *)
theory Server_Session
  imports Server_Static Http_Roundtrip
begin

text \<open>
  One HTTP connection of the server: \<^verbatim>\<open>handle_request\<close>, \<^verbatim>\<open>do_write\<close>, \<^verbatim>\<open>process_session\<close> and
  \<^verbatim>\<open>process_session_ws\<close> of \<^verbatim>\<open>src/server.cpp\<close>.  What the server relies on (the socket, the file
  system, the hash function, the iteration order of hash maps) is the record \<open>server_env\<close>.
\<close>

section \<open>Environment\<close>

record 's server_env =
  e_until :: "'s until_read"
  e_read :: "'s text_read"
  e_write :: "'s text_write"
  e_iter :: "headers \<Rightarrow> headers"
  e_alloc_max :: nat
  e_fs :: file_system
  e_native :: bool
  e_answers :: "'s \<Rightarrow> send_answer list"
  e_counts :: "'s \<Rightarrow> nat list"
  e_sha1 :: "bytes \<Rightarrow> bytes"

section \<open>Dispatch and output\<close>

definition handle_request :: "file_system \<Rightarrow> router \<Rightarrow> request \<Rightarrow> response option" where
  "handle_request fs r req =
     (case find_route (rq_method req) (rq_path req) r of
        Some h \<Rightarrow> h req
      | None \<Rightarrow>
          if static_mounts r \<noteq> [] then serve_static fs (static_mounts r) req
          else Some (not_found ''Not Found''))"

definition do_write_response :: "'s server_env \<Rightarrow> response \<Rightarrow> 's \<Rightarrow> net_error + 's" where
  "do_write_response E resp s =
     (if sendfile_path resp \<noteq> []
      then write_file_response (e_write E) (e_iter E) (e_fs E) (e_native E) (e_answers E s) (e_counts E s) resp s
      else write_regular_response (e_write E) (e_iter E) resp s)"

section \<open>The session\<close>

datatype session_end =
    ReadFailed
  | WriteFailed
  | HandlerThrew
  | Refused
  | Upgraded websocket
  | ClosedByRequest

text \<open>The upgrade: the 101 response, then a connection object with the cleanup installed.\<close>

definition process_session_ws ::
    "'s server_env \<Rightarrow> string \<Rightarrow> ws_handlers \<Rightarrow> u64 \<Rightarrow> 's \<Rightarrow> session_end \<times> 's" where
  "process_session_ws E sec_ws_key hs client_id s =
     (let accept = ws_accept_key (e_sha1 E) sec_ws_key;
          resp = build_101_response accept
      in case do_write_response E resp s of
           Inl e \<Rightarrow> (WriteFailed, s)
         | Inr s \<Rightarrow> (Upgraded (set_server_cleanup (new_websocket (Some hs) client_id)), s))"

text \<open>An upgrade request: refused without a route or a key.\<close>

definition refuse :: "'s server_env \<Rightarrow> response \<Rightarrow> 's \<Rightarrow> session_end \<times> 's" where
  "refuse E resp s =
     (case e_write E (rs_to_string (e_iter E) resp) s of
        Inl e \<Rightarrow> (WriteFailed, s)
      | Inr s \<Rightarrow> (Refused, s))"

definition handle_upgrade :: "'s server_env \<Rightarrow> router \<Rightarrow> u64 \<Rightarrow> request \<Rightarrow> 's \<Rightarrow> session_end \<times> 's" where
  "handle_upgrade E r client_id req s =
     (case find_ws (rq_path req) r of
        None \<Rightarrow> refuse E (not_found ''No such route for ws!'') s
      | Some hs \<Rightarrow>
          (let key = rq_header req ''Sec-WebSocket-Key''
           in if key = [] then refuse E (bad_request ''No Sec-WebSocket-Key'') s
              else process_session_ws E key hs client_id s))"

definition wants_keep_alive :: "request \<Rightarrow> bool" where
  "wants_keep_alive req =
     (let conn = rq_header req ''Connection'' in if conn \<noteq> [] \<and> conn = ''close'' then False else True)"

definition set_connection :: "bool \<Rightarrow> response \<Rightarrow> response" where
  "set_connection keep_alive resp =
     (if \<not> keep_alive then set_header ''Connection'' ''close'' resp
      else set_header ''Connection'' ''keep-alive'' resp)"

text \<open>The loop of \<^verbatim>\<open>process_session\<close> for at most \<open>fuel\<close> requests.\<close>

fun process_session :: "'s server_env \<Rightarrow> router \<Rightarrow> u64 \<Rightarrow> nat \<Rightarrow> 's \<Rightarrow> (session_end \<times> 's) option" where
  "process_session E r client_id 0 s = None"
| "process_session E r client_id (Suc fuel) s =
     (case do_read (e_until E) (e_read E) (e_alloc_max E) s of
        Inl e \<Rightarrow> Some (ReadFailed, s)
      | Inr (req, s) \<Rightarrow>
          if is_ws_upgrade req then Some (handle_upgrade E r client_id req s)
          else case handle_request (e_fs E) r req of
                 None \<Rightarrow> Some (HandlerThrew, s)
               | Some resp \<Rightarrow>
                   (let keep_alive = wants_keep_alive req
                    in case do_write_response E (set_connection keep_alive resp) s of
                         Inl e \<Rightarrow> Some (WriteFailed, s)
                       | Inr s \<Rightarrow>
                           if \<not> keep_alive then Some (ClosedByRequest, s)
                           else process_session E r client_id fuel s))"

section \<open>Regular responses on the wire\<close>

definition response_bytes :: "(headers \<Rightarrow> headers) \<Rightarrow> response \<Rightarrow> string" where
  "response_bytes iter resp = fst (prepare_headers iter resp (length (rs_body resp))) @ rs_body resp"

lemma write_regular_response_eq:
  "write_regular_response wr iter resp s = wr (response_bytes iter resp) s"
  by (auto simp: write_regular_response_def response_bytes_def prepare_headers_def Let_def)

lemma set_connection_path [simp]: "sendfile_path (set_connection k resp) = sendfile_path resp"
  by (simp add: set_connection_def)

section \<open>Requests as they arrive\<close>

text \<open>A serialised request that fills a segment comes back whole, and the next segment is untouched.\<close>

lemma tcp_read_segment:
  assumes "plain_request q" "any_order iter (rq_headers q)" "framed q" "length (rq_body q) \<le> alloc_max"
    "inbox s = (rq_to_string iter q @ extra) # rest"
  shows "do_read tcp_until tcp_read alloc_max s = Inr (received_request iter q, s\<lparr>inbox := rest\<rparr>)"
proof -
  have h: "header_end (rq_to_string iter q @ extra) = Some (length (head_block iter q))"
    using head_block_end [OF assms(1,2), of "rq_body q @ extra"] by (simp add: rq_to_string_eq)
  have u: "seg_until rest (rq_to_string iter q @ extra) =
      Inr (rq_to_string iter q @ extra, length (head_block iter q), rest)"
    using h by (cases rest) simp_all
  have "tcp_until s [] = Inr (rq_to_string iter q @ extra, length (head_block iter q), s\<lparr>inbox := rest\<rparr>)"
    by (simp add: tcp_until_def assms(5) u)
  from do_read_buffered [where rd_until = tcp_until, OF assms(1-4) this] show ?thesis .
qed

lemma tcp_read_end: "inbox s = [] \<Longrightarrow> do_read tcp_until tcp_read alloc_max s = Inl NetEof"
  by (simp add: do_read_def co_read_headers_def tcp_until_def)

lemma received_header:
  assumes "plain_request q" "any_order iter (rq_headers q)"
  shows "hdr_find k (rq_headers (received_request iter q)) = hdr_find k (sent_fields (rq_headers q) (rq_body q))"
  using parse_head_fields(5) [OF assms, of k "[]"] by (simp add: received_request_def parsed_head_def)

text \<open>Names other than the length are found as they were sent.\<close>

lemma received_other_header:
  assumes "plain_request q" "any_order iter (rq_headers q)" "\<not> ci_equal ''content-length'' k"
  shows "hdr_find k (rq_headers (received_request iter q)) = hdr_find k (rq_headers q)"
  using received_header [OF assms(1,2), of k] assms(3)
  by (auto simp: sent_fields_def hdr_find_append ci_content_length split: option.splits)

lemma session_names:
  "\<not> ci_equal ''content-length'' ''Upgrade''" "\<not> ci_equal ''content-length'' ''Connection''"
  "\<not> ci_equal ''content-length'' ''Sec-WebSocket-Key''"
  by (simp_all add: ci_equal_def)

lemma received_upgrade:
  assumes "plain_request q" "any_order iter (rq_headers q)"
  shows "is_ws_upgrade (received_request iter q) = is_ws_upgrade q"
    and "wants_keep_alive (received_request iter q) = wants_keep_alive q"
    and "rq_header (received_request iter q) ''Sec-WebSocket-Key'' = rq_header q ''Sec-WebSocket-Key''"
  using received_other_header [OF assms session_names(1)] received_other_header [OF assms session_names(2)]
    received_other_header [OF assms session_names(3)]
  by (simp_all add: is_ws_upgrade_def hdr_contains_def wants_keep_alive_def rq_header_def header_value_def)

section \<open>Serving\<close>

text \<open>An environment over TCP segments, and requests it can serve with a regular response.\<close>

definition tcp_env :: "tcp_socket server_env \<Rightarrow> bool" where
  "tcp_env E \<longleftrightarrow> e_until E = tcp_until \<and> e_read E = tcp_read \<and> e_write E = tcp_write \<and>
     (\<forall>h. any_order (e_iter E) h)"

definition sendable :: "tcp_socket server_env \<Rightarrow> request \<Rightarrow> bool" where
  "sendable E q \<longleftrightarrow> plain_request q \<and> framed q \<and> length (rq_body q) \<le> e_alloc_max E"

definition served :: "tcp_socket server_env \<Rightarrow> router \<Rightarrow> request \<Rightarrow> response \<Rightarrow> bool" where
  "served E r q resp \<longleftrightarrow> sendable E q \<and> \<not> is_ws_upgrade q \<and>
     handle_request (e_fs E) r (received_request (e_iter E) q) = Some resp \<and> sendfile_path resp = []"

definition answer :: "tcp_socket server_env \<Rightarrow> bool \<Rightarrow> response \<Rightarrow> string" where
  "answer E keep_alive resp = response_bytes (e_iter E) (set_connection keep_alive resp)"

lemma process_session_segment:
  assumes "tcp_env E" "served E r q resp" "inbox s = (rq_to_string (e_iter E) q @ extra) # rest" "peer_up s"
  shows "process_session E r client_id (Suc fuel) s =
    (let s' = s\<lparr>inbox := rest, outbox := outbox s @ answer E (wants_keep_alive q) resp\<rparr>
     in if wants_keep_alive q then process_session E r client_id fuel s' else Some (ClosedByRequest, s'))"
proof -
  have q: "plain_request q" "any_order (e_iter E) (rq_headers q)" "framed q" "length (rq_body q) \<le> e_alloc_max E"
    using assms(1,2) by (simp_all add: served_def sendable_def tcp_env_def)
  have d: "do_read (e_until E) (e_read E) (e_alloc_max E) s =
      Inr (received_request (e_iter E) q, s\<lparr>inbox := rest\<rparr>)"
    using tcp_read_segment [OF q, of s extra rest] assms(1,3) by (simp add: tcp_env_def)
  have w: "do_write_response E (set_connection k resp) (s\<lparr>inbox := rest\<rparr>) =
      Inr (s\<lparr>inbox := rest, outbox := outbox s @ answer E k resp\<rparr>)" for k
    using assms(1,2,4) by (simp add: do_write_response_def served_def write_regular_response_eq
        tcp_env_def tcp_write_def answer_def)
  show ?thesis
    using assms(2) by (simp add: d w received_upgrade [OF q(1,2)] served_def Let_def)
qed

lemma process_session_turn:
  assumes "tcp_env E" "served E r q resp" "inbox s = rq_to_string (e_iter E) q # rest" "peer_up s"
  shows "process_session E r client_id (Suc fuel) s =
    (let s' = s\<lparr>inbox := rest, outbox := outbox s @ answer E (wants_keep_alive q) resp\<rparr>
     in if wants_keep_alive q then process_session E r client_id fuel s' else Some (ClosedByRequest, s'))"
  using process_session_segment [OF assms(1,2) _ assms(4), of "[]" rest] assms(3) by simp

lemma process_session_end:
  assumes "tcp_env E" "inbox s = []"
  shows "process_session E r client_id (Suc fuel) s = Some (ReadFailed, s)"
  using assms tcp_read_end by (simp add: tcp_env_def)

text \<open>A request answered with a file, on a plain socket whose kernel takes all of it.\<close>

lemma process_session_file:
  assumes "tcp_env E" "e_native E" "sendable E q" "\<not> is_ws_upgrade q"
    "handle_request (e_fs E) r (received_request (e_iter E) q) = Some resp" "sendfile_path resp \<noteq> []"
    "0 < sendfile_size resp" "inbox s = rq_to_string (e_iter E) q # rest" "peer_up s"
    "\<And>s. sendfile_fast_path (e_fs E) (e_answers E s) (sendfile_path resp) (sendfile_size resp) = (ok, out)"
  shows "process_session E r client_id (Suc fuel) s =
    (let s' = s\<lparr>inbox := rest, outbox := outbox s @
           fst (prepare_headers (e_iter E) (set_connection (wants_keep_alive q) resp) (sendfile_size resp)) @ out\<rparr>
     in if wants_keep_alive q then process_session E r client_id fuel s' else Some (ClosedByRequest, s'))"
proof -
  have q: "plain_request q" "any_order (e_iter E) (rq_headers q)" "framed q" "length (rq_body q) \<le> e_alloc_max E"
    using assms(1,3) by (simp_all add: sendable_def tcp_env_def)
  have d: "do_read (e_until E) (e_read E) (e_alloc_max E) s =
      Inr (received_request (e_iter E) q, s\<lparr>inbox := rest\<rparr>)"
    using tcp_read_segment [OF q, of s "[]" rest] assms(1,8) by (simp add: tcp_env_def)
  have size: "sendfile_size (set_connection k resp) = sendfile_size resp" for k
    by (simp add: set_connection_def)
  have prep: "sendfile_size (snd (prepare_headers i x n)) = sendfile_size x" for i x n
    by (simp add: prepare_headers_def Let_def)
  have w: "do_write_response E (set_connection k resp) (s\<lparr>inbox := rest\<rparr>) =
      Inr (s\<lparr>inbox := rest, outbox := outbox s @
        fst (prepare_headers (e_iter E) (set_connection k resp) (sendfile_size resp)) @ out\<rparr>)" for k
    using assms(1,2,6,7,9,10) by (simp add: do_write_response_def write_file_response_def size prep
        tcp_env_def tcp_write_def Let_def case_prod_beta)
  show ?thesis
    using assms(4,5) by (simp add: d w received_upgrade [OF q(1,2)] Let_def)
qed

text \<open>A run of keep-alive requests.\<close>

lemma process_session_requests:
  assumes "tcp_env E" "list_all2 (served E r) qs resps" "list_all wants_keep_alive qs" "peer_up s"
    "inbox s = map (rq_to_string (e_iter E)) qs @ rest"
  shows "process_session E r client_id (length qs + fuel) s = process_session E r client_id fuel
    (s\<lparr>inbox := rest, outbox := outbox s @ concat (map (answer E True) resps)\<rparr>)"
  using assms(2-5)
proof (induction qs resps arbitrary: s rule: list_all2_induct)
  case Nil
  then show ?case by (cases s) simp
next
  case (Cons q qs resp resps)
  let ?s = "s\<lparr>inbox := map (rq_to_string (e_iter E)) qs @ rest, outbox := outbox s @ answer E True resp\<rparr>"
  have "process_session E r client_id (length (q # qs) + fuel) s =
      process_session E r client_id (length qs + fuel) ?s"
    using process_session_turn [OF assms(1) Cons.hyps(1), of s "map (rq_to_string (e_iter E)) qs @ rest"] Cons.prems
    by (simp add: Let_def)
  with Cons.IH [of ?s] Cons.prems show ?case by simp
qed

end
