(* ===== verification/Config.thy ===== *)
theory Config
  imports Http_Utils
begin

text \<open>
  The configuration file of the server: \<^verbatim>\<open>include/config.h\<close> and \<^verbatim>\<open>src/config.cpp\<close>.  Paths are
  strings, the file is its contents (\<^const>\<open>None\<close> when it cannot be opened), exceptions are values of
  \<open>config_error\<close> and what the code prints to the error stream is a list of warnings.  The lemmas
  show that the index loops of \<^verbatim>\<open>trim\<close> compute the same as the library's \<^const>\<open>trim\<close> and that a
  printed configuration is loaded back.
\<close>

section \<open>The configuration\<close>

record static_mount =
  url_prefix :: string
  mount_root :: string

record server_config =
  address :: string
  port :: u16
  threads :: nat
  use_ssl :: bool
  www_root :: string
  ssl_cert_file :: string
  ssl_key_file :: string
  mounts :: "static_mount list"

definition default_config :: server_config where
  "default_config = \<lparr>address = ''127.0.0.1'', port = 8080, threads = 8, use_ssl = False,
     www_root = ''./www'', ssl_cert_file = ''certs/localhost.crt'',
     ssl_key_file = ''certs/localhost.key'', mounts = []\<rparr>"

datatype config_error =
    CannotOpen string
  | InvalidPort nat
  | InvalidThreads nat
  | InvalidBool nat
  | InvalidMount nat

datatype config_warning =
    BadLine nat string string
  | UnknownKey string string nat
  | OutsideSection nat string

type_synonym load_result = "config_warning list \<times> (config_error + server_config)"

section \<open>Helpers\<close>

text \<open>The two loops of \<^verbatim>\<open>trim\<close>.\<close>

function skip_front :: "string \<Rightarrow> nat \<Rightarrow> nat" where
  "skip_front s start = (if start < length s \<and> is_space (s ! start) then skip_front s (Suc start) else start)"
  by pat_completeness auto
termination by (relation "measure (\<lambda>(s, start). length s - start)") auto

fun skip_back :: "string \<Rightarrow> nat \<Rightarrow> nat \<Rightarrow> nat" where
  "skip_back s start 0 = 0"
| "skip_back s start (Suc e) =
     (if Suc e > start \<and> is_space (s ! e) then skip_back s start e else Suc e)"

declare skip_front.simps [simp del]

definition cfg_trim :: "string \<Rightarrow> string" where
  "cfg_trim s = (let start = skip_front s 0; e = skip_back s start (length s)
     in take (e - start) (drop start s))"

definition parse_bool :: "string \<Rightarrow> bool option" where
  "parse_bool s = (let v = map to_lower s in
     if v = ''true'' \<or> v = ''yes'' \<or> v = ''on'' \<or> v = ''1'' then Some True
     else if v = ''false'' \<or> v = ''no'' \<or> v = ''off'' \<or> v = ''0'' then Some False
     else None)"

definition parse_unsigned_short :: "string \<Rightarrow> u16 option" where
  "parse_unsigned_short s = (case stoull s of
       None \<Rightarrow> None
     | Some (v, i) \<Rightarrow> if v > 65535 then None else Some (of_nat v))"

definition parse_size_t :: "string \<Rightarrow> nat option" where
  "parse_size_t s = map_option fst (stoull s)"

section \<open>Loading\<close>

text \<open>What one \<^verbatim>\<open>key = value\<close> line does in its section.\<close>

definition server_entry :: "string \<Rightarrow> string \<Rightarrow> nat \<Rightarrow> server_config \<Rightarrow> load_result" where
  "server_entry key value line_no cfg =
     (if key = ''address'' then ([], Inr (cfg\<lparr>address := value\<rparr>))
      else if key = ''port'' then
        ([], case parse_unsigned_short value of None \<Rightarrow> Inl (InvalidPort line_no) | Some p \<Rightarrow> Inr (cfg\<lparr>port := p\<rparr>))
      else if key = ''threads'' then
        ([], case parse_size_t value of None \<Rightarrow> Inl (InvalidThreads line_no) | Some t \<Rightarrow> Inr (cfg\<lparr>threads := t\<rparr>))
      else if key = ''www_root'' then ([], Inr (cfg\<lparr>www_root := value\<rparr>))
      else ([UnknownKey ''server'' key line_no], Inr cfg))"

definition ssl_entry :: "string \<Rightarrow> string \<Rightarrow> nat \<Rightarrow> server_config \<Rightarrow> load_result" where
  "ssl_entry key value line_no cfg =
     (if key = ''use_ssl'' then
        ([], case parse_bool value of None \<Rightarrow> Inl (InvalidBool line_no) | Some b \<Rightarrow> Inr (cfg\<lparr>use_ssl := b\<rparr>))
      else if key = ''cert_file'' then ([], Inr (cfg\<lparr>ssl_cert_file := value\<rparr>))
      else if key = ''key_file'' then ([], Inr (cfg\<lparr>ssl_key_file := value\<rparr>))
      else ([UnknownKey ''ssl'' key line_no], Inr cfg))"

definition static_entry :: "string \<Rightarrow> string \<Rightarrow> nat \<Rightarrow> server_config \<Rightarrow> load_result" where
  "static_entry key value line_no cfg =
     (if key = ''mount'' then
        ([], case extract_word value of
               None \<Rightarrow> Inl (InvalidMount line_no)
             | Some (prefix, rest) \<Rightarrow>
                 (case extract_word rest of
                    None \<Rightarrow> Inl (InvalidMount line_no)
                  | Some (path, rest) \<Rightarrow>
                      Inr (cfg\<lparr>mounts := mounts cfg @ [\<lparr>url_prefix = prefix, mount_root = path\<rparr>]\<rparr>)))
      else ([UnknownKey ''static'' key line_no], Inr cfg))"

definition config_entry :: "string \<Rightarrow> string \<Rightarrow> string \<Rightarrow> nat \<Rightarrow> server_config \<Rightarrow> load_result" where
  "config_entry section key value line_no cfg =
     (if section = ''server'' then server_entry key value line_no cfg
      else if section = ''ssl'' then ssl_entry key value line_no cfg
      else if section = ''static'' then static_entry key value line_no cfg
      else ([OutsideSection line_no key], Inr cfg))"

text \<open>One line: the new section and what the line did.\<close>

definition config_line :: "string \<Rightarrow> string \<Rightarrow> nat \<Rightarrow> string \<Rightarrow> server_config \<Rightarrow> string \<times> load_result" where
  "config_line filename line line_no section cfg =
     (let raw = cfg_trim line in
      if raw = [] \<or> hd raw = CHR ''#'' then (section, [], Inr cfg)
      else if hd raw = CHR ''['' \<and> last raw = CHR '']''
      then (cfg_trim (take (length raw - 2) (drop 1 raw)), [], Inr cfg)
      else case find_char (CHR ''='') raw of
             None \<Rightarrow> (section, [BadLine line_no filename raw], Inr cfg)
           | Some pos \<Rightarrow>
               (section, config_entry section (cfg_trim (take pos raw)) (cfg_trim (drop (pos + 1) raw)) line_no cfg))"

function config_lines :: "string \<Rightarrow> string \<Rightarrow> nat \<Rightarrow> string \<Rightarrow> server_config \<Rightarrow> load_result" where
  "config_lines filename s line_no section cfg =
     (case getline s of
        None \<Rightarrow> ([], Inr cfg)
      | Some (line, s) \<Rightarrow>
          (let line_no = line_no + 1 in
           case config_line filename line line_no section cfg of
             (section, ws, Inl e) \<Rightarrow> (ws, Inl e)
           | (section, ws, Inr cfg) \<Rightarrow>
               (let (ws', r) = config_lines filename s line_no section cfg in (ws @ ws', r))))"
  by pat_completeness auto
termination
  by (relation "measure (\<lambda>(f, s, n, sec, cfg). length s)") (auto dest: getline_shorter)

declare config_lines.simps [simp del]

definition load_config :: "string \<Rightarrow> string option \<Rightarrow> load_result" where
  "load_config filename contents = (case contents of
       None \<Rightarrow> ([], Inl (CannotOpen filename))
     | Some s \<Rightarrow> config_lines filename s 0 [] default_config)"

section \<open>Both trims agree\<close>

lemma skip_front_eq:
  "start \<le> length s \<Longrightarrow> drop (skip_front s start) s = dropWhile is_space (drop start s) \<and> skip_front s start \<le> length s"
proof (induction s start rule: skip_front.induct)
  case (1 s start)
  show ?case
  proof (cases "start < length s \<and> is_space (s ! start)")
    case True
    with 1 show ?thesis
      by (subst (1 2) skip_front.simps) (simp add: Cons_nth_drop_Suc [symmetric])
  next
    case False
    then have "dropWhile is_space (drop start s) = drop start s"
      by (cases "start < length s") (auto simp: Cons_nth_drop_Suc [symmetric])
    moreover have "skip_front s start = start" using False by (subst skip_front.simps) auto
    ultimately show ?thesis using 1(2) by simp
  qed
qed

lemma rtrim_snoc: "rtrim (xs @ [x]) = (if is_space x then rtrim xs else xs @ [x])"
  by (simp add: rtrim_def)

lemma trim_snoc_space: "is_space c \<Longrightarrow> trim (s @ [c]) = trim s"
proof (cases "dropWhile is_space s = []")
  case True
  moreover assume "is_space c"
  ultimately have "dropWhile is_space (s @ [c]) = []" by (simp add: dropWhile_append)
  with True show ?thesis by (simp only: trim_def ltrim_def)
next
  case False
  moreover assume "is_space c"
  ultimately show ?thesis by (auto simp: trim_def ltrim_def rtrim_snoc dropWhile_append)
qed

lemma skip_back_eq:
  "start \<le> e \<Longrightarrow> e \<le> length s \<Longrightarrow>
   take (skip_back s start e - start) (drop start s) = rtrim (take (e - start) (drop start s))"
proof (induction s start e rule: skip_back.induct)
  case (2 s start e)
  show ?case
  proof (cases "start = Suc e")
    case True
    then show ?thesis by (simp add: rtrim_def)
  next
    case False
    with 2 have "start \<le> e" "e - start < length (drop start s)" by simp_all
    then have "take (Suc e - start) (drop start s) = take (e - start) (drop start s) @ [s ! e]"
      by (simp add: Suc_diff_le take_Suc_conv_app_nth)
    with 2 False show ?thesis by (auto simp: rtrim_snoc)
  qed
qed (simp add: rtrim_def)

lemma cfg_trim_eq: "cfg_trim s = trim s"
  using skip_front_eq [of 0 s] skip_back_eq [of "skip_front s 0" "length s" s]
  by (simp add: cfg_trim_def trim_def ltrim_def Let_def) (metis length_drop take_all order_refl)

section \<open>Writing a configuration down\<close>

definition plain_value :: "string \<Rightarrow> bool" where
  "plain_value v \<longleftrightarrow> trim v = v \<and> newline \<notin> set v"

definition plain_word :: "string \<Rightarrow> bool" where
  "plain_word w \<longleftrightarrow> no_space w \<and> w \<noteq> []"

definition plain_config :: "server_config \<Rightarrow> bool" where
  "plain_config c \<longleftrightarrow> plain_value (address c) \<and> plain_value (www_root c) \<and>
     plain_value (ssl_cert_file c) \<and> plain_value (ssl_key_file c) \<and> threads c < 2 ^ 64 \<and>
     list_all (\<lambda>m. plain_word (url_prefix m) \<and> plain_word (mount_root m)) (mounts c)"

definition entry :: "string \<Rightarrow> string \<Rightarrow> string" where
  "entry k v = k @ '' = '' @ v @ [newline]"

definition config_text :: "server_config \<Rightarrow> string" where
  "config_text c = ''[server]'' @ [newline] @ entry ''address'' (address c) @
     entry ''port'' (dec (unat (port c))) @ entry ''threads'' (dec (threads c)) @
     entry ''www_root'' (www_root c) @ ''[ssl]'' @ [newline] @
     entry ''use_ssl'' (if use_ssl c then ''true'' else ''false'') @
     entry ''cert_file'' (ssl_cert_file c) @ entry ''key_file'' (ssl_key_file c) @
     ''[static]'' @ [newline] @
     concat (map (\<lambda>m. entry ''mount'' (url_prefix m @ '' '' @ mount_root m)) (mounts c))"

text \<open>A key that is neither a comment nor a section.\<close>

definition plain_key :: "string \<Rightarrow> bool" where
  "plain_key k \<longleftrightarrow> plain_word k \<and> CHR ''='' \<notin> set k \<and> hd k \<noteq> CHR ''#'' \<and> hd k \<noteq> CHR ''[''"

lemma trim_entry:
  assumes "plain_word k" "plain_value v"
  shows "trim (k @ '' = '' @ v) = k @ '' ='' @ (if v = [] then [] else CHR '' '' # v)"
proof (cases "v = []")
  case True
  have "trim (k @ '' = '') = k @ '' =''"
  proof -
    have "\<not> is_space (hd k)" "k \<noteq> []" using assms(1) by (cases k; simp add: plain_word_def)+
    then show ?thesis
      by (cases k) (simp_all add: trim_def ltrim_def rtrim_def is_space_def)
  qed
  with True show ?thesis by simp
next
  case False
  then have "\<not> is_space (last v)" using assms(2) trim_ends [of v] by (simp add: plain_value_def)
  moreover have "\<not> is_space (hd k)" "k \<noteq> []" using assms(1) by (cases k; simp add: plain_word_def)+
  ultimately show ?thesis using False by (simp add: trim_fixed)
qed

lemma config_line_entry:
  assumes "plain_key k" "plain_value v"
  shows "config_line f (k @ '' = '' @ v) n sec cfg = (sec, config_entry sec k v n cfg)"
proof -
  define raw where "raw = k @ '' ='' @ (if v = [] then [] else CHR '' '' # v)"
  have w: "plain_word k" using assms(1) by (simp add: plain_key_def)
  have t: "cfg_trim (k @ '' = '' @ v) = raw"
    unfolding cfg_trim_eq raw_def by (rule trim_entry [OF w assms(2)])
  have h: "hd raw = hd k" "raw \<noteq> []" using w by (simp_all add: raw_def plain_word_def)
  have "CHR ''='' \<notin> set (k @ '' '')" using assms(1) by (simp add: plain_key_def)
  from find_char_append [OF this] have f: "find_char (CHR ''='') raw = Some (length k + 1)"
    by (simp add: raw_def)
  have "trim (k @ '' '') = k"
    using w by (simp add: trim_snoc_space plain_word_def is_space_def)
  then have "cfg_trim (take (length k + 1) raw) = k" by (simp add: cfg_trim_eq raw_def)
  moreover have "cfg_trim (drop (length k + 1 + 1) raw) = v"
    using assms(2) by (simp add: cfg_trim_eq raw_def plain_value_def is_space_def)
  ultimately show ?thesis
    using assms(1) h unfolding config_line_def t Let_def f by (simp add: plain_key_def)
qed

lemma config_lines_step:
  assumes "newline \<notin> set l" "config_line f l (n + 1) sec cfg = (sec', ws, Inr cfg')"
  shows "config_lines f (l @ newline # s) n sec cfg =
    (let (ws', r) = config_lines f s (n + 1) sec' cfg' in (ws @ ws', r))"
  using assms by (subst config_lines.simps) simp

lemma config_lines_entry:
  assumes "plain_key k" "plain_value v" "config_entry sec k v (n + 1) cfg = ([], Inr cfg')"
  shows "config_lines f (entry k v @ s) n sec cfg = config_lines f s (n + 1) sec cfg'"
proof -
  have "newline \<notin> set (k @ '' = '' @ v)"
    using assms(1,2) by (auto simp: plain_key_def plain_word_def plain_value_def list_all_iff newline_def is_space_def)
  from config_lines_step [OF this] show ?thesis
    using config_line_entry [OF assms(1,2), of f "n + 1" sec cfg] assms(3) by (simp add: entry_def)
qed

lemma config_lines_section:
  assumes "plain_word name"
  shows "config_lines f (CHR ''['' # name @ CHR '']'' # newline # s) n sec cfg = config_lines f s (n + 1) name cfg"
proof -
  let ?l = "CHR ''['' # name @ '']''"
  have "no_space ?l" using assms by (simp add: plain_word_def is_space_def)
  then have t: "trim ?l = ?l" and nl: "newline \<notin> set ?l"
    by (rule trim_no_space, auto simp: list_all_iff)
  have "trim name = name" using assms by (simp add: plain_word_def)
  then have "config_line f ?l m sec cfg = (name, [], Inr cfg)" for m
    unfolding config_line_def cfg_trim_eq t by simp
  from config_lines_step [OF nl this] show ?thesis by simp
qed

subsection \<open>Loading what was written\<close>

lemma plain_word_value: "plain_word w \<Longrightarrow> plain_value w"
  by (auto simp: plain_word_def plain_value_def list_all_iff)

lemma plain_dec: "plain_value (dec n)"
proof (rule plain_word_value)
  have "list_all is_digit (dec n)" by (rule dec_digits)
  then show "plain_word (dec n)" by (auto simp: plain_word_def list_all_iff)
qed

lemma server_entries:
  "config_entry ''server'' ''address'' v n cfg = ([], Inr (cfg\<lparr>address := v\<rparr>))"
  "config_entry ''server'' ''port'' (dec (unat p)) n cfg = ([], Inr (cfg\<lparr>port := p\<rparr>))"
  "t < 2 ^ 64 \<Longrightarrow> config_entry ''server'' ''threads'' (dec t) n cfg = ([], Inr (cfg\<lparr>threads := t\<rparr>))"
  "config_entry ''server'' ''www_root'' v n cfg = ([], Inr (cfg\<lparr>www_root := v\<rparr>))"
proof -
  have "unat p < 2 ^ 16" using unsigned_less [of p, where 'a = nat] by simp
  then show "config_entry ''server'' ''port'' (dec (unat p)) n cfg = ([], Inr (cfg\<lparr>port := p\<rparr>))"
    by (simp add: config_entry_def server_entry_def parse_unsigned_short_def)
qed (simp_all add: config_entry_def server_entry_def parse_size_t_def)

lemma ssl_entries:
  "config_entry ''ssl'' ''use_ssl'' (if b then ''true'' else ''false'') n cfg = ([], Inr (cfg\<lparr>use_ssl := b\<rparr>))"
  "config_entry ''ssl'' ''cert_file'' v n cfg = ([], Inr (cfg\<lparr>ssl_cert_file := v\<rparr>))"
  "config_entry ''ssl'' ''key_file'' v n cfg = ([], Inr (cfg\<lparr>ssl_key_file := v\<rparr>))"
  by (simp_all add: config_entry_def ssl_entry_def parse_bool_def to_lower_def)

lemma mount_entry:
  assumes "plain_word (url_prefix m)" "plain_word (mount_root m)"
  shows "config_entry ''static'' ''mount'' (url_prefix m @ '' '' @ mount_root m) n cfg =
    ([], Inr (cfg\<lparr>mounts := mounts cfg @ [m]\<rparr>))"
  using assms by (simp add: config_entry_def static_entry_def plain_word_def is_space_def
      extract_word_word extract_word_last)

lemma plain_mount_value:
  assumes "plain_word a" "plain_word b"
  shows "plain_value (a @ '' '' @ b)"
proof -
  have "\<not> is_space (hd a)" "a \<noteq> []" "\<not> is_space (last b)" "b \<noteq> []" "newline \<notin> set a" "newline \<notin> set b"
    using assms by (cases a; cases b rule: rev_cases; force simp: plain_word_def list_all_iff)+
  then show ?thesis by (simp add: plain_value_def trim_fixed newline_def)
qed

lemma config_lines_mounts:
  "list_all (\<lambda>m. plain_word (url_prefix m) \<and> plain_word (mount_root m)) ms \<Longrightarrow>
   config_lines f (concat (map (\<lambda>m. entry ''mount'' (url_prefix m @ '' '' @ mount_root m)) ms)) n ''static'' cfg =
   ([], Inr (cfg\<lparr>mounts := mounts cfg @ ms\<rparr>))"
proof (induction ms arbitrary: n cfg)
  case Nil
  then show ?case by (simp add: config_lines.simps)
next
  case (Cons m ms)
  then have m: "plain_word (url_prefix m)" "plain_word (mount_root m)" by simp_all
  have k: "plain_key ''mount''" by (simp add: plain_key_def plain_word_def is_space_def)
  from Cons show ?case
    using config_lines_entry [OF k plain_mount_value [OF m] mount_entry [OF m]] by simp
qed

lemma config_keys:
  "plain_key ''address''" "plain_key ''port''" "plain_key ''threads''" "plain_key ''www_root''"
  "plain_key ''use_ssl''" "plain_key ''cert_file''" "plain_key ''key_file''"
  by (simp_all add: plain_key_def plain_word_def is_space_def)

lemma config_sections:
  "config_lines f (''[server]'' @ [newline] @ s) n sec cfg = config_lines f s (n + 1) ''server'' cfg"
  "config_lines f (''[ssl]'' @ [newline] @ s) n sec cfg = config_lines f s (n + 1) ''ssl'' cfg"
  "config_lines f (''[static]'' @ [newline] @ s) n sec cfg = config_lines f s (n + 1) ''static'' cfg"
  using config_lines_section [of "''server''"] config_lines_section [of "''ssl''"]
    config_lines_section [of "''static''"] by (simp_all add: plain_word_def is_space_def)

lemma plain_flag: "plain_value (if b then ''true'' else ''false'')"
  by (rule plain_word_value) (simp add: plain_word_def is_space_def)

lemma load_config_text:
  assumes "plain_config c"
  shows "load_config f (Some (config_text c)) = ([], Inr c)"
proof -
  have v: "plain_value (address c)" "plain_value (www_root c)" "plain_value (ssl_cert_file c)"
    "plain_value (ssl_key_file c)" "threads c < 2 ^ 64"
    using assms by (simp_all add: plain_config_def)
  have "list_all (\<lambda>m. plain_word (url_prefix m) \<and> plain_word (mount_root m)) (mounts c)"
    using assms by (simp add: plain_config_def)
  note m = config_lines_mounts [OF this]
  show ?thesis
    unfolding load_config_def option.case config_text_def config_sections
      config_lines_entry [OF config_keys(1) v(1) server_entries(1)]
      config_lines_entry [OF config_keys(2) plain_dec server_entries(2)]
      config_lines_entry [OF config_keys(3) plain_dec server_entries(3) [OF v(5)]]
      config_lines_entry [OF config_keys(4) v(2) server_entries(4)]
      config_lines_entry [OF config_keys(5) plain_flag ssl_entries(1)]
      config_lines_entry [OF config_keys(6) v(3) ssl_entries(2)]
      config_lines_entry [OF config_keys(7) v(4) ssl_entries(3)] m
    by (simp add: default_config_def)
qed

text \<open>A number followed by anything that is not a digit is read as the number.\<close>

lemma stoull_prefix:
  assumes "list_all is_digit ds" "ds \<noteq> []" "digits_val ds < 2 ^ 64" "rest = [] \<or> \<not> is_digit (hd rest)"
  shows "stoull (ds @ rest) = Some (digits_val ds, length ds)"
proof -
  obtain c cs where ds: "ds = c # cs" using assms(2) by (cases ds) auto
  with assms(1) have c: "is_digit c" by simp
  then have d: "dropWhile is_space (ds @ rest) = ds @ rest" by (simp add: ds)
  have s: "sign_split (ds @ rest) = (False, ds @ rest)" using c by (simp add: ds sign_split_digit)
  have t: "takeWhile is_digit (ds @ rest) = ds"
    using assms(1,4) by (cases rest) (auto simp: list_all_iff takeWhile_append2)
  show ?thesis
    unfolding stoull_def d s Let_def prod.case t using assms(2,3) by simp
qed

end
