(* ===== verification/Main_Program.thy ===== *)
theory Main_Program
  imports Server_Session Config
begin

text \<open>
  The server program \<^verbatim>\<open>src/main.cpp\<close>: its routes, its mounts and its choice of the number of
  threads.  The directory walk of \<^verbatim>\<open>/api/files\<close> is the argument \<open>listing\<close> (\<^const>\<open>None\<close> when the
  directory does not exist).
\<close>

text \<open>The JSON array of file names; only the quotation mark is escaped.\<close>

fun escape_quotes :: "string \<Rightarrow> string" where
  "escape_quotes [] = []"
| "escape_quotes (c # cs) =
     (if c = CHR 0x22 then CHR 0x5C # CHR 0x22 # escape_quotes cs else c # escape_quotes cs)"

fun json_entries :: "string list \<Rightarrow> string" where
  "json_entries [] = []"
| "json_entries (u # us) =
     ''  '' @ [CHR 0x22] @ escape_quotes u @ [CHR 0x22] @ (if us \<noteq> [] then '','' else []) @ [newline] @
     json_entries us"

definition json_listing :: "string list \<Rightarrow> string" where
  "json_listing urls = ''['' @ [newline] @ json_entries urls @ '']'' @ [newline]"

definition files_handler :: "string list option \<Rightarrow> handler" where
  "files_handler listing req = (case listing of
       None \<Rightarrow> Some (not_found ''www root not found'')
     | Some urls \<Rightarrow>
         Some (set_header ''content-type'' ''application/json'' (text_response (json_listing urls) OK_200 ''utf-8'')))"

definition chat_open :: "ws_call list" where
  "chat_open = [SendTextAsync (str_bytes ''Welcome!'')]"

definition chat_message :: "bytes \<Rightarrow> ws_call list" where
  "chat_message m = [SendTextAsync m]"

definition chat_close :: "u16 \<Rightarrow> bytes \<Rightarrow> ws_call list" where
  "chat_close code reason = []"

text \<open>The mounts, in the order of the configuration; a canonical path that throws ends the program.\<close>

fun mount_all :: "(string \<Rightarrow> string option) \<Rightarrow> static_mount list \<Rightarrow> router \<Rightarrow> router option" where
  "mount_all canonical [] r = Some r"
| "mount_all canonical (m # ms) r =
     (case MountStatic canonical (url_prefix m) (mount_root m) r of
        None \<Rightarrow> None
      | Some r \<Rightarrow> mount_all canonical ms r)"

definition main_router :: "(string \<Rightarrow> string option) \<Rightarrow> string list option \<Rightarrow> server_config \<Rightarrow> router option" where
  "main_router canonical listing cfg =
     (case MountStatic canonical ''/'' (www_root cfg) empty_router of
        None \<Rightarrow> None
      | Some r \<Rightarrow>
          (case mount_all canonical (mounts cfg) r of
             None \<Rightarrow> None
           | Some r \<Rightarrow>
               (let r = Get ''/hello'' (\<lambda>req. Some (text_response ''This was a get method from async'' OK_200 ''utf-8'')) r;
                    r = Post ''/hello'' (\<lambda>req. Some (text_response ''This was a post method from sync'' OK_200 ''utf-8'')) r;
                    r = Get ''/api/files'' (files_handler listing) r
                in Some (WebSocketRouter ''/chat''
                     [router_on_open chat_open, router_on_message chat_message, router_on_close chat_close] r))))"

definition main_threads :: "server_config \<Rightarrow> nat \<Rightarrow> nat" where
  "main_threads cfg hardware_concurrency =
     (if threads cfg = 0 then max 1 hardware_concurrency else threads cfg)"

text \<open>The routes of the program, whatever is mounted.\<close>

lemma mount_all_routes:
  "mount_all canonical ms r = Some r' \<Longrightarrow> routes r' = routes r \<and> ws_routes r' = ws_routes r"
  by (induction ms arbitrary: r) (fastforce simp: MountStatic_def split: option.splits if_splits)+

lemma main_router_routes:
  assumes "main_router canonical listing cfg = Some r"
  shows "find_route GET ''/hello'' r =
      Some (\<lambda>req. Some (text_response ''This was a get method from async'' OK_200 ''utf-8''))"
    and "find_route GET ''/api/files'' r = Some (files_handler listing)"
    and "find_ws ''/chat'' r = Some \<lparr>on_open = Some chat_open, on_message = Some chat_message,
      on_close = Some chat_close\<rparr>"
    and "find_route POST ''/hello'' r =
      Some (\<lambda>req. Some (text_response ''This was a post method from sync'' OK_200 ''utf-8''))"
proof -
  obtain r0 r1 where m: "MountStatic canonical ''/'' (www_root cfg) empty_router = Some r0"
    "mount_all canonical (mounts cfg) r0 = Some r1"
    using assms by (auto simp: main_router_def split: option.splits)
  have "routes r1 = Map.empty"
    using m(1) mount_all_routes [OF m(2)]
    by (auto simp: MountStatic_def empty_router_def split: option.splits if_splits)
  then have n: "find_route me p r1 = None" for me p by (simp add: find_route_def)
  have c: "find_route me p (commit_ws_route q hs x) = find_route me p x" for me p q hs x
    by (simp add: find_route_def)
  show "find_route GET ''/hello'' r =
      Some (\<lambda>req. Some (text_response ''This was a get method from async'' OK_200 ''utf-8''))"
    "find_route GET ''/api/files'' r = Some (files_handler listing)"
    "find_route POST ''/hello'' r =
      Some (\<lambda>req. Some (text_response ''This was a post method from sync'' OK_200 ''utf-8''))"
    using assms by (auto simp: main_router_def m Let_def WebSocketRouter_def c Get_def Post_def find_route_add n)
  show "find_ws ''/chat'' r = Some \<lparr>on_open = Some chat_open, on_message = Some chat_message,
      on_close = Some chat_close\<rparr>"
    using assms by (auto simp: main_router_def m Let_def WebSocketRouter_def find_ws_commit
        router_on_open_def router_on_message_def router_on_close_def no_handlers_def)
qed

end
