(* ===== verification/Http_Exchange.thy ===== *)
theory Http_Exchange
  imports Http_Client Main_Program
begin

text \<open>
  A request of the HTTP client answered by the server's session: the lines of a response as they
  appear on the wire, and what the client's reader makes of them.
\<close>

section \<open>A response on the wire\<close>

definition status_line :: "response \<Rightarrow> string" where
  "status_line resp = rs_version resp @ '' '' @ dec_int (rs_status resp) @ '' '' @ reason_phrase (rs_status resp)"

definition plain_response :: "response \<Rightarrow> bool" where
  "plain_response resp \<longleftrightarrow> newline \<notin> set (rs_version resp) \<and> hdr_ok (rs_headers resp) \<and>
     list_all plain_header (rs_headers resp)"

text \<open>The header fields that are sent: the length is added when it is missing.\<close>

definition response_fields :: "response \<Rightarrow> headers" where
  "response_fields resp =
     (if rs_has_header resp ''Content-Length'' then rs_headers resp
      else rs_headers resp @ [(''Content-Length'', dec (length (rs_body resp)))])"

lemma prepared_headers:
  "rs_headers (snd (prepare_headers iter resp (length (rs_body resp)))) = response_fields resp"
  by (auto simp: prepare_headers_def response_fields_def Let_def rs_has_header_def hdr_contains_def hdr_set_fresh)

lemma response_bytes_eq:
  "response_bytes iter resp = status_line resp @ crlf @ concat (map header_line (iter (response_fields resp))) @
     crlf @ rs_body resp"
  using prepared_headers [of iter resp]
  by (auto simp: response_bytes_def prepare_headers_def rs_to_string_header_def status_line_def Let_def)

lemma set_hdr_set: "set (hdr_set k v h) \<subseteq> insert (k, v) (set h \<union> {(k', v) | k' v'. (k', v') \<in> set h})"
  by (induction k v h rule: hdr_set.induct) auto

lemma plain_set_header:
  assumes "plain_header (k, v)" "plain_response resp"
  shows "plain_response (set_header k v resp)"
  using assms plain_hdr_set by (simp add: plain_response_def)

lemma plain_connection: "plain_response resp \<Longrightarrow> plain_response (set_connection b resp)"
  unfolding set_connection_def
  by (auto intro!: plain_set_header trim_no_space simp: plain_header_def is_space_def newline_def)

lemma newline_dec: "newline \<notin> set (dec_int i)"
proof -
  have "newline \<notin> set (dec n)" for n
    using plain_number [of n] by (simp add: plain_header_def)
  then show ?thesis by (simp add: dec_int_def newline_def)
qed

lemma newline_status_line: "plain_response resp \<Longrightarrow> newline \<notin> set (status_line resp)"
  using newline_dec [of "rs_status resp"]
  by (auto simp: status_line_def plain_response_def reason_phrase_def newline_def)

lemma plain_fields:
  assumes "plain_response resp" "any_order iter (response_fields resp)"
  shows "list_all plain_header (iter (response_fields resp))"
  using assms plain_number [of "length (rs_body resp)"]
  by (auto simp: list_all_iff any_order_set response_fields_def plain_response_def split: if_splits)

text \<open>The head of a response ends at its empty line.\<close>

lemma response_head_end:
  assumes "plain_response resp" "any_order iter (response_fields resp)"
  shows "header_end (response_bytes iter resp) =
    Some (length (response_bytes iter resp) - length (rs_body resp))"
  using header_end_fields [OF plain_fields [OF assms] newline_status_line [OF assms(1)], of "rs_body resp"]
  by (simp add: response_bytes_eq)

section \<open>The client's reader\<close>

lemma split_head_line:
  assumes "newline \<notin> set l" "l \<noteq> []"
  shows "split_head (l @ crlf @ s) h = split_head s (h @ l @ crlf)"
  using assms by (subst split_head.simps) (simp add: getline_crlf, simp add: crlf_def)

lemma split_head_stop: "split_head (crlf @ s) h = (h, s)"
  using getline_crlf [of "[]" s] by (subst split_head.simps) simp

lemma split_head_fields:
  "list_all plain_header es \<Longrightarrow>
   split_head (concat (map header_line es) @ crlf @ s) h = (h @ concat (map header_line es), s)"
proof (induction es arbitrary: h)
  case Nil
  then show ?case by (simp add: split_head_stop)
next
  case (Cons e es)
  have "newline \<notin> set (fst e @ '': '' @ snd e)"
    using Cons.prems by (simp add: plain_header_def newline_def)
  then have "split_head ((fst e @ '': '' @ snd e) @ crlf @ t) h = split_head t (h @ (fst e @ '': '' @ snd e) @ crlf)" for t
    by (intro split_head_line) simp_all
  with Cons show ?case by (simp add: header_line_def)
qed

text \<open>The empty line between head and body is not part of what the client returns.\<close>

lemma read_response_bytes:
  assumes "plain_response resp" "any_order iter (response_fields resp)" "status_line resp \<noteq> []"
  shows "read_response [response_bytes iter resp] e c =
    (status_line resp @ crlf @ concat (map header_line (iter (response_fields resp))) @ rs_body resp,
     c\<lparr>h_stopped := True\<rparr>)"
proof -
  obtain n where "header_end (response_bytes iter resp) = Some n"
    using response_head_end [OF assms(1,2)] by blast
  then have u: "seg_until [response_bytes iter resp] [] = Inr (response_bytes iter resp, n, [])" by simp
  have "split_head (response_bytes iter resp) [] =
      (status_line resp @ crlf @ concat (map header_line (iter (response_fields resp))), rs_body resp)"
    unfolding response_bytes_eq split_head_line [OF newline_status_line [OF assms(1)] assms(3)]
    using split_head_fields [OF plain_fields [OF assms(1,2)]] by simp
  with u show ?thesis by (simp add: read_response_def)
qed

lemma status_line_nonempty [simp]: "status_line resp \<noteq> []"
  by (simp add: status_line_def)

section \<open>The client's request\<close>

text \<open>A server session as the peer of a client: it gets the request as one segment.\<close>

definition server_peer :: "tcp_socket server_env \<Rightarrow> router \<Rightarrow> u64 \<Rightarrow> string \<Rightarrow> string list \<times> stream_end" where
  "server_peer E r client_id sent =
     (case process_session E r client_id 2 \<lparr>inbox = [sent], outbox = [], peer_up = True\<rparr> of
        None \<Rightarrow> ([], StreamError)
      | Some (e, s) \<Rightarrow> ([outbox s], StreamEof))"

lemma client_get_header:
  "hdr_find k (rq_headers (client_request GET target [] [] c)) =
    (if ci_equal ''Connection'' k then Some ''close'' else if ci_equal ''Host'' k then Some (h_host c) else None)"
proof -
  have n: "\<not> ci_equal ''Host'' ''Connection''" by (simp add: ci_equal_def)
  then have "\<not> (ci_equal ''Host'' k \<and> ci_equal ''Connection'' k)" by (simp only: ci_equal_iff) metis
  with n show ?thesis by (auto simp: client_request_def hdr_find_set)
qed

lemma client_get_plain:
  assumes "no_space target" "target \<noteq> []" "plain_value (h_host c)"
  shows "plain_request (client_request GET target [] [] c)" "framed (client_request GET target [] [] c)"
proof -
  have "trim ''Connection'' = ''Connection''" "trim ''close'' = ''close''" "trim ''Host'' = ''Host''"
    by (rule trim_no_space, simp add: is_space_def)+
  then have "list_all plain_header (rq_headers (client_request GET target [] [] c))"
    using assms(3) by (auto simp: client_request_def plain_header_def plain_value_def newline_def
        intro!: plain_hdr_set)
  moreover have "hdr_ok (rq_headers (client_request GET target [] [] c))"
    by (simp add: client_request_def del: hdr_set.simps)
  moreover have "rq_target (client_request GET target [] [] c) = target"
    "rq_version (client_request GET target [] [] c) = ''HTTP/1.1''"
    by (simp_all add: client_request_def)
  ultimately show "plain_request (client_request GET target [] [] c)"
    using assms(1,2) by (simp add: plain_request_def) (simp add: is_space_def)
  have "\<not> hdr_contains ''content-length'' (rq_headers (client_request GET target [] [] c))"
    by (simp add: hdr_contains_def client_get_header ci_equal_def)
  then show "framed (client_request GET target [] [] c)"
    by (simp add: framed_def) (simp add: client_request_def empty_request_def)
qed

lemma client_get_close: "\<not> wants_keep_alive (client_request GET target [] [] c)"
  "\<not> is_ws_upgrade (client_request GET target [] [] c)"
proof -
  show "\<not> wants_keep_alive (client_request GET target [] [] c)"
    by (simp add: wants_keep_alive_def rq_header_def header_value_def client_get_header)
  have "\<not> hdr_contains ''Upgrade'' (rq_headers (client_request GET target [] [] c))"
    by (simp add: hdr_contains_def client_get_header ci_equal_def)
  then show "\<not> is_ws_upgrade (client_request GET target [] [] c)"
    by (simp add: is_ws_upgrade_def)
qed

end
