(* ===== verification/Http_Wellformed.thy ===== *)
theory Http_Wellformed
  imports Http_Roundtrip
begin

text \<open>
  What holds of every request the server has read, whatever bytes arrived: the well-formedness of
  its containers, of its strings and of its body, kept by every layer of the parser.
\<close>

section \<open>Well-formed requests\<close>

definition request_ok :: "request \<Rightarrow> bool" where
  "request_ok r \<longleftrightarrow> hdr_ok (rq_headers r) \<and> list_all plain_header (rq_headers r) \<and> mm_ok (rq_params r) \<and>
     no_space (rq_target r) \<and> no_space (rq_version r) \<and> CHR ''?'' \<notin> set (rq_path r) \<and>
     length (rq_body r) = (case rq_content_length r of None \<Rightarrow> 0 | Some n \<Rightarrow> n)"

section \<open>Header lines\<close>

lemma set_trim: "set (trim s) \<subseteq> set s"
  by (auto simp: trim_def ltrim_def rtrim_def dest!: set_dropWhileD)

lemma getline_no_newline: "getline s = Some (l, r) \<Longrightarrow> newline \<notin> set l"
  by (auto simp: getline_def dest: set_takeWhileD split: if_splits)

lemma set_pop_cr: "set (pop_cr l) \<subseteq> set l"
  by (auto simp: pop_cr_def dest: in_set_butlastD)

lemma parsed_line_plain:
  assumes "find_char (CHR '':'') line = Some col" "newline \<notin> set line"
  shows "plain_header (trim (take col line), trim (drop pos line))"
proof -
  have "CHR '':'' \<notin> set (take col line)" using find_char_Some [OF assms(1)] by simp
  moreover have "newline \<notin> set (take col line)" "newline \<notin> set (drop pos line)"
    using assms(2) by (auto dest: in_set_takeD in_set_dropD)
  ultimately show ?thesis
    using set_trim [of "take col line"] set_trim [of "drop pos line"] by (auto simp: plain_header_def)
qed

lemma parse_header_lines_ok:
  "hdr_ok h \<and> list_all plain_header h \<Longrightarrow>
   hdr_ok (parse_header_lines s h) \<and> list_all plain_header (parse_header_lines s h)"
proof (induction s h rule: parse_header_lines.induct)
  case (1 s h)
  show ?case
  proof (cases "getline s")
    case None
    with 1 show ?thesis by (simp add: parse_header_lines.simps)
  next
    case (Some x)
    obtain l r where x: "x = (l, r)" by (cases x)
    have nl: "newline \<notin> set (pop_cr l)" using getline_no_newline Some set_pop_cr x by blast
    show ?thesis
    proof (cases "pop_cr l = [] \<or> find_char (CHR '':'') (pop_cr l) = None")
      case True
      with 1 Some x show ?thesis by (subst (1 2) parse_header_lines.simps) (auto simp: Let_def)
    next
      case False
      then obtain col where c: "find_char (CHR '':'') (pop_cr l) = Some col" "pop_cr l \<noteq> []" by auto
      define pos where "pos = (if col + 1 < length (pop_cr l) \<and> pop_cr l ! (col + 1) = CHR '' '' then col + 1 + 1 else col + 1)"
      let ?h = "hdr_set (trim (take col (pop_cr l))) (trim (drop pos (pop_cr l))) h"
      have p: "parse_header_lines s h = parse_header_lines r ?h"
        using Some x c by (subst parse_header_lines.simps) (simp add: Let_def pos_def)
      have "hdr_ok ?h \<and> list_all plain_header ?h"
        using "1.prems" plain_hdr_set [OF parsed_line_plain [OF c(1) nl]] by simp
      then show ?thesis
        unfolding p using "1.IH"(2) [OF Some x [symmetric] refl c(2,1) refl refl refl refl]
        by (simp add: pos_def)
    qed
  qed
qed

section \<open>The first line and the target\<close>

lemma extract_word_no_space: "extract_word s = Some (w, r) \<Longrightarrow> no_space w"
  by (auto simp: extract_word_def Let_def list_all_iff dest: set_takeWhileD split: if_splits)

lemma parse_first_line_ok:
  "no_space t \<Longrightarrow> no_space v \<Longrightarrow> parse_first_line l t v = (m, t', v') \<Longrightarrow> no_space t' \<and> no_space v'"
  by (auto simp: parse_first_line_def dest!: extract_word_no_space split: option.splits prod.splits)

lemma split_query_ok: "mm_ok m \<Longrightarrow> mm_ok (split_query q m)"
proof (induction q m rule: split_query.induct)
  case (1 query m)
  then show ?case
    by (subst split_query.simps) (auto simp: Let_def split: option.splits)
qed

lemma split_target_ok: "split_target t = (p, ps) \<Longrightarrow> CHR ''?'' \<notin> set p \<and> mm_ok ps"
  by (auto simp: split_target_def split_query_ok find_char_None_iff dest: find_char_Some split: option.splits)

lemma parse_http_request_ok:
  assumes "req = parse_http_request data empty_request"
  shows "hdr_ok (rq_headers req) \<and> list_all plain_header (rq_headers req) \<and> mm_ok (rq_params req) \<and>
    no_space (rq_target req) \<and> no_space (rq_version req) \<and> CHR ''?'' \<notin> set (rq_path req) \<and> rq_body req = []"
proof -
  obtain line s where l: "(case getline data of None \<Rightarrow> ([], []) | Some r \<Rightarrow> r) = (line, s)" by fastforce
  obtain m t v where f: "parse_first_line (pop_cr line) [] [] = (m, t, v)" by (cases "parse_first_line (pop_cr line) [] []")
  obtain p ps where t: "split_target t = (p, ps)" by fastforce
  show ?thesis
    using parse_header_lines_ok [of "[]" s] parse_first_line_ok [OF _ _ f] split_target_ok [OF t] l f t
    by (simp add: assms parse_http_request_def empty_request_def)
qed

section \<open>The body\<close>

context text_stream
begin

lemma read_rest_length:
  assumes "read_rest rd want [] s = Inr (x, s')"
  shows "length x = want"
proof (cases "want \<le> length (view s)")
  case True
  then show ?thesis using read_rest_enough [OF True] assms by auto
next
  case False
  then have "want \<noteq> 0" "rd want s = Inl NetEof" using rd_short by auto
  with assms show ?thesis by (simp add: read_rest.simps)
qed

lemma co_read_body_length:
  "co_read_body rd alloc_max s buf n = Inr (b, buf', s') \<Longrightarrow> length b = n \<and> n \<le> alloc_max"
  by (auto simp: co_read_body_def Let_def dest: read_rest_length split: if_splits sum.splits)

lemma do_read_ok:
  assumes "do_read rd_until rd alloc_max s = Inr (req, s')"
  shows "request_ok req \<and> length (rq_body req) \<le> alloc_max"
proof -
  obtain h buf s1 where h: "co_read_headers rd_until s [] = Inr (h, buf, s1)"
    using assms by (auto simp: do_read_def split: sum.splits)
  define q where "q = parse_http_request h empty_request"
  define n where "n = (case rq_content_length q of None \<Rightarrow> 0 | Some n \<Rightarrow> n)"
  note q = parse_http_request_ok [OF q_def]
  have f: "rq_content_length (q\<lparr>rq_body := b\<rparr>) = rq_content_length q" for b
    by (simp add: rq_content_length_def rq_header_def)
  show ?thesis
  proof (cases "n = 0")
    case True
    then have "req = q" using assms h by (simp add: do_read_def q_def n_def Let_def)
    then show ?thesis using q True by (simp add: request_ok_def n_def)
  next
    case False
    obtain b buf' s2 where b: "co_read_body rd alloc_max s1 buf n = Inr (b, buf', s2)" "req = q\<lparr>rq_body := b\<rparr>"
      using assms h False by (auto simp: do_read_def q_def [symmetric] n_def [symmetric] Let_def split: sum.splits)
    then show ?thesis
      using q f co_read_body_length [OF b(1)] by (simp add: request_ok_def n_def)
  qed
qed

end

text \<open>A well-formed request with a target and a version can be sent on.\<close>

lemma request_ok_plain:
  "request_ok r \<Longrightarrow> rq_target r \<noteq> [] \<Longrightarrow> rq_version r \<noteq> [] \<Longrightarrow> plain_request r"
  by (simp add: request_ok_def plain_request_def)

end
