(* ===== verification/Http_Properties.thy ===== *)
theory Http_Properties
  imports Http_Exchange Http_Wellformed
begin

text \<open>
  The properties of the HTTP layer and of the configuration file, each with a concrete instance
  where it has hypotheses.
\<close>

section \<open>Messages\<close>

text \<open>
  C5: A request survives the wire.  Whatever request is serialised, with its headers in any order,
  and however the network cuts it up, the server reads back its method, target, version and body,
  the split of its target, and every header field; the length the serialiser adds is the only
  difference.
\<close>

theorem request_round_trip:
  assumes "text_stream rd_until rd view" "plain_request r" "any_order iter (rq_headers r)" "framed r"
    "length (rq_body r) \<le> alloc_max" "view s = rq_to_string iter r"
  shows "\<exists>q s'. do_read rd_until rd alloc_max s = Inr (q, s') \<and> view s' = [] \<and>
    rq_method q = rq_method r \<and> rq_target q = rq_target r \<and> rq_version q = rq_version r \<and>
    rq_body q = rq_body r \<and> (rq_path q, rq_params q) = split_target (rq_target r) \<and>
    (\<forall>k. \<not> ci_equal ''content-length'' k \<longrightarrow> hdr_find k (rq_headers q) = hdr_find k (rq_headers r))"
proof -
  let ?q = "received_request iter r"
  obtain s' where "do_read rd_until rd alloc_max s = Inr (?q, s')" "view s' = []"
    using text_stream.do_read_request [OF assms] by blast
  moreover note parse_head_fields(1-4) [OF assms(2,3), of "[]"]
  ultimately show ?thesis
    using received_other_header [OF assms(2,3)]
    by (intro exI [of _ ?q] exI [of _ s']) (simp add: received_request_def parsed_head_def)
qed

definition sample_request :: request where
  "sample_request = empty_request\<lparr>rq_method := POST, rq_target := ''/a?x=1&y&x=2'', rq_version := ''HTTP/1.1'',
     rq_headers := [(''Host'', ''h''), (''X-Tag'', ''a b'')], rq_body := ''hi''\<rparr>"

lemma sample_plain: "plain_request sample_request" "framed sample_request"
  by (simp_all add: plain_request_def framed_def sample_request_def plain_header_def is_space_def newline_def
      hdr_ok_def to_lower_def hdr_contains_def ci_equal_def trim_fixed)

theorem request_round_trip_witness:
  "\<exists>q s'. do_read tcp_until tcp_read 10
      \<lparr>inbox = [take 7 (rq_to_string rev sample_request), drop 7 (rq_to_string rev sample_request)],
       outbox = [], peer_up = True\<rparr> = Inr (q, s') \<and>
    rq_method q = POST \<and> rq_body q = ''hi'' \<and> hdr_find ''host'' (rq_headers q) = Some ''h''"
proof -
  let ?s = "\<lparr>inbox = [take 7 (rq_to_string rev sample_request), drop 7 (rq_to_string rev sample_request)],
       outbox = [], peer_up = True\<rparr>"
  have v: "tcp_view ?s = rq_to_string rev sample_request" by (simp add: tcp_view_def)
  have o: "any_order rev h" for h by (simp add: any_order_def)
  have f: "rq_method sample_request = POST" "rq_body sample_request = ''hi''"
    "hdr_find ''host'' (rq_headers sample_request) = Some ''h''" "\<not> ci_equal ''content-length'' ''host''"
    by (simp_all add: sample_request_def ci_equal_iff to_lower_def char_of_def bit_0)
  have n: "length (rq_body sample_request) \<le> 10" by (simp add: f)
  show ?thesis
    using request_round_trip [OF tcp.text_stream_axioms sample_plain(1) o sample_plain(2) n v] f by metis
qed

text \<open>
  C7: Every request the server reads is well formed.  Whatever bytes arrive, a request that is handed
  to a handler has at most one field per name, trimmed names without a colon and values without a line
  break, parameters in order, a target, version and path without the characters that end them, and a
  body of exactly the announced length, which fits in memory; with a target and a version it is one
  that survives being sent again.
\<close>

theorem read_request_well_formed:
  assumes "text_stream rd_until rd view" "do_read rd_until rd alloc_max s = Inr (req, s')"
  shows "hdr_ok (rq_headers req) \<and> list_all plain_header (rq_headers req) \<and> mm_ok (rq_params req) \<and>
    no_space (rq_target req) \<and> no_space (rq_version req) \<and> CHR ''?'' \<notin> set (rq_path req) \<and>
    length (rq_body req) = (case rq_content_length req of None \<Rightarrow> 0 | Some n \<Rightarrow> n) \<and> length (rq_body req) \<le> alloc_max \<and>
    (rq_target req \<noteq> [] \<and> rq_version req \<noteq> [] \<longrightarrow> plain_request req)"
  using text_stream.do_read_ok [OF assms] request_ok_plain [of req] by (simp add: request_ok_def)

theorem read_request_well_formed_witness:
  "\<exists>req s'. do_read tcp_until tcp_read 10 \<lparr>inbox = [rq_to_string rev sample_request], outbox = [], peer_up = True\<rparr> =
      Inr (req, s') \<and> hdr_ok (rq_headers req) \<and> list_all plain_header (rq_headers req) \<and> length (rq_body req) \<le> 10"
proof -
  let ?s = "\<lparr>inbox = [rq_to_string rev sample_request], outbox = [], peer_up = True\<rparr>"
  have o: "any_order rev (rq_headers sample_request)" by (simp add: any_order_def)
  have "length (rq_body sample_request) \<le> 10" by (simp add: sample_request_def)
  then have r: "do_read tcp_until tcp_read 10 ?s = Inr (received_request rev sample_request, ?s\<lparr>inbox := []\<rparr>)"
    using tcp_read_segment [OF sample_plain(1) o sample_plain(2), of 10 ?s "[]" "[]"] by simp
  show ?thesis using read_request_well_formed [OF tcp.text_stream_axioms r] r by blast
qed

text \<open>
  C30: Query parameters keep their order.  For a target with any list of fields the n-th value of a
  name is the n-th value the query gives it, counting from zero, the empty string beyond the last;
  the count is the number of fields of that name.
\<close>

theorem query_parameters:
  assumes "list_all plain_field es" "CHR ''?'' \<notin> set p" "no_space (p @ CHR ''?'' # query es)"
    "no_space v" "v \<noteq> []"
  shows "let q = parse_http_request (method_str m @ '' '' @ (p @ CHR ''?'' # query es) @ '' '' @ v @ crlf @ s) req;
             vs = (\<lambda>k. map snd (filter (\<lambda>e. fst e = k) es))
         in rq_path q = p \<and> get_param_value_count q k = length (vs k) \<and>
            get_param_value q k n = (if n < length (vs k) then vs k ! n else [])"
proof -
  let ?t = "p @ CHR ''?'' # query es"
  have t: "split_target ?t = (p, split_query (query es) [])"
    by (rule split_target_query [OF assms(2)])
  have "parse_http_request (method_str m @ '' '' @ ?t @ '' '' @ v @ crlf @ s) req =
      req\<lparr>rq_method := m, rq_path := p, rq_version := v, rq_target := ?t,
          rq_headers := parse_header_lines s (rq_headers req), rq_params := split_query (query es) []\<rparr>"
    using parse_http_request_line [OF assms(3) _ assms(4,5)] t by simp
  then show ?thesis
    using equal_range_fields [OF assms(1)]
    by (simp add: Let_def get_param_value_def get_param_value_count_def param_at_eq nth_map del: append_assoc)
qed

theorem query_parameters_witness:
  "let q = parse_http_request (''GET'' @ '' '' @ (''/a'' @ CHR ''?'' # ''x=1&y=&x=2'') @ '' '' @ ''HTTP/1.1'' @ crlf @ crlf) empty_request
   in rq_path q = ''/a'' \<and> get_param_value_count q ''x'' = 2 \<and> get_param_value q ''x'' 1 = ''2''"
  using query_parameters [of "[(''x'', ''1''), (''y'', []), (''x'', ''2'')]" "''/a''" "''HTTP/1.1''" GET crlf
      empty_request "''x''" 1]
  by (simp add: plain_field_def query_def field_def is_space_def method_str_def Let_def)

text \<open>
  C25: The base 64 encoder is base 64.  The shift register of the code yields the symbols of the
  three-byte groups with the padding of the specification, four symbols per started group.
\<close>

theorem base64_encode_correct:
  "base64_encode src = b64_spec src \<and> length (base64_encode src) = 4 * ((length src + 2) div 3)"
  by (simp add: base64_encode_eq length_b64_spec)

text \<open>
  Header names ignore case, consistently.  Names are equal exactly when their lower case is;
  equal names have equal hashes whatever the hash of strings; and after an assignment a lookup by
  any spelling of the name sees the new value, other names what they had, with one entry per name.
\<close>

theorem header_names_ignore_case:
  "(ci_equal a b \<longleftrightarrow> map to_lower a = map to_lower b) \<and>
   (ci_equal a b \<longrightarrow> ci_hash std_hash a = ci_hash std_hash b) \<and>
   hdr_find b (hdr_set a v h) = (if ci_equal a b then Some v else hdr_find b h) \<and>
   (hdr_ok h \<longrightarrow> hdr_ok (hdr_set a v h))"
  by (simp add: ci_equal_iff ci_hash_def hdr_find_set)

theorem header_names_ignore_case_witness:
  "hdr_find ''CONTENT-type'' (hdr_set ''Content-Type'' ''b'' [(''content-type'', ''a'')]) = Some ''b''"
proof -
  have "map to_lower ''Content-Type'' = map to_lower ''CONTENT-type''"
    by (simp add: to_lower_def char_of_def bit_0)
  then have c: "ci_equal ''Content-Type'' ''CONTENT-type''" by (simp only: ci_equal_iff)
  show ?thesis
    using header_names_ignore_case [of "''Content-Type''" "''CONTENT-type''" "\<lambda>s. 0" "''b''" "[(''content-type'', ''a'')]"]
    by (elim conjE) (simp only: c if_True)
qed

section \<open>Sessions\<close>

text \<open>
  C9: A session answers in order.  Requests that arrive one per segment and ask to keep the
  connection are answered one after the other, each response marked keep-alive; the first request
  that asks to close gets a response marked close, ends the session, and leaves what follows unread.
\<close>

theorem session_answers_in_order:
  assumes "tcp_env E" "list_all2 (served E r) qs resps" "list_all wants_keep_alive qs"
    "served E r q resp" "\<not> wants_keep_alive q" "peer_up s"
    "inbox s = map (rq_to_string (e_iter E)) qs @ rq_to_string (e_iter E) q # rest" "length qs < fuel"
  shows "process_session E r client_id fuel s = Some (ClosedByRequest,
    s\<lparr>inbox := rest,
      outbox := outbox s @ concat (map (\<lambda>x. response_bytes (e_iter E) (set_header ''Connection'' ''keep-alive'' x)) resps) @
        response_bytes (e_iter E) (set_header ''Connection'' ''close'' resp)\<rparr>)"
proof -
  obtain k where k: "fuel = length qs + Suc k" using assms(8) less_iff_Suc_add by auto
  have a: "answer E True = (\<lambda>x. response_bytes (e_iter E) (set_header ''Connection'' ''keep-alive'' x))"
    "answer E False = (\<lambda>x. response_bytes (e_iter E) (set_header ''Connection'' ''close'' x))"
    by (simp_all add: answer_def set_connection_def fun_eq_iff)
  show ?thesis
    unfolding k process_session_requests [OF assms(1-3) assms(6,7)]
    using process_session_turn [OF assms(1,4)] assms(5,6) by (simp add: Let_def a)
qed

definition sample_fs :: file_system where
  "sample_fs = \<lparr>fs_canonical = Some, fs_exists = (\<lambda>p. False), fs_size = (\<lambda>p. None), fs_open = (\<lambda>p. None)\<rparr>"

definition sample_env :: "tcp_socket server_env" where
  "sample_env = \<lparr>e_until = tcp_until, e_read = tcp_read, e_write = tcp_write, e_iter = id, e_alloc_max = 100,
     e_fs = sample_fs, e_native = True, e_answers = (\<lambda>s. []), e_counts = (\<lambda>s. []), e_sha1 = id\<rparr>"

text \<open>The routes of the server program over an empty directory.\<close>

definition sample_router :: router where
  "sample_router = the (main_router Some None default_config)"

lemma sample_router: "main_router Some None default_config = Some sample_router"
  by (simp add: sample_router_def main_router_def default_config_def MountStatic_def)

definition hello_response :: response where
  "hello_response = text_response ''This was a get method from async'' OK_200 ''utf-8''"

definition hello_request :: "string \<Rightarrow> request" where
  "hello_request c = empty_request\<lparr>rq_method := GET, rq_target := ''/hello'', rq_version := ''HTTP/1.1'',
     rq_headers := [(''Connection'', c)]\<rparr>"

lemma tcp_sample_env: "tcp_env sample_env"
  by (simp add: tcp_env_def sample_env_def any_order_def)

text \<open>A request for the greeting of the server program is served.\<close>

lemma served_hello:
  assumes "plain_request q" "framed q" "length (rq_body q) \<le> 100" "\<not> is_ws_upgrade q"
    "rq_method q = GET" "rq_target q = ''/hello''"
  shows "served sample_env sample_router q hello_response"
proof -
  have o: "any_order id (rq_headers q)" by (simp add: any_order_def)
  have "rq_path (received_request id q) = ''/hello''" "rq_method (received_request id q) = GET"
    using parse_head_fields(1,4) [OF assms(1) o, of "[]"] split_target_plain [of "''/hello''"] assms(5,6)
    by (simp_all add: received_request_def parsed_head_def)
  then have "handle_request sample_fs sample_router (received_request id q) = Some hello_response"
    using main_router_routes(1) [OF sample_router] by (simp add: handle_request_def hello_response_def)
  then show ?thesis
    using assms by (simp add: served_def sendable_def sample_env_def)
      (simp add: hello_response_def text_response_def set_content_def default_response_def)
qed

lemma hello_simps:
  "plain_request (hello_request c) = plain_value c" "framed (hello_request c)"
  "rq_method (hello_request c) = GET" "rq_target (hello_request c) = ''/hello''" "rq_body (hello_request c) = []"
  "\<not> is_ws_upgrade (hello_request c)" "wants_keep_alive (hello_request c) = (c \<noteq> ''close'')"
proof -
  have t: "trim ''Connection'' = ''Connection''" by (rule trim_no_space) (simp add: is_space_def)
  show "plain_request (hello_request c) = plain_value c"
    by (auto simp: plain_request_def plain_header_def hello_request_def hdr_ok_def t newline_def plain_value_def is_space_def)
  show "framed (hello_request c)" "\<not> is_ws_upgrade (hello_request c)"
    by (simp_all add: framed_def hello_request_def hdr_contains_def ci_equal_def empty_request_def is_ws_upgrade_def)
  show "wants_keep_alive (hello_request c) = (c \<noteq> ''close'')"
    by (simp add: wants_keep_alive_def rq_header_def header_value_def hello_request_def)
qed (simp_all add: hello_request_def empty_request_def)

lemma served_hello_request: "no_space c \<Longrightarrow> served sample_env sample_router (hello_request c) hello_response"
  using served_hello [of "hello_request c"]
  by (simp add: hello_simps plain_value_def no_space_chars)

theorem session_answers_in_order_witness:
  "process_session sample_env sample_router 1 5
      \<lparr>inbox = [rq_to_string id (hello_request ''keep-alive''), rq_to_string id (hello_request ''close''), ''left''],
       outbox = [], peer_up = True\<rparr> =
    Some (ClosedByRequest, \<lparr>inbox = [''left''], outbox =
      response_bytes id (set_header ''Connection'' ''keep-alive'' hello_response) @
      response_bytes id (set_header ''Connection'' ''close'' hello_response), peer_up = True\<rparr>)"
proof -
  let ?s = "\<lparr>inbox = [rq_to_string id (hello_request ''keep-alive''), rq_to_string id (hello_request ''close''), ''left''],
       outbox = [], peer_up = True\<rparr>"
  have e: "e_iter sample_env = id" by (simp add: sample_env_def)
  have k: "list_all2 (served sample_env sample_router) [hello_request ''keep-alive''] [hello_response]"
    "served sample_env sample_router (hello_request ''close'') hello_response"
    by (simp_all add: served_hello_request is_space_def)
  have w: "list_all wants_keep_alive [hello_request ''keep-alive'']" "\<not> wants_keep_alive (hello_request ''close'')"
    by (simp_all add: hello_simps)
  show ?thesis
    using session_answers_in_order [OF tcp_sample_env k(1) w(1) k(2) w(2), of ?s "[''left'']" 5 1]
    by (simp add: e)
qed

text \<open>
  C38: Pipelined requests are lost.  When two requests arrive in the same segment the second is
  dropped with the buffer of the first: the client gets one answer, and the session ends with a
  failed read.
\<close>

theorem pipelined_request_lost:
  assumes "tcp_env E" "served E r q resp" "wants_keep_alive q" "peer_up s"
    "inbox s = [rq_to_string (e_iter E) q @ rq_to_string (e_iter E) q2]"
  shows "process_session E r client_id (Suc (Suc fuel)) s = Some (ReadFailed,
    s\<lparr>inbox := [], outbox := outbox s @ response_bytes (e_iter E) (set_header ''Connection'' ''keep-alive'' resp)\<rparr>)"
proof -
  let ?s = "s\<lparr>inbox := [], outbox := outbox s @ answer E True resp\<rparr>"
  have "process_session E r client_id (Suc (Suc fuel)) s = process_session E r client_id (Suc fuel) ?s"
    using process_session_segment [OF assms(1,2,5,4)] assms(3) by (simp add: Let_def)
  also have "\<dots> = Some (ReadFailed, ?s)"
    by (rule process_session_end [OF assms(1)]) simp
  finally show ?thesis by (simp add: answer_def set_connection_def)
qed

theorem pipelined_request_lost_witness:
  "process_session sample_env sample_router 1 2
      \<lparr>inbox = [rq_to_string id (hello_request ''keep-alive'') @ rq_to_string id (hello_request ''close'')],
       outbox = [], peer_up = True\<rparr> =
    Some (ReadFailed, \<lparr>inbox = [], outbox =
      response_bytes id (set_header ''Connection'' ''keep-alive'' hello_response), peer_up = True\<rparr>)"
proof -
  let ?s = "\<lparr>inbox = [rq_to_string id (hello_request ''keep-alive'') @ rq_to_string id (hello_request ''close'')],
       outbox = [], peer_up = True\<rparr>"
  have e: "e_iter sample_env = id" by (simp add: sample_env_def)
  have k: "served sample_env sample_router (hello_request ''keep-alive'') hello_response"
    "wants_keep_alive (hello_request ''keep-alive'')"
    by (simp_all add: served_hello_request is_space_def hello_simps)
  show ?thesis
    using pipelined_request_lost [OF tcp_sample_env k, of ?s "hello_request ''close''" 1 0]
    by (simp add: e numeral_2_eq_2)
qed

text \<open>
  C20: The HTTP client gets what the handler returned.  A GET of the client, sent to a session of the
  server, comes back as the status line, the header lines with \<^verbatim>\<open>Connection: close\<close> and a length,
  and the body of the handler's response; the empty line between head and body is gone, and the
  client has stopped.
\<close>

theorem http_get_end_to_end:
  assumes "tcp_env E" "no_space target" "target \<noteq> []" "plain_value (h_host c)" "\<not> h_stopped c"
    "handle_request (e_fs E) r (received_request (e_iter E) (client_request GET target [] [] c)) = Some resp"
    "sendfile_path resp = []" "plain_response resp"
  shows "\<exists>fields. http_get (e_iter E) target [] (server_peer E r client_id) c =
      (rs_version resp @ '' '' @ dec_int (rs_status resp) @ '' '' @ reason_phrase (rs_status resp) @ crlf @
         concat (map header_line fields) @ rs_body resp, c\<lparr>h_stopped := True\<rparr>) \<and>
    mset fields = mset (response_fields (set_header ''Connection'' ''close'' resp))"
proof -
  let ?q = "client_request GET target [] [] c"
  let ?resp = "set_connection False resp"
  have b: "rq_body ?q = []" by (simp add: client_request_def empty_request_def)
  have "served E r ?q resp"
    using assms client_get_plain [OF assms(2-4)] client_get_close b by (simp add: served_def sendable_def)
  from process_session_turn [OF assms(1) this, of "\<lparr>inbox = [rq_to_string (e_iter E) ?q], outbox = [], peer_up = True\<rparr>" "[]" client_id 1]
  have p: "server_peer E r client_id (rq_to_string (e_iter E) ?q) = ([response_bytes (e_iter E) ?resp], StreamEof)"
    using client_get_close by (simp add: server_peer_def numeral_2_eq_2 answer_def Let_def)
  have o: "any_order (e_iter E) (response_fields ?resp)" using assms(1) by (simp add: tcp_env_def)
  have "plain_response ?resp" by (rule plain_connection [OF assms(8)])
  from read_response_bytes [OF this o] p assms(5) o show ?thesis
    by (auto simp: http_get_def send_request_def any_order_def status_line_def set_connection_def
        intro!: exI [of _ "e_iter E (response_fields ?resp)"])
qed

theorem http_get_end_to_end_witness:
  "\<exists>fields. fst (http_get id ''/hello'' [] (server_peer sample_env sample_router 3) (http_connect ''h'' new_http_client)) =
     ''HTTP/1.1 200 OK'' @ crlf @ concat (map header_line fields) @ ''This was a get method from async''"
proof -
  let ?c = "http_connect ''h'' new_http_client"
  let ?q = "client_request GET ''/hello'' [] [] ?c"
  have c: "no_space ''/hello''" "''/hello'' \<noteq> []" "plain_value (h_host ?c)" "\<not> h_stopped ?c"
    by (simp_all add: is_space_def plain_value_def http_connect_def new_http_client_def newline_def)
  have b: "rq_body ?q = []" "rq_method ?q = GET" "rq_target ?q = ''/hello''"
    by (simp_all add: client_request_def empty_request_def)
  have "served sample_env sample_router ?q hello_response"
    using served_hello [of ?q] client_get_plain [OF c(1-3)] client_get_close b by simp
  then have h: "handle_request (e_fs sample_env) sample_router (received_request (e_iter sample_env) ?q) = Some hello_response"
    "sendfile_path hello_response = []" by (simp_all add: served_def)
  have "trim ''Content-Type'' = ''Content-Type''" "trim ''text/plain; charset=utf-8'' = ''text/plain; charset=utf-8''"
    by (rule trim_fixed; simp add: is_space_def)+
  then have p: "plain_response hello_response"
    by (simp add: plain_response_def hello_response_def text_response_def set_content_def default_response_def
        newline_def hdr_ok_def plain_header_def)
  have f: "rs_version hello_response = ''HTTP/1.1''" "dec_int (rs_status hello_response) = ''200''"
    "reason_phrase (rs_status hello_response) = ''OK''" "rs_body hello_response = ''This was a get method from async''"
    by (simp_all add: hello_response_def text_response_def set_content_def default_response_def dec_int_def status_codes
        reason_phrase_def dec.simps digit_char_def char_of_def bit_0)
  show ?thesis
    using http_get_end_to_end [OF tcp_sample_env c h p, of 3] f by (auto simp: sample_env_def)
qed

section \<open>Configuration\<close>

text \<open>
  C27: A configuration survives the file.  Every configuration without unusual white space, written
  down in the format of the example files, is loaded back unchanged and without a warning.
\<close>

theorem config_round_trip:
  assumes "plain_config c"
  shows "load_config file (Some (config_text c)) = ([], Inr c)"
  by (rule load_config_text [OF assms])

theorem config_round_trip_witness:
  "load_config ''a.conf'' (Some (config_text (default_config\<lparr>port := 9001, mounts := [\<lparr>url_prefix = ''/s'', mount_root = ''w''\<rparr>]\<rparr>))) =
     ([], Inr (default_config\<lparr>port := 9001, mounts := [\<lparr>url_prefix = ''/s'', mount_root = ''w''\<rparr>]\<rparr>))"
  by (rule config_round_trip) (simp add: plain_config_def default_config_def plain_value_def plain_word_def is_space_def newline_def)

text \<open>
  A port is read up to the first character that is no digit.  A number followed by anything
  else is accepted as that number, and so is a negative number that wraps around into the range:
  only a value above 65535 or the absence of digits is an error.
\<close>

theorem port_accepts_trailing_text:
  assumes "rest = [] \<or> \<not> is_digit (hd rest)" "n < 2 ^ 64"
  shows "parse_unsigned_short (dec n @ rest) = (if n \<le> 65535 then Some (of_nat n) else None) \<and>
    parse_unsigned_short ''-18446744073709551615'' = Some 1"
proof -
  have "stoull (dec n @ rest) = Some (n, length (dec n))"
    using stoull_prefix [OF dec_digits dec_nonempty _ assms(1), of n] assms(2) by simp
  moreover have "stoull ''-18446744073709551615'' = Some (1, 21)"
    by (simp add: stoull_def sign_split_def is_space_def is_digit_def digits_val_def digit_val_def)
  ultimately show ?thesis by (simp add: parse_unsigned_short_def)
qed

theorem port_accepts_trailing_text_witness:
  "parse_unsigned_short (dec 8080 @ ''abc'') = Some 8080"
  using port_accepts_trailing_text [of "''abc''" 8080] by (simp add: is_digit_def)

end
