(* ===== verification/Ws_Handshake.thy ===== *)
theory Ws_Handshake
  imports Http_Exchange Ws_Duplex
begin

text \<open>
  The WebSocket handshake between the client and a session of the server, over sockets that deliver
  segments: the client's request as the server's parser sees it, and the server's 101 response as
  the client's line reader sees it.
\<close>

section \<open>Lines over segments\<close>

text \<open>\<^verbatim>\<open>asio::read_until\<close> with the end of a line as its delimiter.\<close>

fun line_until :: "string list line_read" where
  "line_until [] buf = (if has_substring crlf buf then Inr (buf, []) else Inl NetEof)"
| "line_until (c # cs) buf = (if has_substring crlf buf then Inr (buf, c # cs) else line_until cs (buf @ c))"

lemma line_until_buffered: "line_until cs (xs @ crlf @ ys) = Inr (xs @ crlf @ ys, cs)"
  using has_substring_infix [of crlf xs ys] by (cases cs) simp_all

definition lines :: "string list \<Rightarrow> string" where
  "lines ls = concat (map (\<lambda>l. l @ crlf) ls)"

lemma read_http_headers_lines:
  assumes "list_all (\<lambda>l. newline \<notin> set l \<and> l \<noteq> []) ls" "length ls < fuel"
  shows "read_http_headers line_until fuel cs (lines ls @ crlf @ rest) out = Some (Inr (out @ lines ls, cs))"
  using assms
proof (induction ls arbitrary: fuel out)
  case Nil
  then obtain k where k: "fuel = Suc k" by (cases fuel) auto
  show ?case
    using line_until_buffered [of cs "[]" rest] getline_crlf [of "[]" rest] by (simp add: k lines_def)
next
  case (Cons l ls)
  then obtain k where k: "fuel = Suc k" by (cases fuel) auto
  have l: "newline \<notin> set l" "l \<noteq> []" using Cons.prems by simp_all
  have b: "lines (l # ls) @ crlf @ rest = l @ crlf @ lines ls @ crlf @ rest" by (simp add: lines_def)
  have "read_http_headers line_until fuel cs (lines (l # ls) @ crlf @ rest) out =
      read_http_headers line_until k cs (lines ls @ crlf @ rest) (out @ l @ crlf)"
    using l(2) unfolding k b
    by (simp add: line_until_buffered getline_crlf [OF l(1)] append_eq_Cons_conv) (simp add: crlf_def)
  with Cons.IH [of k "out @ l @ crlf"] Cons.prems k show ?case by (simp add: lines_def)
qed

lemma read_http_headers_segment:
  assumes "list_all (\<lambda>l. newline \<notin> set l \<and> l \<noteq> []) ls" "length ls < fuel"
  shows "read_http_headers line_until fuel [lines ls @ crlf @ rest] [] [] = Some (Inr (lines ls, []))"
proof -
  obtain k where k: "fuel = Suc k" using assms(2) by (cases fuel) auto
  have "line_until [lines ls @ crlf @ rest] [] = line_until [] (lines ls @ crlf @ rest)"
    by (simp add: crlf_def)
  then have "read_http_headers line_until fuel [lines ls @ crlf @ rest] [] [] =
      read_http_headers line_until fuel [] (lines ls @ crlf @ rest) []"
    by (simp only: k read_http_headers.simps)
  with read_http_headers_lines [OF assms] show ?thesis by simp
qed

section \<open>The client's key\<close>

lemma client_key:
  assumes "r \<noteq> []"
  shows "no_space (generate_key r)" "generate_key r \<noteq> []"
proof -
  obtain a t where "take 16 r = a # t" using assms by (cases r) auto
  moreover have "b64_spec (a # t) \<noteq> []" by (cases t rule: b64_spec.cases) auto
  moreover have "\<not> is_space (unpad c)" if "c \<in> set (b64_spec s)" for c s
    using b64_no_space [of s] that by (auto simp: unpad_def list_all_iff is_space_def)
  ultimately show "no_space (generate_key r)" "generate_key r \<noteq> []"
    by (auto simp: generate_key_def client_base64_encode_def client_b64_eq list_all_iff)
qed

section \<open>The request\<close>

definition upgrade_as_request :: "string \<Rightarrow> string \<Rightarrow> string \<Rightarrow> request" where
  "upgrade_as_request host path key = empty_request\<lparr>rq_method := GET, rq_target := path, rq_version := ''HTTP/1.1'',
     rq_headers := [(''Host'', host), (''Upgrade'', ''websocket''), (''Connection'', ''Upgrade''),
       (''Sec-WebSocket-Key'', key), (''Sec-WebSocket-Version'', ''13'')]\<rparr>"

lemma upgrade_request_eq: "upgrade_request host path key = rq_to_string id (upgrade_as_request host path key)"
  by (simp add: upgrade_request_def rq_to_string_def upgrade_as_request_def empty_request_def header_line_def
      method_str_def body_length_line_def)

lemma upgrade_plain:
  assumes "no_space path" "path \<noteq> []" "plain_value host" "no_space key"
  shows "plain_request (upgrade_as_request host path key)" "framed (upgrade_as_request host path key)"
proof -
  have t: "trim n = n" if "n \<in> {''Host'', ''Upgrade'', ''Connection'', ''Sec-WebSocket-Key'', ''Sec-WebSocket-Version'', ''websocket'', ''13''}" for n
    using that by (intro trim_no_space) (auto simp: is_space_def)
  have "plain_header (''Sec-WebSocket-Key'', key)"
    using assms(4) no_space_chars(1) [OF assms(4)] t by (simp add: plain_header_def newline_def)
  moreover have "hdr_ok (rq_headers (upgrade_as_request host path key))"
    by (simp add: upgrade_as_request_def hdr_ok_def to_lower_def)
  ultimately show "plain_request (upgrade_as_request host path key)"
    using assms t by (simp add: plain_request_def upgrade_as_request_def plain_header_def plain_value_def newline_def)
      (simp add: is_space_def)
  show "framed (upgrade_as_request host path key)"
    by (simp add: framed_def upgrade_as_request_def empty_request_def hdr_contains_def ci_equal_def)
qed

lemma upgrade_headers:
  assumes "key \<noteq> []"
  shows "is_ws_upgrade (upgrade_as_request host path key)"
    "rq_header (upgrade_as_request host path key) ''Sec-WebSocket-Key'' = key"
  by (simp_all add: is_ws_upgrade_def hdr_contains_def upgrade_as_request_def rq_header_def header_value_def ci_equal_def)

section \<open>The response\<close>

lemma response_lines:
  "response_bytes iter resp = lines (status_line resp # map (\<lambda>e. fst e @ '': '' @ snd e) (iter (response_fields resp))) @
     crlf @ rs_body resp"
proof -
  have "header_line = (\<lambda>e. (fst e @ '': '' @ snd e) @ crlf)" by (simp add: header_line_def fun_eq_iff)
  then show ?thesis by (simp add: response_bytes_eq lines_def comp_def)
qed

lemma handshake_response_plain:
  assumes "no_space a"
  shows "plain_response (set_header ''Sec-Websocket-Accept'' a
    (set_header ''Connection'' ''Upgrade'' (set_header ''Upgrade'' ''websocket'' (default_response\<lparr>rs_status := SwitchingProtocol_101\<rparr>))))"
  using assms no_space_chars(1) [OF assms]
  by (intro plain_set_header) (auto intro!: trim_no_space simp: plain_header_def is_space_def newline_def
      plain_response_def default_response_def)

section \<open>The session\<close>

text \<open>The session reads the client's request and sees an upgrade.\<close>

lemma upgrade_session:
  assumes "tcp_env E" "no_space path" "path \<noteq> []" "plain_value host" "no_space key" "key \<noteq> []"
    "inbox s = [upgrade_request host path key]"
  shows "\<exists>q. process_session E r client_id (Suc fuel) s = Some (handle_upgrade E r client_id q (s\<lparr>inbox := []\<rparr>)) \<and>
    rq_path q = fst (split_target path) \<and> rq_header q ''Sec-WebSocket-Key'' = key"
proof -
  let ?q = "upgrade_as_request host path key"
  have o: "any_order id (rq_headers ?q)" by (simp add: any_order_def)
  note p = upgrade_plain [OF assms(2-5)]
  have b: "length (rq_body ?q) \<le> e_alloc_max E" by (simp add: upgrade_as_request_def empty_request_def)
  have "do_read (e_until E) (e_read E) (e_alloc_max E) s = Inr (received_request id ?q, s\<lparr>inbox := []\<rparr>)"
    using tcp_read_segment [OF p(1) o p(2) b, of s "[]" "[]"] assms(1,7) by (simp add: tcp_env_def upgrade_request_eq)
  moreover have "rq_path (received_request id ?q) = fst (split_target path)"
    using arg_cong [OF parse_head_fields(4) [OF p(1) o, of "[]"], of fst]
    by (simp add: received_request_def parsed_head_def upgrade_as_request_def)
  ultimately show ?thesis
    using upgrade_headers [OF assms(6), of host path] received_upgrade [OF p(1) o]
    by (intro exI [of _ "received_request id ?q"]) simp
qed

lemma server_upgrade:
  assumes "tcp_env E" "no_space path" "path \<noteq> []" "plain_value host" "no_space key" "key \<noteq> []"
    "find_ws (fst (split_target path)) r = Some hs" "peer_up s" "inbox s = [upgrade_request host path key]"
  shows "process_session E r client_id (Suc fuel) s =
    Some (Upgraded (set_server_cleanup (new_websocket (Some hs) client_id)),
      s\<lparr>inbox := [], outbox := outbox s @
          response_bytes (e_iter E) (build_101_response (ws_accept_key (e_sha1 E) key))\<rparr>)"
proof -
  obtain q where q: "process_session E r client_id (Suc fuel) s = Some (handle_upgrade E r client_id q (s\<lparr>inbox := []\<rparr>))"
    "rq_path q = fst (split_target path)" "rq_header q ''Sec-WebSocket-Key'' = key"
    using upgrade_session [OF assms(1-6,9)] by blast
  have "sendfile_path (build_101_response a) = []" for a
    by (simp add: build_101_response_def default_response_def Let_def)
  then show ?thesis
    unfolding q(1) using assms(1,6-8) by (simp add: q(2,3) handle_upgrade_def process_session_ws_def do_write_response_def
        write_regular_response_eq tcp_env_def tcp_write_def Let_def)
qed

text \<open>Without a route the request is refused, with the serialisation of a not-found response.\<close>

lemma server_refuses:
  assumes "tcp_env E" "no_space path" "path \<noteq> []" "plain_value host" "no_space key" "key \<noteq> []"
    "find_ws (fst (split_target path)) r = None" "peer_up s" "inbox s = [upgrade_request host path key]"
  shows "process_session E r client_id (Suc fuel) s = Some (Refused,
      s\<lparr>inbox := [], outbox := outbox s @ rs_to_string (e_iter E) (not_found ''No such route for ws!'')\<rparr>)"
proof -
  obtain q where q: "process_session E r client_id (Suc fuel) s = Some (handle_upgrade E r client_id q (s\<lparr>inbox := []\<rparr>))"
    "rq_path q = fst (split_target path)"
    using upgrade_session [OF assms(1-6,9)] by blast
  show ?thesis
    unfolding q(1) using q(2) assms(1,7,8) by (simp add: handle_upgrade_def refuse_def tcp_env_def tcp_write_def)
qed

lemma client_accepts:
  assumes "plain_response resp" "any_order iter (response_fields resp)" "rs_status resp = SwitchingProtocol_101"
    "Suc (length (response_fields resp)) < fuel"
  shows "connect line_until fuel host path random [response_bytes iter resp] c =
    Some (Inr (c\<lparr>c_key := generate_key random,
      c_sent := c_sent c @ str_bytes (upgrade_request host path (generate_key random))\<rparr>, []))"
proof -
  let ?ls = "status_line resp # map (\<lambda>e. fst e @ '': '' @ snd e) (iter (response_fields resp))"
  have "list_all plain_header (iter (response_fields resp))" using plain_fields [OF assms(1,2)] .
  then have "list_all (\<lambda>l. newline \<notin> set l \<and> l \<noteq> []) ?ls"
    using newline_status_line [OF assms(1)] by (auto simp: list_all_iff plain_header_def newline_def)
  moreover have "length ?ls < fuel"
    using assms(2,4) by (simp add: any_order_def size_mset [symmetric] del: size_mset)
  ultimately have h: "read_http_headers line_until fuel [response_bytes iter resp] [] [] = Some (Inr (lines ?ls, []))"
    unfolding response_lines by (rule read_http_headers_segment)
  have "dec_int SwitchingProtocol_101 = ''101''"
    by (simp add: dec_int_def status_codes dec.simps digit_char_def char_of_def bit_0)
  then have "lines ?ls = (rs_version resp @ '' '') @ ''101'' @
      ('' '' @ reason_phrase (rs_status resp) @ crlf @ lines (tl ?ls))"
    by (simp add: lines_def status_line_def assms(3))
  then have "has_substring ''101'' (lines ?ls)" by (simp only: has_substring_infix)
  with h show ?thesis by (simp add: connect_def check_handshake_def Let_def)
qed

end
