(* ===== verification/Server_Lifecycle.thy ===== *)
theory Server_Lifecycle
  imports Server_Session Ws_Session
begin

text \<open>
  The server as a whole: accepting clients, the registries of clients and WebSocket connections,
  cancellation, and \<^verbatim>\<open>start\<close> and \<^verbatim>\<open>stop\<close> (\<^verbatim>\<open>include/server.h\<close>, \<^verbatim>\<open>src/server.cpp\<close>).  The
  connections are those of the session theory; \<open>server_step\<close> interleaves everything that happens to
  them.  The invariant is that the registry holds exactly the open connections.
\<close>

section \<open>Accepting\<close>

datatype 'c accept_result = Accepted 'c | Aborted | AcceptError

text \<open>
  \<^verbatim>\<open>do_accept\<close>: an identifier per attempt; only an aborted accept ends the loop, any other error
  hands an unusable socket to a new client.
\<close>

fun do_accept :: "'c accept_result list \<Rightarrow> u64 \<Rightarrow> (u64 \<times> 'c option) list" where
  "do_accept [] client_id = []"
| "do_accept (a # as) client_id =
     (let client_id = client_id + 1 in
      case a of
        Aborted \<Rightarrow> []
      | Accepted c \<Rightarrow> (client_id, Some c) # do_accept as client_id
      | AcceptError \<Rightarrow> (client_id, None) # do_accept as client_id)"

section \<open>State\<close>

text \<open>
  \<open>accepting\<close> says that the accept loop is waiting for a client; \<open>io_stopped\<close> is the state of the
  \<^verbatim>\<open>io_context\<close>: once its workers have run out of work it stays stopped until \<^verbatim>\<open>restart\<close>, which this
  code never calls, and a stopped context runs nothing.  \<open>client_cancel\<close> has an entry per client, with a flag that says whether a connection has installed
  its cancellation handler; \<open>sessions\<close> are the connection objects, \<open>websockets\<close> the identifiers in
  the registry.
\<close>

record 's server =
  working :: bool
  accepting :: bool
  workers :: nat
  io_stopped :: bool
  client_cancel :: "(u64 \<times> bool) list"
  sessions :: "u64 \<rightharpoonup> 's ws_session"
  websockets :: "u64 list"

definition new_server :: "'s server" where
  "new_server = \<lparr>working = False, accepting = False, workers = 0, io_stopped = False, client_cancel = [],
     sessions = Map.empty, websockets = []\<rparr>"

text \<open>The accept loop that \<^verbatim>\<open>start\<close> spawns runs if there is a worker and the context is not stopped.\<close>

definition start :: "nat \<Rightarrow> nat \<Rightarrow> 's server \<Rightarrow> 's server" where
  "start worker_threads hardware_concurrency S =
     (if working S then S
      else let n = min worker_threads hardware_concurrency
           in S\<lparr>working := True, accepting := (0 < n \<and> \<not> io_stopped S), workers := n\<rparr>)"

section \<open>Clients\<close>

definition add_client :: "u64 \<Rightarrow> 's server \<Rightarrow> 's server" where
  "add_client i S = (if map_of (client_cancel S) i \<noteq> None then S
     else S\<lparr>client_cancel := client_cancel S @ [(i, False)]\<rparr>)"

definition get_client_slot :: "u64 \<Rightarrow> 's server \<Rightarrow> bool" where
  "get_client_slot i S = (map_of (client_cancel S) i \<noteq> None)"

definition assign_slot :: "u64 \<Rightarrow> 's server \<Rightarrow> 's server" where
  "assign_slot i S = S\<lparr>client_cancel := map (\<lambda>(j, b). (j, if j = i then True else b)) (client_cancel S)\<rparr>"

definition remove_client :: "u64 \<Rightarrow> 's server \<Rightarrow> 's server" where
  "remove_client i S = S\<lparr>client_cancel := filter (\<lambda>(j, b). j \<noteq> i) (client_cancel S)\<rparr>"

section \<open>Connections\<close>

definition register_websocket :: "u64 \<Rightarrow> 's server \<Rightarrow> 's server" where
  "register_websocket i S = S\<lparr>websockets := (if i \<in> set (websockets S) then websockets S else websockets S @ [i])\<rparr>"

definition remove_websocket :: "u64 \<Rightarrow> 's server \<Rightarrow> 's server" where
  "remove_websocket i S = S\<lparr>websockets := filter (\<lambda>j. j \<noteq> i) (websockets S)\<rparr>"

text \<open>The second half of \<^verbatim>\<open>process_session_ws\<close>, up to the first suspension of the connection.\<close>

definition open_websocket :: "u64 \<Rightarrow> ws_handlers \<Rightarrow> 's \<Rightarrow> 's server \<Rightarrow> 's server" where
  "open_websocket i hs s S =
     (let S = register_websocket i (S\<lparr>sessions := (sessions S)(i \<mapsto> session_init hs i s)\<rparr>)
      in if get_client_slot i S then assign_slot i S else S)"

text \<open>
  A connection moves from \<open>X\<close> to \<open>Y\<close>: the object is replaced and the cleanup function the server
  installed runs for every release the connection reports.
\<close>

fun run_cleanup :: "ws_event \<Rightarrow> 's server \<Rightarrow> 's server" where
  "run_cleanup (EvCleanup i) S = remove_websocket i S"
| "run_cleanup _ S = S"

definition move :: "u64 \<Rightarrow> 's ws_session \<Rightarrow> 's ws_session \<Rightarrow> 's server \<Rightarrow> 's server" where
  "move i X Y S = fold run_cleanup (drop (length (events (conn X))) (events (conn Y)))
     (S\<lparr>sessions := (sessions S)(i \<mapsto> Y)\<rparr>)"

definition on_session :: "u64 \<Rightarrow> (websocket \<Rightarrow> websocket) \<Rightarrow> 's server \<Rightarrow> 's server" where
  "on_session i f S = (case sessions S i of
       None \<Rightarrow> S
     | Some X \<Rightarrow> move i X (X\<lparr>conn := f (conn X)\<rparr>) S)"

section \<open>Cancellation and shutdown\<close>

definition emit_client :: "u64 \<Rightarrow> 's server \<Rightarrow> 's server" where
  "emit_client i S = (case map_of (client_cancel S) i of
       Some True \<Rightarrow> on_session i (close_async 1001 (str_bytes ''Cancelled by server'')) S
     | _ \<Rightarrow> S)"

definition emit_all :: "'s server \<Rightarrow> 's server" where
  "emit_all S = fold emit_client (map fst (client_cancel S)) S"

definition close_websocket :: "u64 \<Rightarrow> 's server \<Rightarrow> 's server" where
  "close_websocket i S = on_session i (close 1001 (str_bytes ''Server stopped working'')) S"

definition close_websockets :: "'s server \<Rightarrow> 's server" where
  "close_websockets S = fold close_websocket (websockets S) S"

definition stop :: "'s server \<Rightarrow> 's server" where
  "stop S =
     (let S = S\<lparr>accepting := False\<rparr>; S = emit_all S; S = close_websockets S
      in S\<lparr>working := False, workers := 0, io_stopped := (io_stopped S \<or> 0 < workers S)\<rparr>)"

text \<open>\<^verbatim>\<open>post_task\<close> puts a function into the queue of the context, whose workers run it later.\<close>

definition post_task :: "'t \<Rightarrow> 't list \<Rightarrow> 't list" where
  "post_task task queue = queue @ [task]"

section \<open>Everything that happens\<close>

text \<open>
  An identifier is used again only when its connection is closed: the accept loop counts from one each
  time it is spawned.
\<close>

definition idle_id :: "u64 \<Rightarrow> 's server \<Rightarrow> bool" where
  "idle_id i S = (case sessions S i of None \<Rightarrow> True | Some X \<Rightarrow> \<not> is_open (conn X))"

inductive server_step :: "'s socket_read \<Rightarrow> nat \<Rightarrow> 's server \<Rightarrow> 's server \<Rightarrow> bool" for rd alloc_max where
  client_arrives: "server_step rd alloc_max S (add_client i S)"
| upgrade: "idle_id i S \<Longrightarrow> server_step rd alloc_max S (open_websocket i hs s S)"
| moves: "sessions S i = Some X \<Longrightarrow> session_step rd alloc_max X Y \<Longrightarrow>
    server_step rd alloc_max S (move i X Y S)"
| client_leaves: "server_step rd alloc_max S (remove_client i S)"
| starts: "server_step rd alloc_max S (start n h S)"
| stops: "server_step rd alloc_max S (stop S)"

inductive server_reach :: "'s socket_read \<Rightarrow> nat \<Rightarrow> 's server \<Rightarrow> bool" for rd alloc_max where
  initially: "server_reach rd alloc_max new_server"
| further: "server_reach rd alloc_max S \<Longrightarrow> server_step rd alloc_max S T \<Longrightarrow> server_reach rd alloc_max T"

inductive_cases server_stepE: "server_step rd alloc_max S T"

text \<open>
  One client, from \<^verbatim>\<open>handle_client\<close>: it enters the table of clients, its session runs, and it leaves
  the table when the session is over.  An upgraded session goes on as a connection; the client stays.
  \<open>tls\<close> is \<^const>\<open>None\<close> for a server whose \<^verbatim>\<open>use_ssl_\<close> is false, and otherwise what its sockets do: the
  handshake, which may throw, and the session's environment over the encrypted stream.
\<close>

record 's tls_layer =
  tls_handshake :: "'s \<Rightarrow> net_error + 's"
  tls_env :: "'s server_env"

datatype client_end = HandshakeThrew net_error | SessionOver session_end

definition run_client ::
    "'s server_env \<Rightarrow> router \<Rightarrow> nat \<Rightarrow> u64 \<Rightarrow> 's \<Rightarrow> 's server \<Rightarrow> (client_end \<times> 's server) option" where
  "run_client E r fuel client_id s S =
     (case process_session E r client_id fuel s of
        None \<Rightarrow> None
      | Some (e, s) \<Rightarrow>
          (case e of
             Upgraded w \<Rightarrow> Some (SessionOver e, open_websocket client_id (handlers w) s S)
           | _ \<Rightarrow> Some (SessionOver e, remove_client client_id S)))"

definition handle_client :: "'s tls_layer option \<Rightarrow> 's server_env \<Rightarrow> router \<Rightarrow> nat \<Rightarrow> u64 \<Rightarrow> 's \<Rightarrow>
    's server \<Rightarrow> (client_end \<times> 's server) option" where
  "handle_client tls E r fuel client_id s S =
     (let S = add_client client_id S
      in case tls of
           None \<Rightarrow> run_client E r fuel client_id s S
         | Some T \<Rightarrow>
             (case tls_handshake T s of
                Inl e \<Rightarrow> Some (HandshakeThrew e, remove_client client_id S)
              | Inr s \<Rightarrow> run_client (tls_env T) r fuel client_id s S))"

lemma idle_add_client [simp]: "idle_id i (add_client j S) = idle_id i S"
  by (simp add: idle_id_def add_client_def)

text \<open>Behind a completed handshake the session is the one a plain socket would get.\<close>

lemma handle_client_tls:
  "tls_handshake T s = Inr s' \<Longrightarrow>
   handle_client (Some T) E r fuel i s S = handle_client None (tls_env T) r fuel i s' S"
  by (simp add: handle_client_def)

text \<open>A client that does not upgrade leaves no trace, whether its handshake or its session failed or not.\<close>

lemma remove_add_client:
  assumes "\<not> get_client_slot i S"
  shows "remove_client i (add_client i S) = S"
proof -
  have "i \<notin> fst ` set (client_cancel S)" using assms by (simp add: get_client_slot_def map_of_eq_None_iff)
  then have "filter (\<lambda>(j, b). j \<noteq> i) (client_cancel S) = client_cancel S"
    by (force simp: filter_id_conv)
  then show ?thesis using assms by (simp add: remove_client_def add_client_def get_client_slot_def)
qed

lemma handle_client_leaves:
  assumes "handle_client tls E r fuel i s S = Some (e, T)" "\<not> get_client_slot i S"
    "\<forall>w. e \<noteq> SessionOver (Upgraded w)"
  shows "T = S"
  using assms(1,3) remove_add_client [OF assms(2)]
  by (auto simp: handle_client_def run_client_def Let_def split: option.splits session_end.splits sum.splits)

text \<open>A client that runs alone is a run of the steps above.\<close>

lemma handle_client_reach:
  assumes "handle_client tls E r fuel i s S = Some (e, T)" "server_reach rd alloc_max S" "idle_id i S"
  shows "server_reach rd alloc_max T"
proof -
  have a: "server_reach rd alloc_max (add_client i S)"
    using assms(2) server_step.client_arrives by (rule server_reach.further)
  have id: "idle_id i (add_client i S)" using assms(3) by simp
  have "server_reach rd alloc_max (open_websocket i hs s' (add_client i S))" for hs s'
    by (rule server_reach.further [OF a server_step.upgrade [OF id]])
  moreover have "server_reach rd alloc_max (remove_client i (add_client i S))"
    by (rule server_reach.further [OF a server_step.client_leaves])
  ultimately show ?thesis using assms(1)
    by (auto simp: handle_client_def run_client_def Let_def split: option.splits session_end.splits sum.splits)
qed

text \<open>A connection is opened in the registry, with its cancellation handler if the client has a slot.\<close>

lemma open_websocket_opens:
  assumes "i \<notin> set (websockets S)" "map_of (client_cancel S) i = Some b"
  shows "websockets (open_websocket i hs s S) = websockets S @ [i]"
    and "map_of (client_cancel (open_websocket i hs s S)) i = Some True"
    and "\<exists>X. sessions (open_websocket i hs s S) i = Some X \<and> is_open (conn X) \<and> handlers (conn X) = hs"
proof -
  have "map_of (map (\<lambda>(j, b). (j, if j = i then True else b)) cs) i = map_option (\<lambda>b. True) (map_of cs i)" for cs
    by (induction cs) auto
  then show "map_of (client_cancel (open_websocket i hs s S)) i = Some True"
    using assms(2) by (simp add: open_websocket_def Let_def register_websocket_def get_client_slot_def assign_slot_def)
qed (use assms in \<open>simp_all add: open_websocket_def Let_def register_websocket_def get_client_slot_def assign_slot_def
    session_init_def fire_open_eq is_open_def set_server_cleanup_def new_websocket_def\<close>)

section \<open>What a connection reports\<close>

text \<open>Events are only added, releases are the connection's own, and its identity stays.\<close>

definition grows :: "websocket \<Rightarrow> websocket \<Rightarrow> bool" where
  "grows w v \<longleftrightarrow> ws_id v = ws_id w \<and> server_cleanup v = server_cleanup w \<and>
     (\<exists>new. events v = events w @ new \<and> (\<forall>k. EvCleanup k \<in> set new \<longrightarrow> k = ws_id w))"

lemma grows_refl [simp]: "grows w w"
  by (simp add: grows_def)

lemma grows_trans:
  assumes "grows u v" "grows v w"
  shows "grows u w"
proof -
  obtain a b where "events v = events u @ a" "events w = events v @ b"
    "\<forall>k. EvCleanup k \<in> set a \<longrightarrow> k = ws_id u" "\<forall>k. EvCleanup k \<in> set b \<longrightarrow> k = ws_id v"
    using assms by (auto simp: grows_def)
  with assms show ?thesis by (auto simp: grows_def intro!: exI [of _ "a @ b"])
qed

lemma grows_same:
  "ws_id v = ws_id w \<Longrightarrow> server_cleanup v = server_cleanup w \<Longrightarrow> events v = events w \<Longrightarrow> grows w v"
  by (simp add: grows_def)

lemma grows_do_write [simp]: "grows w (snd (do_write bs w))"
  by (rule grows_same) simp_all

lemma grows_fire [simp]: "grows w (fire_close c r w)" "grows w (fire_message m w)"
  by (simp_all add: grows_def fire_eqs close_events_def message_events_def)

lemma grows_close [simp]: "grows w (close c r w)"
  by (cases "is_open w") (auto simp: grows_def close_open close_closed close_events_def)

lemma grows_and_then: "grows u (snd r) \<Longrightarrow> (\<And>w. grows w (snd (f w))) \<Longrightarrow> grows u (snd (and_then r f))"
  by (cases r f rule: and_then_cases) (auto intro: grows_trans)

lemma grows_send_close [simp]: "grows w (snd (send_close_with_reason c r w))"
  by (simp add: send_close_with_reason_def)

lemma grows_run_task [simp]: "grows w (snd (run_task t w))"
  by (cases t) (auto simp: send_text_def send_binary_def intro: grows_and_then)

lemma grows_protocol_error: "grows w (snd (protocol_error r w))"
  by (auto simp: protocol_error_def intro: grows_and_then)

lemma grows_close_frame: "grows w (snd (handle_close_frame p w))"
  by (auto simp: handle_close_frame_def split: prod.splits intro: grows_and_then)

lemma grows_too_big:
  assumes "too_big fb w = (r, fb', v)"
  shows "grows w v"
proof -
  obtain q u where u: "send_close_with_reason 1009 (str_bytes ''Message too big'') w = (q, u)" by fastforce
  then have "grows w u" using grows_send_close [of w 1009 "str_bytes ''Message too big''"] by simp
  with assms u show ?thesis by (cases q) (auto simp: too_big_def intro: grows_trans)
qed

lemma grows_append: "append_and_deliver f fb w = (r, fb', v) \<Longrightarrow> grows w v"
  by (auto simp: append_and_deliver_def dest: grows_too_big split: prod.splits bool.splits if_splits)

lemma grows_frame:
  assumes "handle_parsed_frame f fb w = (r, fb', v)"
  shows "grows w v"
proof -
  have pe: "protocol_error s w = (q, u) \<Longrightarrow> grows w u" for s q u
    using grows_protocol_error [of w s] by simp
  show ?thesis
    using assms grows_protocol_error [of w] grows_close_frame [of w "payload_data f"]
    by (auto simp: handle_parsed_frame_def with_body_def handle_ping_frame_def send_pong_def
        dest!: pe grows_append intro: grows_trans split: if_splits prod.splits outcome.splits)
qed

lemma grows_step: "session_step rd alloc_max X Y \<Longrightarrow> grows (conn X) (conn Y)"
proof (induction rule: session_step.induct)
  case (task S t ts)
  have "grows ((conn S)\<lparr>strand := ts\<rparr>) (snd (run_task t ((conn S)\<lparr>strand := ts\<rparr>)))" by simp
  then show ?case by (simp add: grows_def)
qed (auto simp: run_call_eq intro: grows_frame grows_same)

section \<open>The registry is exact\<close>

definition server_ok :: "'s server \<Rightarrow> bool" where
  "server_ok S \<longleftrightarrow>
     (\<forall>i X. sessions S i = Some X \<longrightarrow> session_ok X \<and> ws_id (conn X) = i \<and> server_cleanup (conn X)) \<and>
     (\<forall>i. i \<in> set (websockets S) \<longleftrightarrow> (\<exists>X. sessions S i = Some X \<and> is_open (conn X)))"

lemma server_ok_new: "server_ok new_server"
  by (simp add: server_ok_def new_server_def)

lemma fold_run_cleanup:
  "fold run_cleanup evs S = S\<lparr>websockets := filter (\<lambda>j. EvCleanup j \<notin> set evs) (websockets S)\<rparr>"
proof (induction evs arbitrary: S)
  case (Cons e evs)
  then show ?case by (cases e) (auto simp: remove_websocket_def intro!: filter_cong)
qed simp

lemma move_eq:
  "sessions (move i X Y S) = (sessions S)(i \<mapsto> Y)"
  "websockets (move i X Y S) =
     filter (\<lambda>j. EvCleanup j \<notin> set (drop (length (events (conn X))) (events (conn Y)))) (websockets S)"
  "client_cancel (move i X Y S) = client_cancel S"
  by (simp_all add: move_def fold_run_cleanup)

text \<open>A connection reports its release exactly when it closes.\<close>

lemma release_reported:
  assumes "conn_ok w" "conn_ok v" "grows w v" "server_cleanup w" "ws_id w = i"
  shows "EvCleanup i \<in> set (drop (length (events w)) (events v)) \<longleftrightarrow> is_open w \<and> \<not> is_open v"
    and "is_open v \<Longrightarrow> is_open w"
proof -
  obtain new where new: "events v = events w @ new" "\<forall>k. EvCleanup k \<in> set new \<longrightarrow> k = i"
    and c: "server_cleanup v"
    using assms(3-5) by (auto simp: grows_def)
  have n: "cleanups v = cleanups w + length (filter is_cleanup new)"
    by (simp add: cleanups_def new(1))
  have e: "EvCleanup i \<in> set new \<longleftrightarrow> filter is_cleanup new \<noteq> []"
  proof
    assume "filter is_cleanup new \<noteq> []"
    then obtain x where x: "x \<in> set new" "is_cleanup x" by (auto simp: filter_empty_conv)
    obtain k where "x = EvCleanup k" using x(2) by (cases x) auto
    with x(1) show "EvCleanup i \<in> set new" using new(2) by blast
  qed (auto simp: filter_empty_conv intro!: bexI [of _ "EvCleanup i"])
  have o: "is_open w \<longleftrightarrow> cleanups w = 0" "is_open v \<longleftrightarrow> cleanups v = 0" "cleanups w \<le> 1" "cleanups v \<le> 1"
    using assms(1,2,4) c by (auto simp: conn_ok_def is_open_def)
  show "EvCleanup i \<in> set (drop (length (events w)) (events v)) \<longleftrightarrow> is_open w \<and> \<not> is_open v"
    using o n e by (cases "filter is_cleanup new") (auto simp: new(1))
  show "is_open v \<Longrightarrow> is_open w" using o n by simp
qed

lemma server_ok_move:
  assumes "server_ok S" "sessions S i = Some X" "session_ok Y" "grows (conn X) (conn Y)"
  shows "server_ok (move i X Y S)"
proof -
  have X: "session_ok X" "ws_id (conn X) = i" "server_cleanup (conn X)"
    using assms(1,2) by (simp_all add: server_ok_def)
  have c: "conn_ok (conn X)" "conn_ok (conn Y)" using X(1) assms(3) by (simp_all add: session_ok_def)
  note r = release_reported [OF c assms(4) X(3,2)]
  have other: "EvCleanup j \<notin> set (drop (length (events (conn X))) (events (conn Y)))" if "j \<noteq> i" for j
    using assms(4) X(2) that by (auto simp: grows_def)
  have "i \<in> set (websockets S) \<longleftrightarrow> is_open (conn X)"
    using assms(1,2) by (simp add: server_ok_def)
  then have "j \<in> set (websockets (move i X Y S)) \<longleftrightarrow>
      (\<exists>Z. sessions (move i X Y S) j = Some Z \<and> is_open (conn Z))" for j
    using r other assms(1) by (cases "j = i") (auto simp: move_eq server_ok_def)
  moreover have "ws_id (conn Y) = i" "server_cleanup (conn Y)"
    using assms(4) X by (simp_all add: grows_def)
  ultimately show ?thesis
    using assms(1,3) by (auto simp: server_ok_def move_eq)
qed

lemma server_ok_on_session:
  assumes "server_ok S" "\<And>w. conn_ok w \<Longrightarrow> conn_ok (f w)" "\<And>w. grows w (f w)"
  shows "server_ok (on_session i f S)"
proof (cases "sessions S i")
  case None
  with assms(1) show ?thesis by (simp add: on_session_def)
next
  case (Some X)
  then have "session_ok X" using assms(1) by (simp add: server_ok_def)
  then have "session_ok (X\<lparr>conn := f (conn X)\<rparr>)" using assms(2) by (simp add: session_ok_def)
  from server_ok_move [OF assms(1) Some this] assms(3) show ?thesis by (simp add: on_session_def Some)
qed

lemma server_ok_close: "server_ok S \<Longrightarrow> server_ok (close_websocket i S)"
  unfolding close_websocket_def by (intro server_ok_on_session conn_ok_close grows_close)

lemma server_ok_emit: "server_ok S \<Longrightarrow> server_ok (emit_client i S)"
proof -
  assume S: "server_ok S"
  have "server_ok (on_session i (close_async c r) S)" for c r
    by (rule server_ok_on_session [OF S]) (simp_all add: close_async_def grows_same)
  with S show ?thesis by (simp add: emit_client_def split: option.splits bool.splits)
qed

lemma server_ok_folds:
  "server_ok S \<Longrightarrow> server_ok (fold emit_client is S)" "server_ok S \<Longrightarrow> server_ok (fold close_websocket is S)"
  by (induction "is" arbitrary: S) (simp_all add: server_ok_emit server_ok_close)

text \<open>Fields the invariant does not look at.\<close>

lemma server_ok_fields [simp]:
  "server_ok (S\<lparr>accepting := a\<rparr>) = server_ok S" "server_ok (S\<lparr>working := b\<rparr>) = server_ok S"
  "server_ok (S\<lparr>workers := n\<rparr>) = server_ok S" "server_ok (S\<lparr>io_stopped := b\<rparr>) = server_ok S"
  "server_ok (S\<lparr>client_cancel := c\<rparr>) = server_ok S"
  by (simp_all add: server_ok_def)

lemma server_ok_stop: "server_ok S \<Longrightarrow> server_ok (stop S)"
  by (simp add: stop_def Let_def emit_all_def close_websockets_def server_ok_folds)

lemma server_ok_open:
  assumes "server_ok S" "idle_id i S"
  shows "server_ok (open_websocket i hs s S)"
proof -
  have "is_open (conn (session_init hs i s))" "ws_id (conn (session_init hs i s)) = i"
    "server_cleanup (conn (session_init hs i s))"
    by (simp_all add: session_init_def fire_open_eq is_open_def set_server_cleanup_def new_websocket_def)
  moreover have "i \<notin> set (websockets S)" using assms by (auto simp: server_ok_def idle_id_def)
  ultimately have "server_ok (register_websocket i (S\<lparr>sessions := (sessions S)(i \<mapsto> session_init hs i s)\<rparr>))"
    using assms(1) session_ok_init by (auto simp: server_ok_def register_websocket_def)
  then show ?thesis by (simp add: open_websocket_def Let_def assign_slot_def)
qed

context byte_stream
begin

lemma server_step_ok:
  assumes "server_step rd alloc_max S T" "server_ok S" "alloc_max + maxMsg < 2 ^ 64"
  shows "server_ok T"
  using assms(1)
proof cases
  case (moves i X Y)
  have "session_ok X" using moves(2) assms(2) by (simp add: server_ok_def)
  from server_ok_move [OF assms(2) moves(2) session_step_ok [OF moves(3) this assms(3)] grows_step [OF moves(3)]]
  show ?thesis by (simp add: moves(1))
qed (use assms(2) in \<open>simp_all add: add_client_def remove_client_def start_def Let_def server_ok_open server_ok_stop\<close>)

lemma server_reach_ok:
  "server_reach rd alloc_max S \<Longrightarrow> alloc_max + maxMsg < 2 ^ 64 \<Longrightarrow> server_ok S"
  by (induction rule: server_reach.induct) (auto simp: server_ok_new dest: server_step_ok)

end

section \<open>Stopping\<close>

lemma close_not_open: "\<not> is_open (close c r w)"
  by (cases "is_open w") (simp_all add: close_open close_closed is_open_def)

lemma close_websocket_registry:
  assumes "server_ok S"
  shows "set (websockets (close_websocket i S)) = set (websockets S) - {i}"
proof -
  have ok: "server_ok (close_websocket i S)" using assms by (rule server_ok_close)
  have 1: "sessions (close_websocket i S) j = sessions S j" if "j \<noteq> i" for j
    using that by (simp add: close_websocket_def on_session_def move_eq split: option.splits)
  have 2: "\<not> is_open (conn X)" if "sessions (close_websocket i S) i = Some X" for X
    using that by (auto simp: close_websocket_def on_session_def move_eq close_not_open split: option.splits)
  have r: "j \<in> set (websockets R) \<longleftrightarrow> (\<exists>X. sessions R j = Some X \<and> is_open (conn X))"
    if "server_ok R" for R :: "'a server" and j
    using that by (simp add: server_ok_def)
  have "j \<in> set (websockets (close_websocket i S)) \<longleftrightarrow> j \<in> set (websockets S) \<and> j \<noteq> i" for j
    using 1 [of j] 2 unfolding r [OF ok] r [OF assms] by (cases "j = i") auto
  then show ?thesis by auto
qed

lemma close_all_registry:
  "server_ok S \<Longrightarrow> set (websockets (fold close_websocket is S)) = set (websockets S) - set is"
  by (induction "is" arbitrary: S) (auto simp: close_websocket_registry server_ok_close)

lemma stop_registry: "server_ok S \<Longrightarrow> websockets (stop S) = []"
proof -
  assume "server_ok S"
  then have "server_ok (emit_all (S\<lparr>accepting := False\<rparr>))"
    by (simp add: emit_all_def server_ok_folds)
  from close_all_registry [OF this, of "websockets (emit_all (S\<lparr>accepting := False\<rparr>))"]
  show ?thesis by (simp add: stop_def Let_def close_websockets_def)
qed

lemma on_session_fields [simp]:
  "accepting (on_session i f S) = accepting S" "workers (on_session i f S) = workers S"
  "io_stopped (on_session i f S) = io_stopped S"
  by (simp_all add: on_session_def move_def fold_run_cleanup split: option.splits)

lemma fold_keeps: "(\<And>i S. g (h i S) = g S) \<Longrightarrow> g (fold h is S) = g S"
  by (induction "is" arbitrary: S) simp_all

lemma emit_all_fields [simp]:
  "accepting (emit_all S) = accepting S" "workers (emit_all S) = workers S" "io_stopped (emit_all S) = io_stopped S"
  unfolding emit_all_def
  by (rule fold_keeps; simp add: emit_client_def split: option.splits bool.splits)+

lemma close_websockets_fields [simp]:
  "accepting (close_websockets S) = accepting S" "workers (close_websockets S) = workers S"
  "io_stopped (close_websockets S) = io_stopped S"
  unfolding close_websockets_def by (rule fold_keeps; simp add: close_websocket_def)+

lemma stop_fields:
  "\<not> accepting (stop S)" "\<not> working (stop S)" "workers (stop S) = 0"
  "io_stopped (stop S) = (io_stopped S \<or> 0 < workers S)"
  by (simp_all add: stop_def Let_def)

lemmas stop_accepting = stop_fields(1)

text \<open>A stopped context stays stopped, and nothing accepts on it.\<close>

definition retired :: "'s server \<Rightarrow> bool" where
  "retired S \<longleftrightarrow> io_stopped S \<and> \<not> accepting S"

lemma retired_step:
  assumes "server_step rd alloc_max S T" "retired S"
  shows "retired T"
  using assms(1)
proof cases
  case (upgrade i hs s)
  then show ?thesis using assms(2)
    by (simp add: retired_def open_websocket_def Let_def register_websocket_def assign_slot_def)
qed (use assms(2) in \<open>simp_all add: retired_def add_client_def remove_client_def move_def fold_run_cleanup
    start_def Let_def stop_fields\<close>)

lemma retired_steps: "(server_step rd alloc_max)\<^sup>*\<^sup>* S T \<Longrightarrow> retired S \<Longrightarrow> retired T"
  by (induction rule: rtranclp_induct) (auto intro: retired_step)

text \<open>What becomes of a connection.\<close>

lemma emit_client_sessions:
  "\<exists>ts. sessions (emit_client i S) j = map_option (\<lambda>X. X\<lparr>conn := (conn X)\<lparr>strand := strand (conn X) @ ts\<rparr>\<rparr>) (sessions S j)"
proof -
  have s: "sessions S j = map_option (\<lambda>X. X\<lparr>conn := (conn X)\<lparr>strand := strand (conn X) @ []\<rparr>\<rparr>) (sessions S j)"
    by (cases "sessions S j") simp_all
  show ?thesis
  proof (cases "map_of (client_cancel S) i = Some True \<and> i = j \<and> sessions S i \<noteq> None")
    case True
    then show ?thesis
      by (auto simp: emit_client_def on_session_def move_eq close_async_def)
  next
    case False
    then have "sessions (emit_client i S) j = sessions S j"
      by (auto simp: emit_client_def on_session_def move_eq split: option.splits bool.splits)
    then show ?thesis using s by (intro exI [of _ "[]"]) (simp only:)
  qed
qed

lemma emit_all_sessions:
  "\<exists>ts. sessions (fold emit_client is S) j = map_option (\<lambda>X. X\<lparr>conn := (conn X)\<lparr>strand := strand (conn X) @ ts\<rparr>\<rparr>) (sessions S j)"
proof (induction "is" arbitrary: S)
  case Nil
  then show ?case by (cases "sessions S j") (auto intro: exI [of _ "[]"])
next
  case (Cons i "is")
  obtain ts where t: "sessions (fold emit_client is (emit_client i S)) j =
      map_option (\<lambda>X. X\<lparr>conn := (conn X)\<lparr>strand := strand (conn X) @ ts\<rparr>\<rparr>) (sessions (emit_client i S) j)"
    using Cons.IH [of "emit_client i S"] by blast
  obtain us where u: "sessions (emit_client i S) j =
      map_option (\<lambda>X. X\<lparr>conn := (conn X)\<lparr>strand := strand (conn X) @ us\<rparr>\<rparr>) (sessions S j)"
    using emit_client_sessions by blast
  show ?case using t u by (auto simp: option.map_comp comp_def intro!: exI [of _ "us @ ts"] option.map_cong)
qed

lemma close_twice: "close c r (close c' r' w) = close c' r' w"
  using close_not_open [of c' r' w] by (simp add: close_closed)

lemma close_all_sessions:
  "sessions (fold close_websocket is S) j =
    (if j \<in> set is then map_option (\<lambda>X. X\<lparr>conn := close 1001 (str_bytes ''Server stopped working'') (conn X)\<rparr>) (sessions S j)
     else sessions S j)"
proof (induction "is" arbitrary: S)
  case (Cons i "is")
  have "sessions (close_websocket i S) j =
    (if j = i then map_option (\<lambda>X. X\<lparr>conn := close 1001 (str_bytes ''Server stopped working'') (conn X)\<rparr>) (sessions S j)
     else sessions S j)"
    by (auto simp: close_websocket_def on_session_def move_eq split: option.splits)
  with Cons show ?case by (cases "sessions S j") (auto simp: close_twice)
qed simp

lemma stop_session:
  assumes "server_ok S" "sessions S i = Some X"
  shows "\<exists>Y. sessions (stop S) i = Some Y \<and> \<not> is_open (conn Y) \<and> cleanups (conn Y) = 1 \<and>
    (is_open (conn X) \<longrightarrow> \<not> sock_ok (conn Y)) \<and>
    events (conn Y) = events (conn X) @ (if is_open (conn X)
      then close_events (handlers (conn X)) 1001 (str_bytes ''Server stopped working'') @ [EvCleanup i] else [])"
proof -
  let ?S = "emit_all (S\<lparr>accepting := False\<rparr>)"
  obtain ts where "sessions ?S i = Some (X\<lparr>conn := (conn X)\<lparr>strand := strand (conn X) @ ts\<rparr>\<rparr>)"
    using emit_all_sessions [of "map fst (client_cancel S)" "S\<lparr>accepting := False\<rparr>" i] assms(2)
    by (auto simp: emit_all_def)
  then obtain Z where Z: "sessions ?S i = Some Z" "is_open (conn Z) = is_open (conn X)"
    "events (conn Z) = events (conn X)" "handlers (conn Z) = handlers (conn X)" "ws_id (conn Z) = ws_id (conn X)"
    "server_cleanup (conn Z) = server_cleanup (conn X)"
    by (simp add: is_open_def)
  have ok: "server_ok ?S" "server_ok (stop S)" using assms(1) by (simp_all add: emit_all_def server_ok_folds server_ok_stop)
  have i: "i \<in> set (websockets ?S) \<longleftrightarrow> is_open (conn Z)" using ok(1) Z(1) by (simp add: server_ok_def)
  have x: "ws_id (conn X) = i" "server_cleanup (conn X)" using assms by (simp_all add: server_ok_def)
  obtain Y where Y: "sessions (stop S) i = Some Y"
    "Y = (if is_open (conn Z) then Z\<lparr>conn := close 1001 (str_bytes ''Server stopped working'') (conn Z)\<rparr> else Z)"
    using close_all_sessions [of "websockets ?S" ?S i] Z(1) i by (simp add: stop_def Let_def close_websockets_def)
  have n: "\<not> is_open (conn Y)" using Y(2) close_not_open by simp
  have "session_ok Y" "server_cleanup (conn Y)" using ok(2) Y(1) by (simp_all add: server_ok_def)
  then have "cleanups (conn Y) = 1" using n by (auto simp: session_ok_def conn_ok_def is_open_def)
  moreover have "is_open (conn X) \<longrightarrow> \<not> sock_ok (conn Y)"
    using Y(2) Z(2) close_open [of "conn Z"] by simp
  ultimately show ?thesis using Y n Z x close_open [of "conn Z"] by auto
qed

end
