(* ===== verification/Server_Properties.thy ===== *)
theory Server_Properties
  imports Ws_Handshake Server_Lifecycle Http_Properties
begin

text \<open>
  The properties of the server around its connections: routing, static files, the upgrade to a
  WebSocket, the registry and the shutdown, each with a concrete instance where it has hypotheses.
\<close>

section \<open>Routing\<close>

text \<open>
  C28: Routes and WebSocket routes.  After any sequence of registrations a request finds the first
  handler registered for its method and path, a WebSocket upgrade the last handlers committed for
  its path, and neither kind of registration disturbs the other or the mounts.
\<close>

theorem routing_tables:
  "let r = fold (\<lambda>((m, p), h). add_route m p h) regs r0;
       r' = fold (\<lambda>(p, hs). commit_ws_route p hs) ws r
   in find_route m p r' = (case find_route m p r0 of Some h \<Rightarrow> Some h | None \<Rightarrow> map_of regs (m, p)) \<and>
      find_ws p r' = (case map_of (rev ws) p of Some hs \<Rightarrow> Some hs | None \<Rightarrow> find_ws p r0) \<and>
      static_mounts r' = static_mounts r0"
proof -
  have 1: "find_route m p (fold (\<lambda>((m, p), h). add_route m p h) regs r0) =
      (case find_route m p r0 of Some h \<Rightarrow> Some h | None \<Rightarrow> map_of regs (m, p))" for r0
    by (induction regs arbitrary: r0) (auto simp: find_route_add split: option.splits)
  have 2: "find_ws p (fold (\<lambda>((m, p), h). add_route m p h) regs r0) = find_ws p r0 \<and>
      static_mounts (fold (\<lambda>((m, p), h). add_route m p h) regs r0) = static_mounts r0" for r0
    by (induction regs arbitrary: r0) (auto simp: find_ws_def)
  have 3: "find_ws p (fold (\<lambda>(p, hs). commit_ws_route p hs) ws r) =
      (case map_of (rev ws) p of Some hs \<Rightarrow> Some hs | None \<Rightarrow> find_ws p r) \<and>
      find_route m p (fold (\<lambda>(p, hs). commit_ws_route p hs) ws r) = find_route m p r \<and>
      static_mounts (fold (\<lambda>(p, hs). commit_ws_route p hs) ws r) = static_mounts r" for r
    by (induction ws arbitrary: r) (auto simp: find_ws_commit map_add_def find_route_def split: option.splits)
  show ?thesis by (simp only: Let_def 1 2 3 simp_thms)
qed

text \<open>
  C26: The longest mount serves.  After any sequence of mounts the mount chosen for a path is a
  prefix of it, no longer prefix is mounted, and its root is the one the prefix was first mounted
  with; when none is chosen no mounted prefix fits.
\<close>

theorem longest_mount_serves:
  "let mm = fold (\<lambda>(p, root). mount_emplace (MountKey p) root) regs []
   in (case find_mount path mm of
         None \<Rightarrow> list_all (\<lambda>(p, root). \<not> is_prefix p path) regs
       | Some (p, root) \<Rightarrow> is_prefix p path \<and> map_of regs p = Some root \<and>
           list_all (\<lambda>(q, r). is_prefix q path \<longrightarrow> length q \<le> length p) regs)"
proof -
  let ?add = "\<lambda>(p, root). mount_emplace (MountKey p) root"
  have ok: "mounts_ok mm \<Longrightarrow> mounts_ok (fold ?add regs mm)" for mm
    by (induction regs arbitrary: mm) (auto simp: mounts_ok_emplace)
  have keys: "fst ` set (fold ?add regs mm) = fst ` set mm \<union> (MountKey \<circ> fst) ` set regs" for mm
  proof (induction regs arbitrary: mm)
    case (Cons x regs)
    obtain p root where x: "x = (p, root)" by (cases x)
    have "fst ` set (fold ?add (x # regs) mm) =
        fst ` set (mount_emplace (MountKey p) root mm) \<union> (MountKey \<circ> fst) ` set regs"
      using Cons.IH [of "mount_emplace (MountKey p) root mm"] by (simp only: fold_simps x prod.case)
    then show ?case by (simp only: mount_emplace_keys) (simp add: x comp_def)
  qed simp
  have first: "mounts_ok mm \<Longrightarrow> map_of (fold ?add regs mm) (MountKey p) =
      (case map_of mm (MountKey p) of Some root \<Rightarrow> Some root | None \<Rightarrow> map_of regs p)" for mm p
    by (induction regs arbitrary: mm) (auto simp: mount_emplace_find mounts_ok_emplace split: option.splits)
  let ?mm = "fold ?add regs []"
  have o: "mounts_ok ?mm" using ok by (simp add: mounts_ok_def)
  have dist: "distinct (map fst ?mm)"
    using o by (simp add: mounts_ok_def strict_sorted_iff)
  show ?thesis
  proof (cases "find_mount path ?mm")
    case None
    then have "\<forall>k \<in> fst ` set ?mm. \<not> is_prefix (prefix_of k) path" by (auto simp: find_mount_None)
    with None show ?thesis unfolding keys by (auto simp: list_all_iff)
  next
    case (Some x)
    obtain p root where x: "x = (p, root)" by (cases x)
    have m: "(MountKey p, root) \<in> set ?mm" "is_prefix p path" using find_mount_Some Some x by auto
    have "map_of ?mm (MountKey p) = Some root" using m(1) dist by simp
    then have r: "map_of regs p = Some root" using first [of "[]" p] by (simp add: mounts_ok_def)
    have "length q \<le> length p" if "(q, r) \<in> set regs" "is_prefix q path" for q r
    proof -
      have "MountKey q \<in> fst ` set ?mm" using that(1) keys [of "[]"] by force
      then obtain r' where "(MountKey q, r') \<in> set ?mm" by auto
      from find_mount_longest [OF o _ this that(2)] Some x show ?thesis by simp
    qed
    then show ?thesis using Some x m(2) r by (auto simp: Let_def list_all_iff)
  qed
qed

theorem longest_mount_serves_witness:
  "find_mount ''/a/b'' (fold (\<lambda>(p, root). mount_emplace (MountKey p) root)
      [(''/'', ''r1''), (''/a'', ''r2''), (''/a'', ''r3'')] []) = Some (''/a'', ''r2'') \<and>
   map_of [(''/'', ''r1''), (''/a'', ''r2''), (''/a'', ''r3'')] ''/a'' = Some ''r2'' \<and> length ''/'' \<le> length ''/a''"
proof -
  let ?regs = "[(''/'', ''r1''), (''/a'', ''r2''), (''/a'', ''r3'')]"
  have f: "find_mount ''/a/b'' (fold (\<lambda>(p, root). mount_emplace (MountKey p) root) ?regs []) = Some (''/a'', ''r2'')"
    by (simp add: less_mount_key_def PrefixComparator_def)
  show ?thesis
    using longest_mount_serves [of ?regs "''/a/b''"] unfolding f Let_def by simp
qed

section \<open>Static files\<close>

text \<open>
  C18: What a static request can get.  A file handed out belongs to a GET of a path under a mounted
  prefix; it exists, its size is the one announced, its type follows its extension, and its
  canonical path begins, character by character, with the root of the longest mount of the path.
\<close>

theorem static_file_confined:
  assumes "serve_static fs mm req = Some resp" "sendfile_path resp \<noteq> []" "mounts_ok mm"
  shows "rq_method req = GET \<and> fs_exists fs (sendfile_path resp) \<and>
    fs_size fs (sendfile_path resp) = Some (sendfile_size resp) \<and>
    rs_header resp ''content-type'' = ext_type (extension (sendfile_path resp)) \<and>
    (\<exists>prefix root. (MountKey prefix, root) \<in> set mm \<and> is_prefix prefix (rq_path req) \<and>
      is_prefix root (sendfile_path resp) \<and>
      (\<forall>(k, r) \<in> set mm. is_prefix (prefix_of k) (rq_path req) \<longrightarrow> length (prefix_of k) \<le> length prefix))"
proof -
  obtain prefix root where s: "rq_method req = GET" "find_mount (rq_path req) mm = Some (prefix, root)"
    "is_prefix root (sendfile_path resp)" "fs_exists fs (sendfile_path resp)"
    "fs_size fs (sendfile_path resp) = Some (sendfile_size resp)"
    "rs_header resp ''content-type'' = ext_type (extension (sendfile_path resp))"
    using serve_static_file [OF assms(1,2)] by blast
  have "length (prefix_of k) \<le> length prefix" if "(k, r) \<in> set mm" "is_prefix (prefix_of k) (rq_path req)" for k r
    using find_mount_longest [OF assms(3) s(2), of "prefix_of k" r] that by simp
  with s find_mount_Some [OF s(2)] show ?thesis by blast
qed

definition www_fs :: file_system where
  "www_fs = \<lparr>fs_canonical = (\<lambda>p. if p = ''/srv/www/../www-secret/key.txt'' then Some ''/srv/www-secret/key.txt'' else Some p),
     fs_exists = (\<lambda>p. p = ''/srv/www/a.css'' \<or> p = ''/srv/www-secret/key.txt''), fs_size = (\<lambda>p. Some 3),
     fs_open = (\<lambda>p. Some ''abc'')\<rparr>"

definition get_path :: "string \<Rightarrow> request" where
  "get_path p = empty_request\<lparr>rq_method := GET, rq_path := p\<rparr>"

theorem static_file_confined_witness:
  "\<exists>resp. serve_static www_fs [(MountKey ''/s/'', ''/srv/www'')] (get_path ''/s/a.css'') = Some resp \<and>
     sendfile_path resp = ''/srv/www/a.css'' \<and> rs_header resp ''content-type'' = ''text/css''"
proof -
  let ?r = "serve_static www_fs [(MountKey ''/s/'', ''/srv/www'')] (get_path ''/s/a.css'')"
  obtain resp where r: "?r = Some resp" "sendfile_path resp = ''/srv/www/a.css''"
    by (simp add: serve_static_def www_fs_def get_path_def path_append_def relative_path_def static_tail_def has_filename_def Let_def)
  have "sendfile_path resp \<noteq> []" "mounts_ok [(MountKey ''/s/'', ''/srv/www'')]"
    by (simp_all add: r mounts_ok_def)
  moreover have "ext_type (extension ''/srv/www/a.css'') = ''text/css''"
    by (simp add: ext_type_def extension_def filename_def type_table_def to_lower_def)
  ultimately show ?thesis
    using static_file_confined [OF r(1)] r by auto
qed

text \<open>
  C39: A sibling of the root is not outside.  The test of the root compares characters, not path
  components: a file in a directory whose name only begins like the root's, reached by a path that
  climbs out of the root, is handed out.
\<close>

theorem static_root_escape:
  assumes "find_mount (rq_path req) mm = Some (prefix, root)" "prefix \<noteq> []" "rq_method req = GET"
    "fs_canonical fs (path_append root (relative_path (static_tail (drop (length prefix) (rq_path req))))) =
       Some (root @ x)" "x \<noteq> []" "hd x \<noteq> CHR ''/''" "fs_exists fs (root @ x)" "fs_size fs (root @ x) = Some n"
  shows "\<exists>resp. serve_static fs mm req = Some resp \<and> sendfile_path resp = root @ x \<and> sendfile_size resp = n \<and>
    \<not> is_prefix (root @ ''/'') (sendfile_path resp)"
proof -
  have "\<not> is_prefix (root @ ''/'') (root @ x)"
    using assms(5,6) by (cases x) (auto simp: is_prefix_ex)
  with assms show ?thesis by (simp add: serve_static_def Let_def)
qed

theorem static_root_escape_witness:
  "\<exists>resp. serve_static www_fs [(MountKey ''/s'', ''/srv/www'')] (get_path ''/s/../www-secret/key.txt'') = Some resp \<and>
     sendfile_path resp = ''/srv/www-secret/key.txt''"
  using static_root_escape [of "get_path ''/s/../www-secret/key.txt''" "[(MountKey ''/s'', ''/srv/www'')]" "''/s''"
      "''/srv/www''" www_fs "''-secret/key.txt''" 3]
  by (auto simp: get_path_def www_fs_def path_append_def relative_path_def static_tail_def has_filename_def)

text \<open>
  C29: A file is sent as it is.  However the kernel splits the transfer and however often its buffer
  is full, what goes out is an initial part of the file of at most the announced size, and all of it
  exactly when the function reports success.
\<close>

theorem sendfile_sends_file:
  assumes "fs_open fs path = Some file" "answers_fit sz answers"
    "sendfile_fast_path fs answers path sz = (ok, out)"
  shows "\<exists>k \<le> sz. out = take k file \<and> (ok \<longleftrightarrow> k = sz)"
  using sendfile_loop_sends [OF assms(2), of "file" 0 ok out] assms(1,3)
  by (simp add: sendfile_fast_path_def)

theorem sendfile_sends_file_witness:
  "sendfile_fast_path www_fs [Sent 1, Again, Sent 2] ''f'' 3 = (True, ''abc'')"
proof -
  obtain ok out where r: "sendfile_fast_path www_fs [Sent 1, Again, Sent 2] ''f'' 3 = (ok, out)" by fastforce
  moreover have "fs_open www_fs ''f'' = Some ''abc''" "answers_fit 3 [Sent 1, Again, Sent 2]"
    by (simp_all add: www_fs_def)
  moreover have "ok" using r by (auto simp: sendfile_fast_path_def www_fs_def)
  ultimately show ?thesis using sendfile_sends_file [of www_fs "''f''" "''abc''" 3 "[Sent 1, Again, Sent 2]" ok out] by auto
qed

lemma sendfile_complete:
  assumes "fs_open fs path = Some file" "answers_fit (length file) answers"
    "fst (sendfile_fast_path fs answers path (length file))"
  shows "sendfile_fast_path fs answers path (length file) = (True, file)"
  using sendfile_loop_sends [OF assms(2), of "file" 0] assms(1,3)
  by (cases "sendfile_loop answers file 0 (length file) []") (auto simp: sendfile_fast_path_def)

text \<open>The three names a file response carries.\<close>

lemma file_names:
  "\<not> ci_equal ''Content-Length'' ''Connection''" "\<not> ci_equal ''Connection'' ''Content-Length''"
  "\<not> ci_equal ''content-type'' ''Content-Length''" "\<not> ci_equal ''Content-Type'' ''Content-Length''"
  "\<not> ci_equal ''Content-Length'' ''content-type''" "\<not> ci_equal ''Connection'' ''content-type''"
  by (simp_all add: ci_equal_def to_lower_def char_of_def bit_0)

text \<open>
  C19: A static file is delivered.  A GET that no route handles, for a path under a mount whose
  canonical file lies under the mount's root, is answered on a plain socket with a head that announces
  the file's length and the type of its extension, followed by exactly the file; the request asked to
  close, so the session ends.
\<close>

theorem static_get_end_to_end:
  assumes "tcp_env E" "e_native E" "sendable E q" "\<not> is_ws_upgrade q" "rq_method q = GET" "\<not> wants_keep_alive q"
    "fst (split_target (rq_target q)) = path" "find_route GET path r = None"
    "find_mount path (static_mounts r) = Some (prefix, root)" "prefix \<noteq> []"
    "fs_canonical (e_fs E) (path_append root (relative_path (static_tail (drop (length prefix) path)))) = Some canon"
    "is_prefix root canon" "canon \<noteq> []" "fs_exists (e_fs E) canon" "fs_size (e_fs E) canon = Some (length file)"
    "fs_open (e_fs E) canon = Some file" "file \<noteq> []"
    "\<And>s. answers_fit (length file) (e_answers E s) \<and> fst (sendfile_fast_path (e_fs E) (e_answers E s) canon (length file))"
    "inbox s = rq_to_string (e_iter E) q # rest" "peer_up s"
  shows "\<exists>resp. process_session E r client_id (Suc fuel) s = Some (ClosedByRequest,
      s\<lparr>inbox := rest, outbox := outbox s @ rs_to_string_header (e_iter E) resp @ file\<rparr>) \<and>
    rs_status resp = 200 \<and> rs_header resp ''content-type'' = ext_type (extension canon) \<and>
    rs_header resp ''Content-Length'' = dec (length file) \<and> rs_header resp ''Connection'' = ''close''"
proof -
  let ?q = "received_request (e_iter E) q"
  let ?resp = "(set_header ''content-type'' (ext_type (extension canon)) (text_response ''OK'' OK_200 ''utf-8''))
    \<lparr>sendfile_path := canon, sendfile_size := length file\<rparr>"
  let ?c = "set_connection False ?resp"
  let ?out = "set_header ''Content-Length'' (dec (length file)) ?c"
  have q: "plain_request q" "any_order (e_iter E) (rq_headers q)"
    using assms(1,3) by (simp_all add: sendable_def tcp_env_def)
  have f: "rq_method ?q = GET" "rq_path ?q = path"
    using parse_head_fields(1) [OF q, of "[]"] arg_cong [OF parse_head_fields(4) [OF q, of "[]"], of fst] assms(5,7)
    by (simp_all add: received_request_def parsed_head_def)
  have m: "static_mounts r \<noteq> []" using assms(9) by auto
  have h: "handle_request (e_fs E) r ?q = Some ?resp"
    using assms(8-15) m by (simp add: handle_request_def f serve_static_def Let_def)
  have a: "sendfile_fast_path (e_fs E) (e_answers E t) (sendfile_path ?resp) (sendfile_size ?resp) = (True, file)" for t
    using sendfile_complete [OF assms(16)] assms(18) by simp
  have l: "\<not> rs_has_header ?c ''Content-Length''"
    by (simp add: set_connection_def rs_has_header_set_header file_names)
      (simp add: rs_has_header_def hdr_contains_def text_response_def set_content_def default_response_def file_names)
  have p: "prepare_headers (e_iter E) ?c (sendfile_size ?resp) = (rs_to_string_header (e_iter E) ?out, ?out)"
    using l by (simp add: prepare_headers_def Let_def)
  have "process_session E r client_id (Suc fuel) s = Some (ClosedByRequest,
      s\<lparr>inbox := rest, outbox := outbox s @ rs_to_string_header (e_iter E) ?out @ file\<rparr>)"
    using process_session_file [OF assms(1-4) h _ _ assms(19,20) a, of client_id fuel] assms(6,13,17)
    by (simp only: p Let_def) simp
  moreover have "rs_status ?out = 200" by (simp add: set_connection_def text_response_def set_content_def status_codes)
  moreover have "rs_header ?out ''content-type'' = ext_type (extension canon)" "rs_header ?out ''Connection'' = ''close''"
    "rs_header ?out ''Content-Length'' = dec (length file)"
    by (simp_all add: rs_header_set_header set_connection_def file_names rs_header_def header_value_def hdr_find_set)
  ultimately show ?thesis by blast
qed

text \<open>A server with one mount and one file, and a GET of it.\<close>

definition www_env :: "tcp_socket server_env" where
  "www_env = sample_env\<lparr>e_fs := www_fs, e_answers := (\<lambda>s. [Again, Sent 3])\<rparr>"

definition www_router :: router where
  "www_router = empty_router\<lparr>static_mounts := [(MountKey ''/s/'', ''/srv/www'')]\<rparr>"

definition www_get :: request where
  "www_get = empty_request\<lparr>rq_method := GET, rq_target := ''/s/a.css'', rq_version := ''HTTP/1.1'',
     rq_headers := [(''Connection'', ''close'')]\<rparr>"

lemma www_get_simps:
  "sendable www_env www_get" "\<not> is_ws_upgrade www_get" "\<not> wants_keep_alive www_get" "rq_method www_get = GET"
  "fst (split_target (rq_target www_get)) = ''/s/a.css''" "tcp_env www_env"
proof -
  have t: "trim ''Connection'' = ''Connection''" "trim ''close'' = ''close''"
    by (rule trim_no_space, simp add: is_space_def)+
  show "sendable www_env www_get"
    by (simp add: sendable_def www_get_def plain_request_def plain_header_def framed_def hdr_contains_def ci_equal_def
        t newline_def hdr_ok_def empty_request_def www_env_def sample_env_def) (simp add: is_space_def)
  show "\<not> is_ws_upgrade www_get" "\<not> wants_keep_alive www_get"
    by (simp_all add: www_get_def is_ws_upgrade_def hdr_contains_def ci_equal_def wants_keep_alive_def rq_header_def header_value_def)
  show "fst (split_target (rq_target www_get)) = ''/s/a.css''"
    using split_target_plain [of "''/s/a.css''"] by (simp add: www_get_def)
  show "tcp_env www_env" using tcp_sample_env by (simp add: tcp_env_def www_env_def)
qed (simp add: www_get_def)

theorem static_get_end_to_end_witness:
  "\<exists>resp. process_session www_env www_router 1 1 \<lparr>inbox = [rq_to_string id www_get], outbox = [], peer_up = True\<rparr> =
      Some (ClosedByRequest, \<lparr>inbox = [], outbox = rs_to_string_header id resp @ ''abc'', peer_up = True\<rparr>) \<and>
    rs_header resp ''Content-Length'' = dec 3"
proof -
  let ?s = "\<lparr>inbox = [rq_to_string id www_get], outbox = [], peer_up = True\<rparr>"
  have e: "e_iter www_env = id" "e_native www_env" "e_fs www_env = www_fs"
    by (simp_all add: www_env_def sample_env_def)
  have r: "find_route GET ''/s/a.css'' www_router = None"
    "find_mount ''/s/a.css'' (static_mounts www_router) = Some (''/s/'', ''/srv/www'')" "''/s/'' \<noteq> []"
    by (simp_all add: www_router_def empty_router_def find_route_def)
  have c: "fs_canonical (e_fs www_env) (path_append ''/srv/www'' (relative_path (static_tail (drop (length ''/s/'') ''/s/a.css'')))) =
      Some ''/srv/www/a.css''"
    by (simp add: e www_fs_def path_append_def relative_path_def static_tail_def has_filename_def)
  have f: "is_prefix ''/srv/www'' ''/srv/www/a.css''" "''/srv/www/a.css'' \<noteq> []" "fs_exists (e_fs www_env) ''/srv/www/a.css''"
    "fs_size (e_fs www_env) ''/srv/www/a.css'' = Some (length ''abc'')" "fs_open (e_fs www_env) ''/srv/www/a.css'' = Some ''abc''"
    "''abc'' \<noteq> []"
    by (simp_all add: e www_fs_def)
  have a: "answers_fit (length ''abc'') (e_answers www_env s) \<and>
      fst (sendfile_fast_path (e_fs www_env) (e_answers www_env s) ''/srv/www/a.css'' (length ''abc''))" for s
    by (simp add: e(3)) (simp add: www_env_def sendfile_fast_path_def www_fs_def)
  have s: "inbox ?s = rq_to_string (e_iter www_env) www_get # []" "peer_up ?s" by (simp_all add: e)
  from static_get_end_to_end [OF www_get_simps(6) e(2) www_get_simps(1,2,4,3,5) r c f a s, of 1 0] show ?thesis
    by (auto simp: e numeral_3_eq_3 simp del: process_session.simps)
qed

section \<open>The upgrade\<close>

lemma accept_response:
  assumes "no_space a"
  defines "resp \<equiv> build_101_response a"
  shows "plain_response resp" "rs_status resp = SwitchingProtocol_101"
    "response_fields resp = [(''Upgrade'', ''websocket''), (''Connection'', ''Upgrade''), (''Sec-Websocket-Accept'', c_str a),
       (''Content-Length'', ''0'')]"
proof -
  have "no_space (c_str a)" using assms(1) by (auto simp: c_str_def list_all_iff dest: set_takeWhileD)
  then show "plain_response resp"
    using handshake_response_plain by (simp add: resp_def build_101_response_def Let_def)
  show "rs_status resp = SwitchingProtocol_101"
    by (simp add: resp_def build_101_response_def Let_def)
  show "response_fields resp = [(''Upgrade'', ''websocket''), (''Connection'', ''Upgrade''), (''Sec-Websocket-Accept'', c_str a),
       (''Content-Length'', ''0'')]"
    by (simp add: resp_def build_101_response_def response_fields_def default_response_def Let_def ci_equal_def
        rs_has_header_def hdr_contains_def set_header_def dec.simps digit_char_def char_of_def bit_0)
qed

text \<open>
  C11: The WebSocket handshake.  An upgrade request of the client for a path with a WebSocket route,
  sent to a session of the server, makes the session a connection with the handlers of that route
  and the cleanup installed; the response carries the accept key, the base 64 of the hash of the
  client's key and the protocol's constant, and the client's \<^verbatim>\<open>connect\<close> accepts it.
\<close>

theorem websocket_handshake:
  assumes "tcp_env E" "no_space path" "path \<noteq> []" "plain_value host" "random \<noteq> []"
    "find_ws (fst (split_target path)) r = Some hs" "6 \<le> fuel"
  shows "\<exists>s'. process_session E r client_id 1
      \<lparr>inbox = [upgrade_request host path (generate_key random)], outbox = [], peer_up = True\<rparr> =
        Some (Upgraded (set_server_cleanup (new_websocket (Some hs) client_id)), s') \<and> inbox s' = [] \<and>
    has_substring (''Sec-Websocket-Accept: '' @
      b64_spec (e_sha1 E (str_bytes (generate_key random @ ''258EAFA5-E914-47DA-95CA-C5AB0DC85B11''))) @ crlf) (outbox s') \<and>
    connect line_until fuel host path random [outbox s'] c =
      Some (Inr (c\<lparr>c_key := generate_key random,
        c_sent := c_sent c @ str_bytes (upgrade_request host path (generate_key random))\<rparr>, []))"
proof -
  let ?key = "generate_key random"
  let ?a = "b64_spec (e_sha1 E (str_bytes (?key @ ws_magic)))"
  let ?resp = "build_101_response ?a"
  have a: "ws_accept_key (e_sha1 E) ?key = ?a" by (simp add: ws_accept_key_def base64_encode_eq)
  note p = server_upgrade [OF assms(1-4) client_key [OF assms(5)] assms(6),
      of "\<lparr>inbox = [upgrade_request host path ?key], outbox = [], peer_up = True\<rparr>" client_id 0]
  note r = accept_response [OF b64_no_space, of "e_sha1 E (str_bytes (?key @ ws_magic))"]
  have o: "any_order (e_iter E) (response_fields ?resp)" using assms(1) by (simp add: tcp_env_def)
  have "(''Sec-Websocket-Accept'', ?a) \<in> set (e_iter E (response_fields ?resp))"
    unfolding any_order_set [OF o] by (simp add: r)
  then obtain xs ys where "e_iter E (response_fields ?resp) = xs @ (''Sec-Websocket-Accept'', ?a) # ys"
    by (meson split_list)
  then have "response_bytes (e_iter E) ?resp =
      (status_line ?resp @ crlf @ concat (map header_line xs)) @ (''Sec-Websocket-Accept: '' @ ?a @ crlf) @
      (concat (map header_line ys) @ crlf @ rs_body ?resp)"
    by (simp add: response_bytes_eq header_line_def)
  then have "has_substring (''Sec-Websocket-Accept: '' @ ?a @ crlf) (response_bytes (e_iter E) ?resp)"
    by (simp only: has_substring_infix)
  moreover have "connect line_until fuel host path random [response_bytes (e_iter E) ?resp] c =
      Some (Inr (c\<lparr>c_key := ?key, c_sent := c_sent c @ str_bytes (upgrade_request host path ?key)\<rparr>, []))"
    using client_accepts [OF r(1) o r(2)] assms(7) by (simp add: r(3))
  ultimately show ?thesis using p by (simp add: a ws_magic_def)
qed

theorem websocket_handshake_witness:
  "\<exists>s' hs c'. process_session sample_env sample_router 4 1
      \<lparr>inbox = [upgrade_request ''h'' ''/chat?room=1'' (generate_key (replicate 16 7))], outbox = [], peer_up = True\<rparr> =
        Some (Upgraded (set_server_cleanup (new_websocket (Some hs) 4)), s') \<and>
    connect line_until 6 ''h'' ''/chat?room=1'' (replicate 16 7) [outbox s'] new_client = Some (Inr (c', []))"
proof -
  have p: "no_space ''/chat?room=1''" "''/chat?room=1'' \<noteq> []" "plain_value ''h''" "replicate 16 (7 :: byte) \<noteq> []"
    by (simp_all add: is_space_def plain_value_def newline_def)
  have "fst (split_target ''/chat?room=1'') = ''/chat''"
    using split_target_query [of "''/chat''" "''room=1''"] by simp
  then obtain hs where "find_ws (fst (split_target ''/chat?room=1'')) sample_router = Some hs"
    using main_router_routes(3) [OF sample_router] by simp
  from websocket_handshake [OF tcp_sample_env p this, of 6 4 new_client] show ?thesis by auto
qed



section \<open>The registry and the shutdown\<close>

text \<open>
  C4: The registry is exact.  Whatever is accepted, upgraded, received, sent, closed, lost, started
  and stopped, in any order, a connection is in the server's registry exactly while it is open, and
  one that is not open has run the server's cleanup exactly once.
\<close>

theorem registry_tracks_open:
  assumes "byte_stream rd view" "server_reach rd alloc_max S" "alloc_max + 10 * 1024 * 1024 < 2 ^ 64"
  shows "(i \<in> set (websockets S) \<longleftrightarrow> (\<exists>X. sessions S i = Some X \<and> is_open (conn X))) \<and>
    (case sessions S i of None \<Rightarrow> True | Some X \<Rightarrow> cleanups (conn X) = (if is_open (conn X) then 0 else 1))"
proof -
  have ok: "server_ok S"
    using byte_stream.server_reach_ok [OF assms(1,2)] assms(3) by (simp add: maxMsg_def)
  then show ?thesis
    by (auto simp: server_ok_def session_ok_def conn_ok_def is_open_def split: option.splits)
qed

text \<open>A server with one connection.\<close>

definition open_server :: "bytes list server" where
  "open_server = open_websocket 5 (no_handlers\<lparr>on_close := Some (\<lambda>c r. [])\<rparr>) [] (add_client 5 new_server)"

lemma open_server_reach: "server_reach seg_read 100 open_server"
proof -
  have "server_reach seg_read 100 (add_client 5 new_server)"
    by (rule server_reach.further [OF server_reach.initially server_step.client_arrives])
  moreover have "idle_id 5 (add_client 5 new_server)"
    by (simp add: idle_id_def add_client_def new_server_def)
  ultimately show ?thesis
    unfolding open_server_def by (blast intro: server_reach.further server_step.upgrade)
qed

lemma open_server_session:
  "\<exists>X. sessions open_server 5 = Some X \<and> is_open (conn X) \<and> on_close (handlers (conn X)) \<noteq> None"
  by (simp add: open_server_def open_websocket_def Let_def register_websocket_def assign_slot_def add_client_def
      new_server_def session_init_def fire_open_eq is_open_def set_server_cleanup_def new_websocket_def no_handlers_def)

theorem registry_tracks_open_witness:
  "5 \<in> set (websockets open_server) \<and> 6 \<notin> set (websockets open_server)"
proof -
  have "sessions open_server 6 = None"
    by (simp add: open_server_def open_websocket_def Let_def register_websocket_def assign_slot_def add_client_def
        new_server_def)
  then show ?thesis
    using open_server_session registry_tracks_open [OF seg_stream.byte_stream_axioms open_server_reach, of 5]
      registry_tracks_open [OF seg_stream.byte_stream_axioms open_server_reach, of 6]
    by auto
qed



text \<open>
  C31: A server runs once.  A new server that is started with a worker accepts clients; after it has
  been stopped it never accepts again, however often it is started and whatever else happens, because
  its \<^verbatim>\<open>io_context\<close> is not restarted.
\<close>

theorem server_runs_once:
  assumes "0 < min worker_threads hardware_concurrency"
  shows "accepting (start worker_threads hardware_concurrency new_server) \<and>
    (0 < workers S \<and> (server_step rd alloc_max)\<^sup>*\<^sup>* (stop S) T \<longrightarrow>
       \<not> accepting T \<and> \<not> accepting (start worker_threads hardware_concurrency T))"
proof -
  have "retired T" if "0 < workers S" "(server_step rd alloc_max)\<^sup>*\<^sup>* (stop S) T"
    using retired_steps [OF that(2)] that(1) by (simp add: retired_def stop_fields)
  moreover have "retired (start n h T)" if "retired T" for n h
    using that by (simp add: retired_def start_def Let_def)
  ultimately show ?thesis using assms by (auto simp: retired_def start_def Let_def new_server_def)
qed

theorem server_runs_once_witness:
  "\<not> accepting (start 2 4 (add_client 5 (start 2 4 (stop (start 2 4 (new_server :: bytes list server))))))"
proof -
  let ?S = "start 2 4 (new_server :: bytes list server)"
  have "server_step seg_read 100 (stop ?S) (start 2 4 (stop ?S))" by (rule server_step.starts)
  moreover have "server_step seg_read 100 (start 2 4 (stop ?S)) (add_client 5 (start 2 4 (stop ?S)))"
    by (rule server_step.client_arrives)
  ultimately have st: "(server_step seg_read 100)\<^sup>*\<^sup>* (stop ?S) (add_client 5 (start 2 4 (stop ?S)))" by auto
  have w: "0 < workers ?S" by (simp add: start_def new_server_def Let_def)
  have m: "0 < min 2 (4 :: nat)" by simp
  show ?thesis using server_runs_once [OF m, of ?S seg_read 100] w st by blast
qed

text \<open>
  C13: The server keeps no trace of a client that has gone.  However a client ends that does not
  upgrade, with or without TLS, by a failed handshake, read or write, a throwing handler or a request
  to close, the server is afterwards exactly what it was before; a client that upgrades is in the
  registry as an open connection, and its cancellation handler is installed.
\<close>

theorem client_bookkeeping:
  assumes "handle_client tls E r fuel i s S = Some (e, T)" "\<not> get_client_slot i S" "i \<notin> set (websockets S)"
  shows "case e of
      SessionOver (Upgraded w) \<Rightarrow> websockets T = websockets S @ [i] \<and> map_of (client_cancel T) i = Some True \<and>
        (\<exists>X. sessions T i = Some X \<and> is_open (conn X) \<and> handlers (conn X) = handlers w)
    | _ \<Rightarrow> T = S"
proof (cases "\<exists>w. e = SessionOver (Upgraded w)")
  case True
  then obtain w where e: "e = SessionOver (Upgraded w)" by blast
  then obtain s' where T: "T = open_websocket i (handlers w) s' (add_client i S)"
    using assms(1) by (auto simp: handle_client_def run_client_def Let_def
        split: option.splits session_end.splits sum.splits)
  have "map_of (client_cancel (add_client i S)) i = Some False" "websockets (add_client i S) = websockets S"
    using assms(2) by (simp_all add: add_client_def get_client_slot_def map_add_def)
  with assms(3) show ?thesis by (simp add: e T open_websocket_opens)
next
  case False
  with handle_client_leaves [OF assms(1,2)] show ?thesis by (auto split: client_end.splits session_end.splits)
qed

theorem client_bookkeeping_witness:
  "handle_client None sample_env empty_router 1 5 \<lparr>inbox = [], outbox = [], peer_up = True\<rparr> new_server =
     Some (SessionOver ReadFailed, new_server)"
proof -
  have p: "process_session sample_env empty_router 5 1 \<lparr>inbox = [], outbox = [], peer_up = True\<rparr> =
      Some (ReadFailed, \<lparr>inbox = [], outbox = [], peer_up = True\<rparr>)"
    using process_session_end [OF tcp_sample_env, of "\<lparr>inbox = [], outbox = [], peer_up = True\<rparr>" empty_router 5 0] by simp
  then obtain T where T: "handle_client None sample_env empty_router 1 5 \<lparr>inbox = [], outbox = [], peer_up = True\<rparr> new_server =
      Some (SessionOver ReadFailed, T)"
    by (simp add: handle_client_def run_client_def)
  from client_bookkeeping [OF T] have "T = new_server" by (simp add: get_client_slot_def new_server_def)
  with T show ?thesis by simp
qed

end
