(* ===== verification/Tls_Setup.thy ===== *)
theory Tls_Setup
  imports Server_Lifecycle
begin

text \<open>
  Building a server or a client object with and without TLS: the constructor of \<^verbatim>\<open>Server\<close> in
  \<^verbatim>\<open>include/server.h\<close>, \<^verbatim>\<open>setup_ssl\<close> of \<^verbatim>\<open>src/server.cpp\<close>, and \<^verbatim>\<open>set_verify_cert_file\<close> and the first half
  of \<^verbatim>\<open>connect\<close> of the two clients.  OpenSSL is the record \<open>tls_library\<close>: what its loading functions
  say about a file, with the text of the exception.
\<close>

section \<open>Output of a program\<close>

datatype out = Cout string | Cerr string

definition println :: "string \<Rightarrow> string" where
  "println s = s @ [newline]"

section \<open>The library and its contexts\<close>

text \<open>A build has the macro \<^verbatim>\<open>USE_SSL\<close> or not.\<close>

datatype build = PlainBuild | TlsBuild

record tls_library =
  load_chain :: "string \<Rightarrow> string + unit"
  load_private_key :: "string \<Rightarrow> string + unit"
  load_verify_file :: "string \<Rightarrow> string + unit"

datatype ssl_option = DefaultWorkarounds | NoSslv2

record ssl_context =
  ssl_options :: "ssl_option list"
  chain_file :: "string option"
  private_key_file :: "string option"
  verify_file :: "string option"

definition new_ssl_context :: ssl_context where
  "new_ssl_context = \<lparr>ssl_options = [], chain_file = None, private_key_file = None, verify_file = None\<rparr>"

section \<open>The server\<close>

text \<open>The result is what was printed, the value returned and the context.\<close>

definition setup_ssl :: "build \<Rightarrow> tls_library \<Rightarrow> bool \<Rightarrow> ssl_context \<Rightarrow> out list \<times> bool \<times> ssl_context" where
  "setup_ssl b lib ssl ctx =
     (case b of
        PlainBuild \<Rightarrow> ([], False, ctx)
      | TlsBuild \<Rightarrow>
          if ssl then
            (let ctx = ctx\<lparr>ssl_options := [DefaultWorkarounds, NoSslv2]\<rparr>
             in case load_chain lib ''certs/localhost.crt'' of
                  Inl what \<Rightarrow> ([Cerr (println (''SSL setup failed: '' @ what))], False, ctx)
                | Inr u \<Rightarrow>
                    (let ctx = ctx\<lparr>chain_file := Some ''certs/localhost.crt''\<rparr>
                     in case load_private_key lib ''certs/localhost.key'' of
                          Inl what \<Rightarrow> ([Cerr (println (''SSL setup failed: '' @ what))], False, ctx)
                        | Inr u \<Rightarrow> ([], True, ctx\<lparr>private_key_file := Some ''certs/localhost.key''\<rparr>)))
          else ([], True, ctx))"

text \<open>
  The constructor: first the acceptor, whose outcome is \<open>listening\<close>, then TLS.  The result is what was
  printed and the text of the exception or the member \<^verbatim>\<open>use_ssl_\<close> with the context.
\<close>

definition construct_server :: "build \<Rightarrow> tls_library \<Rightarrow> string + unit \<Rightarrow> bool \<Rightarrow>
    out list \<times> (string + (bool \<times> ssl_context))" where
  "construct_server b lib listening ssl =
     (case listening of
        Inl what \<Rightarrow> ([], Inl what)
      | Inr u \<Rightarrow>
          (case b of
             TlsBuild \<Rightarrow>
               (let (out, ok, ctx) = setup_ssl b lib ssl new_ssl_context
                in if ssl \<and> \<not> ok then (out, Inl ''SSL setup failed'') else (out, Inr (ssl, ctx)))
           | PlainBuild \<Rightarrow>
               (if ssl then [Cerr (println ''WARNING: SSL requested but OpenSSL is disabled!'')] else [],
                Inr (False, new_ssl_context))))"

section \<open>The clients\<close>

definition set_verify_cert_file :: "tls_library \<Rightarrow> bool \<Rightarrow> string \<Rightarrow> ssl_context \<Rightarrow> string + ssl_context" where
  "set_verify_cert_file lib ssl file ctx =
     (if \<not> ssl then Inr ctx
      else case load_verify_file lib file of
             Inl what \<Rightarrow> Inl what
           | Inr u \<Rightarrow> Inr (ctx\<lparr>verify_file := Some file\<rparr>))"

text \<open>
  The connection of a client.  \<open>con\<close> is what \<^verbatim>\<open>asio::connect\<close> gives for the resolved endpoints and
  \<open>handshake\<close> the TLS handshake with a context and the host name, both with the text of the exception.
\<close>

type_synonym 's tls_connect = "ssl_context \<Rightarrow> string \<Rightarrow> 's \<Rightarrow> string + 's"

definition open_connection :: "build \<Rightarrow> 's tls_connect \<Rightarrow> bool \<Rightarrow> ssl_context \<Rightarrow> string \<Rightarrow> string + 's \<Rightarrow> string + 's" where
  "open_connection b handshake ssl ctx host con =
     (if ssl then
        (case b of
           PlainBuild \<Rightarrow> Inl ''SSL not supported''
         | TlsBuild \<Rightarrow> (case con of Inl what \<Rightarrow> Inl what | Inr s \<Rightarrow> handshake ctx host s))
      else con)"

text \<open>What the two example clients do before they connect.\<close>

definition client_context :: "build \<Rightarrow> tls_library \<Rightarrow> bool \<Rightarrow> string \<Rightarrow> string + ssl_context" where
  "client_context b lib ssl cert_file =
     (case b of
        PlainBuild \<Rightarrow> Inr new_ssl_context
      | TlsBuild \<Rightarrow>
          if ssl \<and> cert_file \<noteq> [] then set_verify_cert_file lib ssl cert_file new_ssl_context
          else Inr new_ssl_context)"

section \<open>What the constructors guarantee\<close>

lemma setup_ssl_ok:
  "setup_ssl b lib ssl ctx = (out, True, c) \<longleftrightarrow> b = TlsBuild \<and> out = [] \<and>
     (if ssl then load_chain lib ''certs/localhost.crt'' = Inr () \<and> load_private_key lib ''certs/localhost.key'' = Inr () \<and>
        c = ctx\<lparr>ssl_options := [DefaultWorkarounds, NoSslv2], chain_file := Some ''certs/localhost.crt'',
          private_key_file := Some ''certs/localhost.key''\<rparr>
      else c = ctx)"
  by (auto simp: setup_ssl_def Let_def split: build.splits sum.splits)

text \<open>A server object never has a member \<^verbatim>\<open>use_ssl_\<close> without a certificate and its key.\<close>

lemma construct_server_tls:
  assumes "construct_server b lib listening ssl = (out, Inr (on, ctx))"
  shows "on = (ssl \<and> b = TlsBuild)"
    and "on \<Longrightarrow> chain_file ctx = Some ''certs/localhost.crt'' \<and> private_key_file ctx = Some ''certs/localhost.key''"
    and "on \<Longrightarrow> out = []"
  using assms
  by (auto simp: construct_server_def setup_ssl_def new_ssl_context_def Let_def
      split: build.splits sum.splits if_splits)

lemma construct_server_loads:
  assumes "construct_server TlsBuild lib listening True = (out, Inr (on, ctx))"
  shows "load_chain lib ''certs/localhost.crt'' = Inr ()" "load_private_key lib ''certs/localhost.key'' = Inr ()"
  using assms by (auto simp: construct_server_def setup_ssl_def Let_def split: sum.splits if_splits)

lemma construct_server_plain:
  "construct_server b lib (Inr ()) False = ([], Inr (False, new_ssl_context))"
  "construct_server PlainBuild lib (Inr ()) ssl =
     (if ssl then [Cerr (println ''WARNING: SSL requested but OpenSSL is disabled!'')] else [], Inr (False, new_ssl_context))"
  by (simp_all add: construct_server_def setup_ssl_def Let_def split: build.splits)

lemma construct_server_loaded:
  assumes "load_chain lib ''certs/localhost.crt'' = Inr ()" "load_private_key lib ''certs/localhost.key'' = Inr ()"
  shows "\<exists>ctx. construct_server TlsBuild lib (Inr ()) ssl = ([], Inr (ssl, ctx))"
  using assms by (simp add: construct_server_def setup_ssl_def Let_def)

text \<open>A client's peer is authenticated only if a file to verify it against was loaded.\<close>

lemma client_context_verifies:
  assumes "client_context b lib ssl cert_file = Inr ctx"
  shows "verify_file ctx = (if b = TlsBuild \<and> ssl \<and> cert_file \<noteq> [] then Some cert_file else None)"
  using assms by (auto simp: client_context_def set_verify_cert_file_def new_ssl_context_def
      split: build.splits if_splits sum.splits)

end
