(* ===== verification/Programs.thy ===== *)
theory Programs
  imports Main_Program Tls_Setup
begin

text \<open>
  The server programs from their command line to their exit code: \<^verbatim>\<open>src/main.cpp\<close>,
  \<^verbatim>\<open>examples/servers/http_basic.cpp\<close> and \<^verbatim>\<open>examples/servers/ws_basic.cpp\<close>, built with TLS or
  without.  What a program meets outside is the record \<open>world\<close>; what it does is the record
  \<open>program_run\<close>.
\<close>

section \<open>World and outcome\<close>

text \<open>
  \<open>w_files\<close> are the contents of the files that can be opened; \<open>w_address\<close> is \<^verbatim>\<open>make_address\<close> and
  \<open>w_listen\<close> the constructor of the acceptor, both with the text of the exception; \<open>w_fs_what\<close> is the
  text of a \<^verbatim>\<open>filesystem_error\<close>; \<open>w_build\<close> and \<open>w_tls\<close> are the build and OpenSSL; \<open>w_life\<close> is what happens to the server until the user presses
  enter.
\<close>

record 's world =
  w_argv :: "string list"
  w_files :: "string \<Rightarrow> string option"
  w_address :: "string \<Rightarrow> string + unit"
  w_listen :: "string \<Rightarrow> u16 \<Rightarrow> string + unit"
  w_canonical :: "string \<Rightarrow> string option"
  w_fs_what :: string
  w_listing :: "string list option"
  w_cores :: nat
  w_build :: build
  w_tls :: tls_library
  w_life :: "'s server \<Rightarrow> 's server"

record 's program_run =
  exit_code :: int
  printed :: "out list"
  posted :: "out list"
  served_by :: "(router \<times> 's server) option"
  served_tls :: "ssl_context option"

text \<open>The texts of the exceptions and warnings of \<^verbatim>\<open>load_config\<close>.\<close>

fun config_what :: "config_error \<Rightarrow> string" where
  "config_what (CannotOpen f) = ''Could not open config file: '' @ f"
| "config_what (InvalidPort n) = ''Invalid port at line '' @ dec n"
| "config_what (InvalidThreads n) = ''Invalid threads at line '' @ dec n"
| "config_what (InvalidBool n) = ''Invalid bool for use_ssl at line '' @ dec n"
| "config_what (InvalidMount n) = ''Invalid mount spec at line '' @ dec n"

fun warning_text :: "config_warning \<Rightarrow> string" where
  "warning_text (BadLine n f raw) = println (''Warning: bad line '' @ dec n @ '' in '' @ f @ '': '' @ raw)"
| "warning_text (UnknownKey sec key n) =
     println (''Warning: unknown key in ['' @ sec @ '']: '' @ key @ '' (println '' @ dec n @ '')'')"
| "warning_text (OutsideSection n key) =
     println (''Warning: key outside known section at line '' @ dec n @ '': '' @ key)"

definition failed :: "out list \<Rightarrow> string \<Rightarrow> 's program_run" where
  "failed out what = \<lparr>exit_code = 1, printed = out @ [Cerr (println (''Fatal error: '' @ what))],
     posted = [], served_by = None, served_tls = None\<rparr>"

section \<open>The body of a server program\<close>

text \<open>
  Load, construct, set up the routes, start, wait, stop.  The three programs differ in what they
  print before the server is constructed (\<open>notice\<close>), in their routes, in what they print while it
  runs (\<open>banner\<close>) and in the task they post.
\<close>

definition run_server :: "'s world \<Rightarrow> string \<Rightarrow> out list \<Rightarrow> (server_config \<Rightarrow> out list) \<Rightarrow>
    (server_config \<Rightarrow> router option) \<Rightarrow> (server_config \<Rightarrow> nat \<Rightarrow> out list) \<Rightarrow> out list \<Rightarrow> 's program_run" where
  "run_server W config_path out notice rt banner tasks =
     (let (ws, r) = load_config config_path (w_files W config_path);
          out = out @ map (\<lambda>w. Cerr (warning_text w)) ws
      in case r of
           Inl e \<Rightarrow> failed out (config_what e)
         | Inr cfg \<Rightarrow>
             (case w_address W (address cfg) of
                Inl what \<Rightarrow> failed out what
              | Inr u \<Rightarrow>
                  (let out = out @ notice cfg;
                       (log, made) = construct_server (w_build W) (w_tls W) (w_listen W (address cfg) (port cfg)) (use_ssl cfg);
                       out = out @ log
                   in case made of
                        Inl what \<Rightarrow> failed out what
                      | Inr (tls, ctx) \<Rightarrow>
                          (case rt cfg of
                             None \<Rightarrow> failed out (w_fs_what W)
                           | Some r \<Rightarrow>
                               (let n = main_threads cfg (w_cores W);
                                    S = start n (w_cores W) new_server;
                                    S = stop (w_life W S)
                                in \<lparr>exit_code = 0, printed = out @ banner cfg n @ [Cout (println ''Server stopped.'')],
                                     posted = tasks, served_by = Some (r, S),
                                     served_tls = (if tls then Some ctx else None)\<rparr>)))))"

section \<open>\<^verbatim>\<open>src/main.cpp\<close>\<close>

definition main_banner :: "server_config \<Rightarrow> nat \<Rightarrow> out list" where
  "main_banner cfg n =
     [Cout (println (''Server listening on '' @ address cfg @ '':'' @ dec (unat (port cfg)) @
        '' (threads='' @ dec n @ '', ssl='' @ (if use_ssl cfg then ''on'' else ''off'') @ '')''))]"

definition main_program :: "'s world \<Rightarrow> 's program_run" where
  "main_program W =
     (let config_path = ''examples/configs/http_basic.conf'';
          config_path = (if length (w_argv W) \<ge> 2 then w_argv W ! 1 else config_path)
      in run_server W config_path [] (\<lambda>cfg. []) (main_router (w_canonical W) (w_listing W)) main_banner
           (post_task (Cout (println ''Task sent using post_task'')) []))"

section \<open>The command line of the examples\<close>

datatype cli = RunWith string | ShowHelp | UnknownArg string

function parse_cli :: "string list \<Rightarrow> string \<Rightarrow> cli" where
  "parse_cli [] config_path = RunWith config_path"
| "parse_cli (arg # rest) config_path =
     (if arg = ''--config'' \<and> rest \<noteq> [] then parse_cli (tl rest) (hd rest)
      else if arg = ''--help'' \<or> arg = ''-h'' then ShowHelp
      else UnknownArg arg)"
  by pat_completeness auto
termination by (relation "measure (\<lambda>(args, p). length args)") auto

definition usage :: "string \<Rightarrow> string" where
  "usage prog = println (''Usage: '' @ prog @ '' [--config path/to/config.conf]'')"

definition with_config :: "'s world \<Rightarrow> string \<Rightarrow> (string \<Rightarrow> 's program_run) \<Rightarrow> 's program_run" where
  "with_config W default_path k =
     (case parse_cli (tl (w_argv W)) default_path of
        RunWith path \<Rightarrow> k path
      | ShowHelp \<Rightarrow> \<lparr>exit_code = 0, printed = [Cout (usage (hd (w_argv W)))], posted = [], served_by = None, served_tls = None\<rparr>
      | UnknownArg arg \<Rightarrow> \<lparr>exit_code = 1, printed = [Cerr (println (''Unknown argument: '' @ arg)),
            Cerr (println ''Use --help for usage.'')], posted = [], served_by = None, served_tls = None\<rparr>)"

definition example_mounts :: "(string \<Rightarrow> string option) \<Rightarrow> server_config \<Rightarrow> router option" where
  "example_mounts canonical cfg =
     (case (if www_root cfg \<noteq> [] then MountStatic canonical ''/'' (www_root cfg) empty_router else Some empty_router) of
        None \<Rightarrow> None
      | Some r \<Rightarrow> mount_all canonical (mounts cfg) r)"

definition scheme :: "server_config \<Rightarrow> string" where
  "scheme cfg = (if use_ssl cfg then ''https'' else ''http'')"

definition example_banner :: "string \<Rightarrow> server_config \<Rightarrow> nat \<Rightarrow> out list" where
  "example_banner name cfg n =
     [Cout (println (name @ '' example listening on '' @ scheme cfg @ ''://'' @ address cfg @ '':'' @
        dec (unat (port cfg)) @ '' ('' @ dec n @ '' threads)'')), Cout (println ''Press ENTER to stop...'')]"

section \<open>\<^verbatim>\<open>http_basic.cpp\<close>\<close>

definition http_basic_router :: "(string \<Rightarrow> string option) \<Rightarrow> string list option \<Rightarrow> server_config \<Rightarrow> router option" where
  "http_basic_router canonical listing cfg =
     (case example_mounts canonical cfg of
        None \<Rightarrow> None
      | Some r \<Rightarrow>
          (let r = Get ''/hello'' (\<lambda>req. Some (text_response (println ''Hello from http_basic example'') OK_200 ''utf-8'')) r;
               r = Get ''/api/files'' (files_handler listing) r
           in Some r))"

definition http_basic_main :: "'s world \<Rightarrow> 's program_run" where
  "http_basic_main W = with_config W ''examples/configs/http_basic.conf''
     (\<lambda>path. run_server W path [Cout (println (''Loading config: '' @ path))]
        (\<lambda>cfg. if use_ssl cfg then [Cerr (println ''Warning: this is HTTP example, but config enabled SSL.'')] else [])
        (http_basic_router (w_canonical W) (w_listing W)) (example_banner ''HTTP'') [])"

section \<open>\<^verbatim>\<open>ws_basic.cpp\<close>\<close>

definition ws_basic_open :: "ws_call list" where
  "ws_basic_open = [SendTextAsync (str_bytes ''Welcome! Type a message and everyone will see it.'')]"

definition ws_basic_message :: "bytes \<Rightarrow> ws_call list" where
  "ws_basic_message m = [SendTextAsync m]"

definition ws_basic_close :: "u16 \<Rightarrow> bytes \<Rightarrow> ws_call list" where
  "ws_basic_close code reason = []"

definition ws_basic_router :: "(string \<Rightarrow> string option) \<Rightarrow> server_config \<Rightarrow> router option" where
  "ws_basic_router canonical cfg =
     (case example_mounts canonical cfg of
        None \<Rightarrow> None
      | Some r \<Rightarrow> Some (WebSocketRouter ''/chat''
          [router_on_open ws_basic_open, router_on_message ws_basic_message, router_on_close ws_basic_close] r))"

definition ws_basic_main :: "'s world \<Rightarrow> 's program_run" where
  "ws_basic_main W = with_config W ''examples/configs/ws_basic.conf''
     (\<lambda>path. run_server W path [Cout (println (''Loading config: '' @ path))] (\<lambda>cfg. [])
        (ws_basic_router (w_canonical W)) (example_banner ''ws'') [])"

end
