(* ===== verification/Client_Programs.thy ===== *)
theory Client_Programs
  imports Programs Http_Client Ws_Client
begin

text \<open>
  The client programs, built with TLS or without: \<^verbatim>\<open>examples/clients/http_client_example.cpp\<close>,
  \<^verbatim>\<open>examples/clients/ws_client_example.cpp\<close> and \<^verbatim>\<open>src/client.cpp\<close>.  What the user types is a list
  of lines; the other end of the connection is an argument.
\<close>

section \<open>Starting a client\<close>

datatype client_start = Started server_config "out list" | NotStarted int "out list"

definition client_host :: "server_config \<Rightarrow> string" where
  "client_host cfg = (if address cfg = [] then ''127.0.0.1'' else address cfg)"

definition fatal :: "string \<Rightarrow> out" where
  "fatal what = Cerr (println (''Fatal: '' @ what))"

text \<open>
  The command line and the configuration.  \<open>hint\<close> and \<open>notice\<close> are what only the WebSocket client
  prints, after an unknown argument and before loading.
\<close>

definition start_client :: "string list \<Rightarrow> (string \<Rightarrow> string option) \<Rightarrow> string \<Rightarrow> out list \<Rightarrow>
    (string \<Rightarrow> out list) \<Rightarrow> client_start" where
  "start_client argv files default_path hint notice =
     (case parse_cli (tl argv) default_path of
        ShowHelp \<Rightarrow> NotStarted 0 [Cout (usage (hd argv))]
      | UnknownArg arg \<Rightarrow> NotStarted 1 (Cerr (println (''Unknown argument: '' @ arg)) # hint)
      | RunWith path \<Rightarrow>
          (let (ws, r) = load_config path (files path);
               out = notice path @ map (\<lambda>w. Cerr (warning_text w)) ws
           in case r of Inl e \<Rightarrow> NotStarted 1 (out @ [fatal (config_what e)]) | Inr cfg \<Rightarrow> Started cfg out))"

section \<open>The HTTP client\<close>

datatype http_command = CmdGet string | CmdPost string string | CmdQuit | CmdNone | CmdUnknown

definition parse_command :: "string \<Rightarrow> http_command" where
  "parse_command l =
     (if l = [] then CmdNone
      else if is_prefix ''get '' l then CmdGet (drop 4 l)
      else if is_prefix ''post '' l then
        (let rest = drop 5 l
         in case find_char (CHR '' '') rest of
              None \<Rightarrow> CmdPost rest []
            | Some sp \<Rightarrow> CmdPost (take sp rest) (drop (sp + 1) rest))
      else if l = ''quit'' then CmdQuit
      else CmdUnknown)"

text \<open>
  The other end of the connection: what the i-th request gets, or the text of the exception of the
  write.  The client's connection is opened once, before the loop.
\<close>

type_synonym http_peer = "nat \<Rightarrow> string \<Rightarrow> string + (string list \<times> stream_end)"

definition repl_request :: "(headers \<Rightarrow> headers) \<Rightarrow> http_peer \<Rightarrow> nat \<Rightarrow> http_method \<Rightarrow> string \<Rightarrow> string \<Rightarrow>
    http_client \<Rightarrow> string + (string \<times> http_client)" where
  "repl_request iter peer i m target b c =
     (if h_stopped c then Inr ([], c)
      else case peer i (rq_to_string iter (client_request m target b [] c)) of
             Inl what \<Rightarrow> Inl what
           | Inr reply \<Rightarrow>
               Inr (if m = POST then http_post iter target b [] (\<lambda>r. reply) c
                    else http_get iter target [] (\<lambda>r. reply) c))"

definition announce :: "string \<Rightarrow> string \<Rightarrow> string" where
  "announce m path = println (''[CLIENT] '' @ m @ '' '' @ path @ '' response:'')"

text \<open>The loop; the result is what was printed and the text of the exception that ended it, if any.\<close>

fun http_repl :: "(headers \<Rightarrow> headers) \<Rightarrow> http_peer \<Rightarrow> nat \<Rightarrow> string list \<Rightarrow> http_client \<Rightarrow> out list \<times> string option" where
  "http_repl iter peer i [] c = (if h_stopped c then ([], None) else ([Cout ''> ''], None))"
| "http_repl iter peer i (l # ls) c =
     (if h_stopped c then ([], None)
      else let (out, e) =
             (case parse_command l of
                CmdNone \<Rightarrow> http_repl iter peer i ls c
              | CmdGet path \<Rightarrow>
                  (case repl_request iter peer i GET path [] c of
                     Inl what \<Rightarrow> ([Cout (announce ''GET'' path)], Some what)
                   | Inr (reply, c) \<Rightarrow>
                       (let (out, e) = http_repl iter peer (i + 1) ls (c\<lparr>h_stopped := False\<rparr>)
                        in (Cout (announce ''GET'' path) # Cout (println reply) # out, e)))
              | CmdPost path b \<Rightarrow>
                  (case repl_request iter peer i POST path b c of
                     Inl what \<Rightarrow> ([Cout (announce ''POST'' path)], Some what)
                   | Inr (reply, c) \<Rightarrow>
                       (let (out, e) = http_repl iter peer (i + 1) ls (c\<lparr>h_stopped := False\<rparr>)
                        in (Cout (announce ''POST'' path) # Cout (println reply) # out, e)))
              | CmdQuit \<Rightarrow> ([], None)
              | CmdUnknown \<Rightarrow>
                  (let (out, e) = http_repl iter peer i ls c
                   in (Cout (println ''[CLIENT] Unknown command'') # out, e)))
           in (Cout ''> '' # out, e))"

text \<open>
  The client object up to its open connection.  \<open>resolve\<close> tells the text of the exception of the
  resolver or what connecting to the endpoints gives, the text of an exception or the peer.
\<close>

record 's client_world =
  cw_build :: build
  cw_tls :: tls_library
  cw_handshake :: "'s tls_connect"
  cw_files :: "string \<Rightarrow> string option"
  cw_resolve :: "string \<Rightarrow> string \<Rightarrow> string + (string + 's)"

definition reach_server :: "'s client_world \<Rightarrow> server_config \<Rightarrow> string + 's" where
  "reach_server W cfg =
     (case client_context (cw_build W) (cw_tls W) (use_ssl cfg) (ssl_cert_file cfg) of
        Inl what \<Rightarrow> Inl what
      | Inr ctx \<Rightarrow>
          (case cw_resolve W (client_host cfg) (dec (unat (port cfg))) of
             Inl what \<Rightarrow> Inl what
           | Inr con \<Rightarrow> open_connection (cw_build W) (cw_handshake W) (use_ssl cfg) ctx (client_host cfg) con))"

text \<open>
  A client that is configured for TLS speaks only after a handshake, with the configured certificate
  to verify the server against; in a build without TLS it does not get to its peer at all.
\<close>

lemma client_never_downgraded:
  assumes "reach_server W cfg = Inr s" "use_ssl cfg"
  shows "cw_build W = TlsBuild \<and> (\<exists>ctx s0. cw_handshake W ctx (client_host cfg) s0 = Inr s \<and>
    verify_file ctx = (if ssl_cert_file cfg = [] then None else Some (ssl_cert_file cfg)))"
  using assms client_context_verifies [of "cw_build W" "cw_tls W" True "ssl_cert_file cfg"]
  by (fastforce simp: reach_server_def open_connection_def split: sum.splits build.splits)

definition http_client_main :: "(headers \<Rightarrow> headers) \<Rightarrow> string list \<Rightarrow> http_peer client_world \<Rightarrow> string list \<Rightarrow>
    int \<times> out list" where
  "http_client_main iter argv W stdin =
     (case start_client argv (cw_files W) ''examples/configs/http_basic.conf'' [] (\<lambda>path. []) of
        NotStarted code out \<Rightarrow> (code, out)
      | Started cfg out \<Rightarrow>
          (let out = out @ [Cout (println (''Connecting to '' @ scheme cfg @ ''://'' @ client_host cfg @ '':'' @
                       dec (unat (port cfg)) @ '' ...''))]
           in case reach_server W cfg of
                Inl what \<Rightarrow> (1, out @ [fatal what])
              | Inr peer \<Rightarrow>
                  (let out = out @ [Cout (println ''[CLIENT] Connected'')];
                       (printed, e) = http_repl iter peer 0 stdin (http_connect (client_host cfg) new_http_client)
                   in case e of
                        Some what \<Rightarrow> (1, out @ printed @ [fatal what])
                      | None \<Rightarrow> (0, out @ printed @ [Cout (println ''[CLIENT] Finished, disconnecting.'')]))))"

section \<open>The WebSocket client\<close>

text \<open>The exceptions of the client as texts; \<open>net_what\<close> is the message of an error of the network.\<close>

fun client_what :: "(net_error \<Rightarrow> string) \<Rightarrow> client_error \<Rightarrow> string" where
  "client_what net_what ServerClosed = ''Server closed connection''"
| "client_what net_what (ReadError e) = ''Read error: '' @ net_what e"
| "client_what net_what RsvBits = ''RSV bits set (extensions not supported)''"
| "client_what net_what (InvalidOpcode op) = ''Invalid opcode: '' @ dec (unat op)"
| "client_what net_what (FrameTooLarge n) = ''Frame too large or parse desync: len='' @ dec (unat n)"
| "client_what net_what UnsupportedOpcode = ''Protocol error: unsupported data opcode''"
| "client_what net_what ExpectedContinuation = ''Protocol error: expected continuation frame''"
| "client_what net_what (HandshakeFailed r) = ''Handshake failed:'' @ [newline] @ r"

text \<open>What \<^verbatim>\<open>receive_loop\<close> prints.\<close>

definition receive_output :: "(net_error \<Rightarrow> string) \<Rightarrow> ws_message list \<Rightarrow> client_error \<Rightarrow> out list" where
  "receive_output net_what ms e =
     concat (map (\<lambda>m. if m_opcode m = 0x1 then [Cout (println (''[WS CLIENT] Text: '' @ bytes_str (m_payload m)))] else []) ms) @
     (let what = client_what net_what e
      in if what = ''Server closed connection'' \<or> has_substring ''stream truncated'' what \<or>
            has_substring ''eof'' what \<or> has_substring ''EOF'' what
         then [Cout (println ''[WS CLIENT] Connection closed by server.'')]
         else [Cerr (println (''[WS CLIENT] Error: '' @ what))])"

text \<open>
  The loop that sends what is typed, for at most \<open>fuel\<close> lines; at the end of the input a line is
  empty.  \<open>keys\<close> are the random masks.
\<close>

fun typing_loop :: "(nat \<Rightarrow> bytes) \<Rightarrow> nat \<Rightarrow> string list \<Rightarrow> ws_client \<Rightarrow> ws_client option" where
  "typing_loop keys fuel stdin c =
     (if c_stopped c then Some c
      else case fuel of
             0 \<Rightarrow> None
           | Suc fuel \<Rightarrow>
               (let (l, rest) = (case stdin of [] \<Rightarrow> ([], []) | l # ls \<Rightarrow> (l, ls))
                in if l = ''quit'' then Some c
                   else typing_loop keys fuel rest (client_send_text (keys fuel) (str_bytes l) c)))"

declare typing_loop.simps [simp del]

definition ws_client_session :: "'s line_read \<Rightarrow> 's socket_read \<Rightarrow> nat \<Rightarrow> string \<Rightarrow> bytes \<Rightarrow> (nat \<Rightarrow> bytes) \<Rightarrow>
    string list \<Rightarrow> 's \<Rightarrow> (client_error + (ws_message list \<times> client_error \<times> ws_client)) option" where
  "ws_client_session rd_line rd fuel host random keys stdin s =
     (case connect rd_line fuel host ''/ws-video'' random s new_client of
        None \<Rightarrow> None
      | Some (Inl e) \<Rightarrow> Some (Inl e)
      | Some (Inr (c, s)) \<Rightarrow>
          (let c = client_send_text (keys fuel) (str_bytes ''Hello from client!'') c
           in case receive_loop rd fuel fuel s c of
                None \<Rightarrow> None
              | Some (ms, e, c) \<Rightarrow>
                  (case typing_loop keys fuel stdin c of
                     None \<Rightarrow> None
                   | Some c \<Rightarrow> Some (Inr (ms, e, c)))))"

definition ws_client_main :: "'s line_read \<Rightarrow> 's socket_read \<Rightarrow> (net_error \<Rightarrow> string) \<Rightarrow> nat \<Rightarrow> bytes \<Rightarrow> (nat \<Rightarrow> bytes) \<Rightarrow>
    string list \<Rightarrow> 's client_world \<Rightarrow> string list \<Rightarrow> (int \<times> out list) option" where
  "ws_client_main rd_line rd net_what fuel random keys argv W stdin =
     (case start_client argv (cw_files W) ''examples/configs/ws_basic.conf'' [Cerr (println ''Use --help for usage.'')]
         (\<lambda>path. [Cout (println (''Loading config: '' @ path))]) of
        NotStarted code out \<Rightarrow> Some (code, out)
      | Started cfg out \<Rightarrow>
          (let out = out @ [Cout (println (''Connecting to '' @ (if use_ssl cfg then ''wss'' else ''ws'') @ ''://'' @
                       client_host cfg @ '':'' @ dec (unat (port cfg)) @ ''/ws-video'' @ ''...''))]
           in case reach_server W cfg of
                Inl what \<Rightarrow> Some (1, out @ [fatal what])
              | Inr s \<Rightarrow>
                  (case ws_client_session rd_line rd fuel (client_host cfg) random keys stdin s of
                     None \<Rightarrow> None
                   | Some (Inl e) \<Rightarrow> Some (1, out @ [fatal (client_what net_what e)])
                   | Some (Inr (ms, e, c)) \<Rightarrow> Some (0, out @ receive_output net_what ms e))))"

section \<open>The console client\<close>

text \<open>One typed line as a request; the header fields are emplaced.\<close>

definition console_request :: "string \<Rightarrow> request" where
  "console_request l =
     (let h = hdr_emplace ''Host'' ''localhost'' [];
          h = hdr_emplace ''Content-Length'' (dec (length l)) h;
          h = hdr_emplace ''Content-Type'' ''text/plain; charset=utf-8'' h
      in empty_request\<lparr>rq_method := GET, rq_version := ''HTTP/1.1'', rq_target := ''/index.html'',
           rq_headers := h, rq_body := l\<rparr>)"

text \<open>\<^verbatim>\<open>do_write\<close>: a request per line up to the first empty one; then the socket is closed.\<close>

fun console_write :: "(headers \<Rightarrow> headers) \<Rightarrow> string list \<Rightarrow> string list" where
  "console_write iter [] = []"
| "console_write iter (l # ls) =
     (if l = [] then [] else rq_to_string iter (console_request l) # console_write iter ls)"

text \<open>
  \<^verbatim>\<open>do_read\<close>: the head without its empty line, what came with it, and then everything up to the end
  of the stream.  \<open>what\<close> is the text of the exception that ends it.
\<close>

definition console_read :: "string \<Rightarrow> string list \<Rightarrow> out list" where
  "console_read what cs =
     (case seg_until cs [] of
        Inl e \<Rightarrow> [Cout (println (''Read stopped: '' @ what))]
      | Inr (buf, n, cs) \<Rightarrow>
          [Cout (''=== HEADERS ==='' @ [newline] @ take (n - 4) buf @ [newline])] @
          (if drop n buf \<noteq> [] then [Cout (''[BODY CHUNK] '' @ drop n buf)] else []) @
          map Cout cs @ [Cout (println (''Read stopped: '' @ what))])"

text \<open>
  \<^verbatim>\<open>main\<close>: \<open>resolve\<close> is what a port leads to, or the text of an exception.  Reading and writing run
  side by side; the result is what is sent and what is read.
\<close>

datatype console_run = Usage string | ConsoleException string | Talk "string list" "out list"

definition console_main :: "(headers \<Rightarrow> headers) \<Rightarrow> string list \<Rightarrow> (string \<Rightarrow> string + (string \<times> string list)) \<Rightarrow>
    string list \<Rightarrow> int \<times> console_run" where
  "console_main iter argv resolve stdin =
     (let p = ''12345''; p = (if length argv \<ge> 2 then argv ! 1 else p)
      in if length argv > 2 then (1, Usage (hd argv))
         else case resolve p of
                Inl what \<Rightarrow> (0, ConsoleException what)
              | Inr (what, cs) \<Rightarrow> (0, Talk (console_write iter stdin) (console_read what cs)))"

end
