(* ===== verification/Program_Properties.thy ===== *)
theory Program_Properties
  imports Client_Programs Server_Properties
begin

text \<open>
  The properties of the programs: the servers from their configuration to their exit, and the
  clients against them, each with a concrete instance where it has hypotheses.
\<close>

section \<open>Servers\<close>

text \<open>A configuration that loads, an address, a port and a certificate that can be used, and routes that mount.\<close>

lemma run_server_ok:
  assumes "w_files W path = Some (config_text cfg)" "plain_config cfg" "w_address W (address cfg) = Inr u"
    "construct_server (w_build W) (w_tls W) (w_listen W (address cfg) (port cfg)) (use_ssl cfg) = (log, Inr (tls, ctx))"
    "rt cfg = Some r"
  shows "run_server W path out notice rt banner tasks =
    \<lparr>exit_code = 0, printed = out @ notice cfg @ log @ banner cfg (main_threads cfg (w_cores W)) @
        [Cout (println ''Server stopped.'')], posted = tasks,
      served_by = Some (r, stop (w_life W (start (main_threads cfg (w_cores W)) (w_cores W) new_server))),
      served_tls = (if tls then Some ctx else None)\<rparr>"
  using assms load_config_text [OF assms(2), of path] by (simp add: run_server_def Let_def)


text \<open>A world with one configuration file, in which a client connects and upgrades.\<close>

definition sample_tls :: tls_library where
  "sample_tls = \<lparr>load_chain = (\<lambda>p. Inr ()), load_private_key = (\<lambda>p. Inr ()), load_verify_file = (\<lambda>p. Inr ())\<rparr>"

definition sample_world :: "string list \<Rightarrow> bytes list world" where
  "sample_world argv = \<lparr>w_argv = argv, w_files = (\<lambda>p. if p = ''a.conf'' then Some (config_text default_config) else None),
     w_address = (\<lambda>a. Inr ()), w_listen = (\<lambda>a p. Inr ()), w_canonical = Some, w_fs_what = [], w_listing = None,
     w_cores = 4, w_build = TlsBuild, w_tls = sample_tls, w_life = (\<lambda>S. open_websocket 5 no_handlers [] (add_client 5 S))\<rparr>"

lemma sample_config: "plain_config default_config"
  by (simp add: plain_config_def default_config_def plain_value_def is_space_def newline_def)



text \<open>The same world with TLS switched on in the configuration.\<close>

definition secure_config :: server_config where
  "secure_config = default_config\<lparr>use_ssl := True\<rparr>"

definition secure_world :: "string list \<Rightarrow> bytes list world" where
  "secure_world argv = (sample_world argv)\<lparr>w_files := (\<lambda>p. if p = ''a.conf'' then Some (config_text secure_config) else None)\<rparr>"

lemma main_router_cong:
  "www_root c = www_root d \<Longrightarrow> mounts c = mounts d \<Longrightarrow> main_router canonical l c = main_router canonical l d"
  by (simp only: main_router_def)

lemma secure_plain: "plain_config secure_config"
  using sample_config by (simp add: secure_config_def plain_config_def)

lemma run_server_tls:
  assumes "load_config path (w_files W path) = (ws, Inr cfg)" "served_by (run_server W path out notice rt banner tasks) = Some x"
  shows "\<exists>log on ctx. construct_server (w_build W) (w_tls W) (w_listen W (address cfg) (port cfg)) (use_ssl cfg) =
      (log, Inr (on, ctx)) \<and> served_tls (run_server W path out notice rt banner tasks) = (if on then Some ctx else None)"
  using assms by (auto simp: run_server_def failed_def Let_def split: sum.splits option.splits prod.splits)

lemma run_server_not_served:
  "served_by (run_server W path out notice rt banner tasks) = None \<Longrightarrow>
   exit_code (run_server W path out notice rt banner tasks) = 1"
  by (auto simp: run_server_def failed_def Let_def split: sum.splits option.splits prod.splits)

text \<open>
  C21: A server that is configured for TLS never falls back to plain text.  In a build with TLS,
  whatever the world does, the server program either serves with a context whose certificate and key
  were both loaded, or it serves nobody and returns 1.
\<close>

theorem tls_never_downgraded:
  assumes "w_build W = TlsBuild" "w_argv W = [prog, path]" "load_config path (w_files W path) = (ws, Inr cfg)" "use_ssl cfg"
  shows "case served_by (main_program W) of
      None \<Rightarrow> exit_code (main_program W) = 1
    | Some x \<Rightarrow> (\<exists>ctx. served_tls (main_program W) = Some ctx \<and>
        chain_file ctx = Some ''certs/localhost.crt'' \<and> load_chain (w_tls W) ''certs/localhost.crt'' = Inr () \<and>
        private_key_file ctx = Some ''certs/localhost.key'' \<and> load_private_key (w_tls W) ''certs/localhost.key'' = Inr ())"
proof -
  let ?rt = "main_router (w_canonical W) (w_listing W)" and ?t = "post_task (Cout (println ''Task sent using post_task'')) []"
  have m: "main_program W = run_server W path [] (\<lambda>cfg. []) ?rt main_banner ?t"
    using assms(2) by (simp add: main_program_def)
  show ?thesis
  proof (cases "served_by (main_program W)")
    case None
    with run_server_not_served show ?thesis unfolding m by auto
  next
    case (Some x)
    then obtain log on ctx where c: "construct_server TlsBuild (w_tls W) (w_listen W (address cfg) (port cfg)) True =
        (log, Inr (on, ctx))" "served_tls (main_program W) = (if on then Some ctx else None)"
      using run_server_tls [OF assms(3)] assms(1,4) unfolding m by metis
    have "on" using construct_server_tls(1) [OF c(1)] by simp
    with construct_server_tls(2) [OF c(1)] construct_server_loads [OF c(1)] c(2) Some show ?thesis by simp
  qed
qed

theorem tls_never_downgraded_witness:
  "\<exists>ctx. served_tls (main_program (secure_world [''server'', ''a.conf''])) = Some ctx \<and>
    chain_file ctx = Some ''certs/localhost.crt''"
proof -
  let ?W = "secure_world [''server'', ''a.conf'']"
  have w: "w_build ?W = TlsBuild" "w_argv ?W = [''server'', ''a.conf'']" "w_files ?W ''a.conf'' = Some (config_text secure_config)"
    by (simp_all add: secure_world_def sample_world_def)
  note l = load_config_text [OF secure_plain, of "''a.conf''"]
  have "served_by (main_program ?W) \<noteq> None"
  proof -
    have "construct_server (w_build ?W) (w_tls ?W) (w_listen ?W (address secure_config) (port secure_config)) (use_ssl secure_config) =
        ([], Inr (True, snd (projr (snd (construct_server TlsBuild sample_tls (Inr ()) True)))))"
      using construct_server_loaded [of sample_tls True] by (auto simp: secure_world_def sample_world_def sample_tls_def secure_config_def)
    moreover have "main_router (w_canonical ?W) (w_listing ?W) secure_config = Some sample_router"
      using sample_router main_router_cong [of secure_config default_config Some None]
      by (simp add: secure_world_def sample_world_def secure_config_def)
    moreover have "w_address ?W (address secure_config) = Inr ()" by (simp add: secure_world_def sample_world_def)
    ultimately show ?thesis
      using run_server_ok [OF w(3) secure_plain, where rt = "main_router (w_canonical ?W) (w_listing ?W)"] w(2)
      by (simp add: main_program_def)
  qed
  with tls_never_downgraded [OF w(1,2) l [folded w(3)]] show ?thesis
    by (auto simp: secure_config_def split: option.splits)
qed

lemma run_server_chain:
  "served_tls (run_server W path out notice rt banner tasks) = Some ctx \<Longrightarrow> chain_file ctx = Some ''certs/localhost.crt''"
  using construct_server_tls(2)
  by (fastforce simp: run_server_def failed_def Let_def split: sum.splits option.splits prod.splits if_splits)

text \<open>A program whose parts do not look at the certificate entries of the configuration.\<close>

definition other_certificate :: "string \<Rightarrow> string \<Rightarrow> server_config \<Rightarrow> server_config" where
  "other_certificate cert key cfg = cfg\<lparr>ssl_cert_file := cert, ssl_key_file := key\<rparr>"

lemma run_server_certificate:
  assumes "plain_config cfg" "plain_config (other_certificate cert key cfg)"
    "w_files W path = Some (config_text cfg)"
    "\<And>c. notice (other_certificate cert key c) = notice c" "\<And>c. rt (other_certificate cert key c) = rt c"
    "\<And>c n. banner (other_certificate cert key c) n = banner c n"
  shows "run_server (W\<lparr>w_files := (w_files W)(path \<mapsto> config_text (other_certificate cert key cfg))\<rparr>) path out notice rt banner tasks =
    run_server W path out notice rt banner tasks"
proof -
  have f: "address (other_certificate cert key cfg) = address cfg" "port (other_certificate cert key cfg) = port cfg"
    "use_ssl (other_certificate cert key cfg) = use_ssl cfg"
    "main_threads (other_certificate cert key cfg) n = main_threads cfg n" for n
    by (simp_all add: other_certificate_def main_threads_def)
  show ?thesis
    by (simp add: run_server_def load_config_text [OF assms(1)] load_config_text [OF assms(2)] assms(3-6) f
        failed_def Let_def split: sum.split option.split prod.split)
qed

text \<open>
  C36: The certificate files of the configuration are ignored by the server.  Whatever file names the
  section \<^verbatim>\<open>[ssl]\<close> gives, the server program does exactly the same, and a server with TLS presents
  \<^verbatim>\<open>certs/localhost.crt\<close>, while the example clients verify it against the file that is configured.
\<close>

theorem configured_certificate_ignored:
  assumes "plain_config cfg" "plain_value cert" "plain_value key" "w_argv W = [prog, path]"
    "w_files W path = Some (config_text cfg)"
  shows "main_program (W\<lparr>w_files := (w_files W)(path \<mapsto> config_text (other_certificate cert key cfg))\<rparr>) = main_program W \<and>
    (case served_tls (main_program W) of None \<Rightarrow> True | Some ctx \<Rightarrow> chain_file ctx = Some ''certs/localhost.crt'') \<and>
    (case client_context TlsBuild lib True cert of Inl what \<Rightarrow> True | Inr ctx \<Rightarrow> cert = [] \<or> verify_file ctx = Some cert)"
proof (intro conjI)
  let ?rt = "main_router (w_canonical W) (w_listing W)" and ?t = "post_task (Cout (println ''Task sent using post_task'')) []"
  have p: "plain_config (other_certificate cert key cfg)"
    using assms(1-3) by (simp add: plain_config_def other_certificate_def)
  have r: "?rt (other_certificate cert key c) = ?rt c" for c
    by (rule main_router_cong) (simp_all add: other_certificate_def)
  have b: "main_banner (other_certificate cert key c) n = main_banner c n" for c n
    by (simp add: main_banner_def other_certificate_def)
  have m: "main_program W = run_server W path [] (\<lambda>cfg. []) ?rt main_banner ?t"
    using assms(4) by (simp add: main_program_def)
  show "main_program (W\<lparr>w_files := (w_files W)(path \<mapsto> config_text (other_certificate cert key cfg))\<rparr>) = main_program W"
    using run_server_certificate [OF assms(1) p assms(5), of "\<lambda>cfg. []" ?rt main_banner "[]" ?t] r b assms(4)
    by (simp add: main_program_def)
  show "case served_tls (main_program W) of None \<Rightarrow> True | Some ctx \<Rightarrow> chain_file ctx = Some ''certs/localhost.crt''"
    using run_server_chain [of W path "[]" "\<lambda>cfg. []" ?rt main_banner ?t] unfolding m by (auto split: option.splits)
  show "case client_context TlsBuild lib True cert of Inl what \<Rightarrow> True | Inr ctx \<Rightarrow> cert = [] \<or> verify_file ctx = Some cert"
    using client_context_verifies [of TlsBuild lib True cert] by (auto split: sum.splits)
qed

theorem configured_certificate_ignored_witness:
  "main_program ((secure_world [''server'', ''a.conf''])\<lparr>w_files := (w_files (secure_world [''server'', ''a.conf'']))
      (''a.conf'' \<mapsto> config_text (other_certificate ''my.crt'' ''my.key'' secure_config))\<rparr>) =
    main_program (secure_world [''server'', ''a.conf''])"
proof -
  have v: "plain_value ''my.crt''" "plain_value ''my.key''" by (simp_all add: plain_value_def newline_def is_space_def)
  have w: "w_argv (secure_world [''server'', ''a.conf'']) = [''server'', ''a.conf'']"
    "w_files (secure_world [''server'', ''a.conf'']) ''a.conf'' = Some (config_text secure_config)"
    by (simp_all add: secure_world_def sample_world_def)
  show ?thesis by (rule configured_certificate_ignored [OF secure_plain v w, THEN conjunct1])
qed




section \<open>Clients\<close>

lemma console_fields:
  "rq_headers (console_request l) = [(''Host'', ''localhost''), (''Content-Length'', dec (length l)),
     (''Content-Type'', ''text/plain; charset=utf-8'')]"
  by (simp add: console_request_def Let_def hdr_emplace_def hdr_contains_def ci_equal_def)

lemma console_plain:
  assumes "length l < 2 ^ 64"
  shows "plain_request (console_request l)" "framed (console_request l)"
proof -
  have "trim ''Host'' = ''Host''" "trim ''localhost'' = ''localhost''" "trim ''Content-Type'' = ''Content-Type''"
    "trim ''text/plain; charset=utf-8'' = ''text/plain; charset=utf-8''"
    by (rule trim_fixed; simp add: is_space_def)+
  then have "list_all plain_header (rq_headers (console_request l))"
    using plain_number [of "length l"] by (simp add: console_fields) (simp add: plain_header_def newline_def)
  moreover have "hdr_ok (rq_headers (console_request l))"
    by (simp add: console_fields hdr_ok_def)
  moreover have t: "rq_target (console_request l) = ''/index.html''" "rq_version (console_request l) = ''HTTP/1.1''"
    "rq_body (console_request l) = l"
    by (simp_all add: console_request_def)
  ultimately show "plain_request (console_request l)"
    by (simp add: plain_request_def) (simp add: is_space_def)
  have "hdr_find ''content-length'' (rq_headers (console_request l)) = Some (dec (length l))"
    using ci_content_length [of "''content-length''"] by (simp add: console_fields) (simp add: ci_equal_def)
  then show "framed (console_request l)"
    using assms t(3) by (simp add: framed_def rq_content_length_def rq_header_def header_value_def)
qed

text \<open>
  What is typed into the console client arrives.  Every line up to the first empty one becomes a
  request; the server reads it as a GET of \<^verbatim>\<open>/index.html\<close> whose body is the line, whatever the order of
  the header fields, and finds the next line's request untouched.
\<close>

theorem console_lines_arrive:
  assumes "l \<noteq> []" "length l < 2 ^ 64" "length l \<le> alloc_max" "any_order iter (rq_headers (console_request l))"
    "inbox s = console_write iter (l # ls)"
  shows "\<exists>q. do_read tcp_until tcp_read alloc_max s = Inr (q, s\<lparr>inbox := console_write iter ls\<rparr>) \<and>
    rq_method q = GET \<and> rq_path q = ''/index.html'' \<and> rq_body q = l \<and> rq_header q ''host'' = ''localhost''"
proof -
  let ?q = "console_request l"
  note p = console_plain [OF assms(2)]
  have f: "rq_body ?q = l" "rq_target ?q = ''/index.html''" "rq_method ?q = GET"
    by (simp_all add: console_request_def)
  have d: "do_read tcp_until tcp_read alloc_max s =
      Inr (received_request iter ?q, s\<lparr>inbox := console_write iter ls\<rparr>)"
    using tcp_read_segment [OF p(1) assms(4) p(2), of alloc_max s "[]" "console_write iter ls"] assms(1,3,5) f by simp
  have n: "\<not> ci_equal ''content-length'' ''host''" by (simp add: ci_equal_def)
  have "map to_lower ''Host'' = map to_lower ''host''" by (simp add: to_lower_def char_of_def bit_0)
  then have "ci_equal ''Host'' ''host''" by (simp only: ci_equal_iff)
  then have "rq_header (received_request iter ?q) ''host'' = ''localhost''"
    using received_other_header [OF p(1) assms(4) n] by (simp add: rq_header_def header_value_def console_fields)
  moreover have "rq_path (received_request iter ?q) = ''/index.html''" "rq_method (received_request iter ?q) = GET"
    using parse_head_fields(1,4) [OF p(1) assms(4), of "[]"] split_target_plain [of "''/index.html''"] f
    by (simp_all add: received_request_def parsed_head_def)
  moreover have "rq_body (received_request iter ?q) = l" using f by (simp add: received_request_def)
  ultimately show ?thesis using d by blast
qed

theorem console_lines_arrive_witness:
  "\<exists>q. do_read tcp_until tcp_read 100 \<lparr>inbox = console_write rev [''hi'', ''there''], outbox = [], peer_up = True\<rparr> =
      Inr (q, \<lparr>inbox = console_write rev [''there''], outbox = [], peer_up = True\<rparr>) \<and> rq_body q = ''hi''"
proof -
  have o: "any_order rev (rq_headers (console_request ''hi''))" by (simp add: any_order_def)
  let ?s = "\<lparr>inbox = console_write rev [''hi'', ''there''], outbox = [], peer_up = True\<rparr>"
  have "length ''hi'' < 2 ^ 64" "length ''hi'' \<le> 100" by simp_all
  from console_lines_arrive [OF _ this o, of ?s "[''there'']"] show ?thesis
    by (metis list.distinct(1) tcp_socket.select_convs(1) tcp_socket.update_convs(1))
qed

text \<open>The connection of the client to a session of the server: it serves one request and closes.\<close>

definition single_peer :: "tcp_socket server_env \<Rightarrow> router \<Rightarrow> u64 \<Rightarrow> http_peer" where
  "single_peer E r client_id i sent = (if i = 0 then Inr (server_peer E r client_id sent) else Inr ([], StreamEof))"

lemma read_closed: "read_response [] StreamEof c = ([], c\<lparr>h_stopped := True\<rparr>)"
  by (simp add: read_response_def split_head.simps)

text \<open>
  The HTTP client program gets one answer.  Every request of the client asks the server to close,
  and the program never connects again: the first command prints what the server answers, the second
  prints an empty response, without an error.
\<close>

theorem http_repl_one_answer:
  assumes "\<not> h_stopped c"
  shows "http_repl iter (single_peer E r client_id) 0 [''get '' @ t1, ''get '' @ t2] c =
    ([Cout ''> '', Cout (announce ''GET'' t1), Cout (println (fst (http_get iter t1 [] (server_peer E r client_id) c))),
      Cout ''> '', Cout (announce ''GET'' t2), Cout (println []), Cout ''> ''], None)"
proof -
  have p: "parse_command (''get '' @ t) = CmdGet t" for t by (simp add: parse_command_def)
  have c: "h_host (snd (read_response cs e d)) = h_host d" for cs e d
    by (auto simp: read_response_def split: sum.splits prod.splits)
  have n: "client_request GET t [] [] (d\<lparr>h_stopped := x\<rparr>) = client_request GET t [] [] d" for t d x
    by (simp add: client_request_def)
  obtain a d where g: "http_get iter t1 [] (server_peer E r client_id) c = (a, d)" by fastforce
  have g1: "repl_request iter (single_peer E r client_id) 0 GET t1 [] c = Inr (a, d)"
    using assms g by (simp add: repl_request_def single_peer_def http_get_def send_request_def)
  have g2: "repl_request iter (single_peer E r client_id) 1 GET t2 [] (d\<lparr>h_stopped := False\<rparr>) =
      Inr ([], d\<lparr>h_stopped := True\<rparr>)"
    by (simp add: repl_request_def single_peer_def http_get_def send_request_def read_closed)
  show ?thesis
    using assms g1 g2 by (simp only: http_repl.simps p http_command.case g) simp
qed

theorem http_repl_one_answer_witness:
  "http_repl id (single_peer sample_env sample_router 3) 0 [''get /hello'', ''get /hello''] (http_connect ''h'' new_http_client) =
    ([Cout ''> '', Cout (announce ''GET'' ''/hello''),
      Cout (println (fst (http_get id ''/hello'' [] (server_peer sample_env sample_router 3) (http_connect ''h'' new_http_client)))),
      Cout ''> '', Cout (announce ''GET'' ''/hello''), Cout (println []), Cout ''> ''], None)"
proof -
  have c: "\<not> h_stopped (http_connect ''h'' new_http_client)" by (simp add: http_connect_def new_http_client_def)
  have l: "''get '' @ ''/hello'' = ''get /hello''" by simp
  show ?thesis
    by (rule http_repl_one_answer [OF c, of id sample_env sample_router 3 "''/hello''" "''/hello''", unfolded l])
qed

lemma ws_basic_no_video:
  assumes "ws_basic_router canonical cfg = Some r"
  shows "find_ws ''/ws-video'' r = None"
proof -
  obtain r0 where "example_mounts canonical cfg = Some r0"
    and r: "r = WebSocketRouter ''/chat''
          [router_on_open ws_basic_open, router_on_message ws_basic_message, router_on_close ws_basic_close] r0"
    using assms by (auto simp: ws_basic_router_def split: option.splits)
  then have "ws_routes r0 = Map.empty"
    using mount_all_routes [of canonical "mounts cfg"]
    by (auto simp: example_mounts_def MountStatic_def empty_router_def split: option.splits if_splits)
  then show ?thesis by (simp add: r WebSocketRouter_def find_ws_def commit_ws_route_def)
qed

lemma not_found_bytes:
  assumes "iter (rs_headers (not_found w)) = rs_headers (not_found w)"
  shows "rs_to_string iter (not_found w) =
    lines [''HTTP/1.1 404 Not Found'', ''Content-Type: text/html'',
      ''Content-Length: '' @ dec (length (rs_body (not_found w)))] @ crlf @ rs_body (not_found w)"
proof -
  have b: "rs_body (not_found w) \<noteq> []" "\<not> hdr_contains ''content-length'' (rs_headers (not_found w))"
    by (simp_all add: not_found_def set_content_def default_response_def hdr_contains_def ci_equal_def)
  have h: "rs_headers (not_found w) = [(''Content-Type'', ''text/html'')]" "rs_version (not_found w) = ''HTTP/1.1''"
    "dec_int (rs_status (not_found w)) = ''404''" "reason_phrase (rs_status (not_found w)) = ''Not Found''"
    by (simp_all add: not_found_def set_content_def default_response_def dec_int_def status_codes
        reason_phrase_def dec.simps digit_char_def char_of_def bit_0)
  show ?thesis
    using b assms by (simp add: rs_to_string_def body_length_line_def h lines_def header_line_def)
qed

lemma not_found_no_101:
  "\<not> has_substring ''101'' (lines [''HTTP/1.1 404 Not Found'', ''Content-Type: text/html'',
      ''Content-Length: '' @ dec (length (rs_body (not_found ''No such route for ws!'')))])"
  by (simp add: not_found_def set_content_def default_response_def lines_def crlf_def carriage_def newline_def
      dec.simps digit_char_def char_of_def bit_0)

text \<open>
  C40: The example WebSocket client cannot talk to the example WebSocket server.  It asks for
  \<^verbatim>\<open>/ws-video\<close>, the server has only \<^verbatim>\<open>/chat\<close>: the session refuses the upgrade, and the client ends
  with a failed handshake, before anything is typed or sent.
\<close>

theorem example_ws_client_refused:
  assumes "tcp_env E" "ws_basic_router canonical cfg = Some r" "plain_value host" "random \<noteq> []" "4 \<le> fuel"
  shows "\<exists>s resp. process_session E r client_id 1
      \<lparr>inbox = [upgrade_request host ''/ws-video'' (generate_key random)], outbox = [], peer_up = True\<rparr> = Some (Refused, s) \<and>
    ws_client_session line_until rd fuel host random keys stdin [outbox s] = Some (Inl (HandshakeFailed resp))"
proof -
  let ?s = "\<lparr>inbox = [upgrade_request host ''/ws-video'' (generate_key random)], outbox = [], peer_up = True\<rparr>"
  let ?resp = "not_found ''No such route for ws!''"
  let ?ls = "[''HTTP/1.1 404 Not Found'', ''Content-Type: text/html'', ''Content-Length: '' @ dec (length (rs_body ?resp))]"
  have p: "no_space ''/ws-video''" "''/ws-video'' \<noteq> []" by (simp_all add: is_space_def)
  have f: "find_ws (fst (split_target ''/ws-video'')) r = None"
    using ws_basic_no_video [OF assms(2)] split_target_plain [of "''/ws-video''"] by simp
  have s: "process_session E r client_id 1 ?s = Some (Refused, ?s\<lparr>inbox := [], outbox := rs_to_string (e_iter E) ?resp\<rparr>)"
    using server_refuses [OF assms(1) p assms(3) client_key [OF assms(4)] f, of ?s client_id 0] by simp
  have "any_order (e_iter E) (rs_headers ?resp)" using assms(1) by (simp add: tcp_env_def)
  then have "e_iter E (rs_headers ?resp) = rs_headers ?resp"
    by (simp add: any_order_def not_found_def set_content_def default_response_def)
  then have t: "rs_to_string (e_iter E) ?resp = lines ?ls @ crlf @ rs_body ?resp" by (rule not_found_bytes)
  have l: "list_all (\<lambda>l. newline \<notin> set l \<and> l \<noteq> []) ?ls" "length ?ls < fuel"
    using newline_dec [of "int (length (rs_body ?resp))"] assms(5) by (simp_all add: newline_def dec_int_def)
  have "read_http_headers line_until fuel [outbox (?s\<lparr>inbox := [], outbox := rs_to_string (e_iter E) ?resp\<rparr>)] [] [] =
      Some (Inr (lines ?ls, []))"
    using read_http_headers_segment [OF l, of "rs_body ?resp"] by (simp only: t tcp_socket.simps)
  then have "ws_client_session line_until rd fuel host random keys stdin
      [outbox (?s\<lparr>inbox := [], outbox := rs_to_string (e_iter E) ?resp\<rparr>)] = Some (Inl (HandshakeFailed (lines ?ls)))"
    using not_found_no_101 by (simp only: ws_client_session_def connect_def Let_def option.case sum.case prod.case
        check_handshake_def if_True not_False_eq_True)
  with s show ?thesis by blast
qed

theorem example_ws_client_refused_witness:
  "\<exists>s resp. process_session sample_env (the (ws_basic_router Some default_config)) 2 1
      \<lparr>inbox = [upgrade_request ''h'' ''/ws-video'' (generate_key [1])], outbox = [], peer_up = True\<rparr> = Some (Refused, s) \<and>
    ws_client_session line_until (\<lambda>n s. Inl NetEof) 4 ''h'' [1] (\<lambda>i. [0, 0, 0, 0]) [''quit''] [outbox s] =
      Some (Inl (HandshakeFailed resp))"
proof -
  have r: "ws_basic_router Some default_config = Some (the (ws_basic_router Some default_config))"
    by (simp add: ws_basic_router_def example_mounts_def default_config_def MountStatic_def)
  have h: "plain_value ''h''" "[1 :: byte] \<noteq> []" "4 \<le> (4 :: nat)"
    by (simp_all add: plain_value_def newline_def is_space_def)
  show ?thesis by (rule example_ws_client_refused [OF tcp_sample_env r h])
qed

text \<open>
  Its loop for typed lines is never entered either: \<^verbatim>\<open>receive_loop\<close> only returns after it has set
  \<^verbatim>\<open>stopped\<close>, so the result does not depend on the input.
\<close>

lemma receive_loop_stops: "receive_loop rd k fuel s c = Some (ms, e, d) \<Longrightarrow> c_stopped d"
  by (induction rd k fuel s c arbitrary: ms rule: receive_loop.induct)
    (auto split: option.splits sum.splits prod.splits)

lemma ws_client_ignores_input:
  "ws_client_session rd_line rd fuel host random keys stdin s = ws_client_session rd_line rd fuel host random keys [] s"
proof -
  have "typing_loop keys fuel stdin c = Some c" if "receive_loop rd fuel fuel s' c' = Some (ms, e, c)" for s' c' ms e c stdin
    using receive_loop_stops [OF that] by (simp add: typing_loop.simps)
  then show ?thesis
    by (auto simp: ws_client_session_def Let_def split: option.splits sum.splits prod.splits)
qed

end
