(* ===== verification/Spec2Isabelle.thy ===== *)
theory Spec2Isabelle
  imports Ws_Properties Client_Properties Http_Properties Server_Properties Program_Properties
begin

text \<open>
  A verification library for \<^verbatim>\<open>cpp-websocketslib\<close>, an HTTP and WebSocket server library in C++20 over
  asio coroutines, with its two clients, its server program, its example programs and a console client.

  \<^bold>\<open>The program.\<close>  \<^verbatim>\<open>main\<close> loads a configuration, mounts directories, registers routes and starts a
  server.  The server accepts sockets and runs a session per client: it reads a request, dispatches
  it to a handler or to the static files, writes the response and goes on until the client wants to
  close.  An upgrade request makes the session a WebSocket connection: a read loop that turns bytes
  into frames and frames into messages for the handlers, and sends that run on a strand and share a
  write queue.  The server keeps a registry of clients and one of connections; \<^verbatim>\<open>stop\<close> goes through
  both.  The clients are blocking counterparts of the two protocols.

  \<^bold>\<open>Theories, from the bottom.\<close>
  \<^item> \<open>Ws_Prelude\<close>: bytes, words, characters, string search, \<^verbatim>\<open>getline\<close>, \<^verbatim>\<open>>>\<close>, decimal numbers and
    \<^verbatim>\<open>stoull\<close>, with the lemmas everything else uses.
  \<^item> \<open>Ws_Frame\<close>: \<^verbatim>\<open>include/websocket/WsFrame.h\<close> and \<^verbatim>\<open>ws_helpers.h\<close>.
  \<^item> \<open>Ws_Reader\<close>: one frame of \<^verbatim>\<open>do_read_loop\<close> in \<^verbatim>\<open>WebSocket.h\<close>, in the locale \<open>byte_stream\<close> over the
    socket, interpreted on byte lists and on segmented input.
  \<^item> \<open>Ws_Conn\<close>, \<open>Ws_Traffic\<close>, \<open>Ws_Session\<close>: the connection of \<^verbatim>\<open>WebSocket.h\<close>: its record, sends, close,
    frame handler and read loop; the specification \<open>conforming\<close> of frame sequences and what the loop
    makes of them; the steps a live connection can take, with their invariants.
  \<^item> \<open>Ws_Writer\<close>: \<^verbatim>\<open>do_write\<close> cut at its suspension points, with any number of senders; the locale
    \<open>ordered_channel\<close> has the queue and the connection as its instances.
  \<^item> \<open>Http_Headers\<close>, \<open>Http_Status\<close>, \<open>Http_Message\<close>, \<open>Http_Utils\<close>: \<^verbatim>\<open>include/http\<close> and \<^verbatim>\<open>src/http\<close>: header
    map and parameters (locale \<open>name_map\<close>), status codes, requests and responses, base 64, the request
    parser.
  \<^item> \<open>Http_IO\<close>, \<open>Http_Roundtrip\<close>, \<open>Http_Wellformed\<close>: \<^verbatim>\<open>include/io_helpers.h\<close> and \<^verbatim>\<open>do_read\<close>, in the
    locale \<open>text_stream\<close> interpreted on TCP segments; what the parser makes of a serialised request, and
    what holds of whatever it reads.
  \<^item> \<open>Server_Routing\<close>, \<open>Server_Static\<close>, \<open>Server_Session\<close>, \<open>Server_Lifecycle\<close>: \<^verbatim>\<open>include/server.h\<close> and
    \<^verbatim>\<open>src/server.cpp\<close>: route tables and mounts, static files and \<^verbatim>\<open>sendfile\<close>, the session with its
    upgrade, the accept loop, the registries, start and stop, with TLS as a layer that \<open>handle_client\<close>
    may put between socket and session.
  \<^item> \<open>Tls_Setup\<close>: the constructor of \<^verbatim>\<open>Server\<close> and \<^verbatim>\<open>setup_ssl\<close>, and the clients' \<^verbatim>\<open>set_verify_cert_file\<close>
    and \<^verbatim>\<open>connect\<close>, for both builds (\<open>build\<close> is the macro \<^verbatim>\<open>USE_SSL\<close>).
  \<^item> \<open>Config\<close>, \<open>Main_Program\<close>, \<open>Programs\<close>: \<^verbatim>\<open>src/config.cpp\<close>, \<^verbatim>\<open>src/main.cpp\<close> and \<^verbatim>\<open>examples/servers\<close>: the
    configuration, the routes and handlers, and the programs from their command line to their exit.
  \<^item> \<open>Ws_Client\<close>, \<open>Http_Client\<close>: \<^verbatim>\<open>src/websocket_client.cpp\<close>, \<^verbatim>\<open>src/http_client.cpp\<close>;
    \<open>Client_Programs\<close>: \<^verbatim>\<open>examples/clients\<close> and \<^verbatim>\<open>src/client.cpp\<close>.
  \<^item> \<open>Ws_Duplex\<close>, \<open>Ws_Handshake\<close>, \<open>Http_Exchange\<close>: client and server against each other.
  \<^item> \<open>Ws_Properties\<close>, \<open>Client_Properties\<close>, \<open>Http_Properties\<close>, \<open>Server_Properties\<close>,
    \<open>Program_Properties\<close>: the properties, each after a text that states it, with a concrete instance where it has hypotheses.

  \<^bold>\<open>How state and effects are represented.\<close>  A class is a record, a member function a function on it.
  The source's machine integers are words: a frame length is \<open>u64\<close>, a close code \<open>u16\<close>, the size check
  of the message buffer is done in 64 bits.  A C++ exception is a value: \<open>Inl\<close> of an error, \<open>None\<close> for a
  handler that throws, \<open>Threw\<close> for the connection's coroutines.  A coroutine that is spawned on the
  strand is an element of the record's \<open>strand\<close>; the functions that call back log the call in \<open>events\<close>
  and run the handler's own sends.  A handler is a function from its arguments to the calls it makes
  on the connection.  What is sent is the record's \<open>wire\<close>, or the socket's \<open>outbox\<close>.  The interleaving
  of connections, strands and the server is a step relation (\<open>session_step\<close>, \<open>server_step\<close>,
  \<open>write_step\<close>), and statements about it hold in every reachable state.

  \<^bold>\<open>Parameters.\<close>  What is not in the repository is an argument: the operations of a socket (\<open>rd\<close>,
  \<open>rd_until\<close>, \<open>wr\<close>, of which the locales assume what asio documents: an exact read returns so many
  bytes or fails, a read until a delimiter delivers at least up to it), the file system and the
  answers of \<^verbatim>\<open>sendfile\<close>, the answers of OpenSSL, the largest allocation that succeeds, SHA-1, random bytes, and the order in
  which C++ iterates over a hash map, of which only \<open>any_order\<close> is assumed: every entry is visited
  once.

  \<^bold>\<open>What the lemmas show.\<close>  The wire format: reader and writer are inverse for every frame, the
  client's hand-made frames included.  Messages: on conforming traffic the read loop and the
  client's loop both deliver exactly the messages of the specification, whatever the fragmentation;
  together with the upgrade this carries a conversation through the whole program.  Connections: the
  cleanup runs exactly once, nothing happens after closing, no message exceeds ten mebibytes, and the
  server's registry is exact.  Output: frames leave in the order of the calls and all leave unless a
  write fails.  HTTP: a request survives serialisation, header order and segmentation, and
  whatever is read is well formed; a session answers in order, and a static file is delivered
  whole; a client that leaves leaves no trace; header names, parameters, mounts, static files and
  configuration behave as tables.  Programs: a server program serves what its configuration says and shuts down clean; configured for
  TLS in a build that has it, it serves with TLS or not at all.  The
  remaining properties pin down behaviour a caller would not expect: repeated close
  notifications, orphan continuations, lost peers, pipelined requests, root prefixes, ports with
  trailing text, certificate entries that are ignored, a server that cannot be started twice, the
  client's base 64 and its handshake check, and example clients that cannot do what they are for.

  \<^bold>\<open>Fuel.\<close>  The loops that depend on input (\<open>read_loop\<close>, \<open>process_session\<close>, \<open>read_message\<close>,
  \<open>receive_loop\<close>, \<open>read_http_headers\<close>) take the number of turns and return \<open>None\<close> when it is used up.
  Every statement that uses them says how much is enough: one turn more than there are frames,
  requests or lines; for an arbitrary finite stream half its length bounds the turns of the read
  loop.  All other functions are total.

  \<^bold>\<open>What is not modelled.\<close>  What OpenSSL does inside a handshake or a loading function, and SHA-1
  itself; threads, atomics and mutexes below the granularity of the steps, so that the unsynchronised
  use of the write queue by the read loop and the strand is not visible here; the effect of a
  cancellation on a pending operation other than that the operation fails; when a task handed to
  \<^verbatim>\<open>post_task\<close> runs; a server started without a worker and then started again with some; the console output of handlers and the diagnostics of \<^verbatim>\<open>read_response\<close>; tests and
  benchmarks, which only call the library.
\<close>

end
